(* ===== verification/Prelude.thy ===== *)
theory Prelude
  imports Complex_Main "HOL-Library.AList" "HOL-Library.Multiset" "HOL-Library.Product_Lexorder"
begin

text \<open>
  Shared vocabulary of the development: the collections of rewrite rules that evaluate the
  model on concrete inputs, and generic lemmas on lists and association lists that the
  component theories use. Nothing here models a line of the repository.
\<close>

named_theorems js_eval \<open>rules that evaluate the JavaScript built-ins of the model on literals\<close>
named_theorems model_defs \<open>definitions of the repository's operations, unfolded by witnesses\<close>

text \<open>Decimal digits as characters; JavaScript source text is modelled as \<open>string\<close>.\<close>

definition is_digit :: "char \<Rightarrow> bool" where
  "is_digit c \<longleftrightarrow> 48 \<le> (of_char c :: nat) \<and> (of_char c :: nat) \<le> 57"

definition digit_val :: "char \<Rightarrow> nat" where
  "digit_val c = of_char c - 48"

definition digits_val :: "string \<Rightarrow> nat" where
  "digits_val ds = foldl (\<lambda>acc d. 10 * acc + digit_val d) 0 ds"

definition digit_char :: "nat \<Rightarrow> char" where
  "digit_char d = ''0123456789'' ! d"

fun nat_str :: "nat \<Rightarrow> string" where
  "nat_str n = (if n < 10 then [digit_char n] else nat_str (n div 10) @ [digit_char (n mod 10)])"

declare nat_str.simps [simp del]

text \<open>Evaluation of \<open>nat_str\<close> on numerals, without unfolding it on open terms.\<close>

lemmas [js_eval] = digit_char_def

lemma nat_str_eval [js_eval]:
  "nat_str 0 = ''0''"
  "nat_str 1 = ''1''"
  "nat_str (Suc 0) = ''1''"
  "nat_str (numeral k) =
     (if numeral k < (10::nat) then [digit_char (numeral k)]
      else nat_str (numeral k div 10) @ [digit_char (numeral k mod 10)])"
  by (subst nat_str.simps; simp add: digit_char_def)+

lemma digits_val_append [simp]:
  "digits_val (xs @ ys) = digits_val xs * 10 ^ length ys + digits_val ys"
proof (induction ys rule: rev_induct)
  case Nil
  then show ?case by (simp add: digits_val_def)
next
  case (snoc y ys)
  then show ?case by (simp add: digits_val_def algebra_simps)
qed

lemma digits_val_Nil [simp]: "digits_val [] = 0"
  by (simp add: digits_val_def)

lemma digits_val_single [simp]: "digits_val [c] = digit_val c"
  by (simp add: digits_val_def)

lemma digit_char_props [simp]:
  assumes "d < 10"
  shows "is_digit (digit_char d)" and "digit_val (digit_char d) = d"
proof -
  from assms have "d \<in> {0, 1, 2, 3, 4, 5, 6, 7, 8, 9}" by auto
  then show "is_digit (digit_char d)" and "digit_val (digit_char d) = d"
    by (auto simp: digit_char_def is_digit_def digit_val_def)
qed

lemma nat_str_digits: "\<forall>c \<in> set (nat_str n). is_digit c"
  by (induction n rule: nat_str.induct) (subst nat_str.simps; simp)

lemma nat_str_nonempty [simp]: "nat_str n \<noteq> []"
  by (subst nat_str.simps) simp

lemma digits_val_nat_str [simp]: "digits_val (nat_str n) = n"
  by (induction n rule: nat_str.induct) (subst nat_str.simps; simp)

text \<open>Association lists, used for JavaScript objects: facts on \<open>AList.update\<close>.\<close>

lemma update_keys_distinct [intro]:
  "distinct (map fst al) \<Longrightarrow> distinct (map fst (AList.update k v al))"
  by (simp add: distinct_update)

lemma update_keys_set [simp]: "set (map fst (AList.update k v al)) = insert k (set (map fst al))"
  by (simp add: dom_update)

text \<open>Sums over lists of keys and over permutations.\<close>

lemma length_filter_count_list: "length (filter (\<lambda>x. f x = k) xs) = count_list (map f xs) k"
  by (induction xs) auto

lemma sum_list_filter_keys:
  assumes "distinct ks" and "set ks = f ` set xs"
  shows "(\<Sum>k\<leftarrow>ks. length (filter (\<lambda>x. f x = k) xs)) = length xs"
proof -
  have "(\<Sum>k\<leftarrow>ks. length (filter (\<lambda>x. f x = k) xs)) = (\<Sum>k \<in> set ks. count_list (map f xs) k)"
    using assms(1) by (simp add: sum_list_distinct_conv_sum_set length_filter_count_list)
  also have "\<dots> = length (map f xs)"
    by (rule sum_count_set) (simp_all add: assms(2))
  finally show ?thesis by simp
qed

lemma sum_list_indicator:
  "distinct ks \<Longrightarrow> a \<in> set ks \<Longrightarrow> (\<Sum>k\<leftarrow>ks. if a = k then c else 0) = (c :: 'b :: comm_monoid_add)"
  by (simp add: sum_list_distinct_conv_sum_set)

lemma sum_list_alist:
  assumes "distinct (map fst al)"
  shows "(\<Sum>p\<leftarrow>al. f (snd p)) = (\<Sum>k\<leftarrow>map fst al. f (the (map_of al k)))"
proof -
  have eq: "map (\<lambda>p. f (snd p)) al = map (\<lambda>p. f (the (map_of al (fst p)))) al"
    using assms by (auto intro!: map_cong simp: map_of_is_SomeI)
  show ?thesis by (subst eq) (simp add: comp_def)
qed

lemma sum_list_perm:
  "mset xs = mset ys \<Longrightarrow> (\<Sum>x\<leftarrow>xs. f x) = (\<Sum>x\<leftarrow>ys. (f x :: 'b :: comm_monoid_add))"
proof -
  assume "mset xs = mset ys"
  then have "mset (map f xs) = mset (map f ys)" by simp
  then have "sum_mset (mset (map f xs)) = sum_mset (mset (map f ys))" by (rule arg_cong)
  then show ?thesis by (simp only: sum_mset_sum_list)
qed


lemma map_snd_keyed:
  assumes "distinct (map fst al)" and "\<And>k v. map_of al k = Some v \<Longrightarrow> f v = k"
  shows "map (\<lambda>p. f (snd p)) al = map fst al"
proof (rule map_cong [OF refl])
  fix p assume "p \<in> set al"
  with assms(1) have "map_of al (fst p) = Some (snd p)" by simp
  then show "f (snd p) = fst p" by (rule assms(2))
qed

lemma map_sort_key: "map f (sort_key (\<lambda>x. g (f x)) xs) = sort_key g (map f xs)"
proof (induction xs)
  case (Cons x xs)
  have "map f (insort_key (\<lambda>x. g (f x)) x ys) = insort_key g (f x) (map f ys)" for ys
    by (induction ys) auto
  with Cons show ?case by simp
qed simp

lemma sort_key_cong: "(\<And>x. x \<in> set xs \<Longrightarrow> f x = g x) \<Longrightarrow> sort_key f xs = sort_key g xs"
proof (induction xs)
  case (Cons x xs)
  have "insort_key f x ys = insort_key g x ys" if "set ys \<subseteq> set (x # xs)" for ys
    using that Cons.prems by (induction ys) auto
  moreover have "sort_key f xs = sort_key g xs" using Cons by simp
  ultimately show ?case by (metis set_sort set_subset_Cons sort_key_simps(2))
qed simp

lemma mset_concat_filter_keys:
  "distinct ks \<Longrightarrow> mset (concat (map (\<lambda>k. filter (\<lambda>x. f x = k) xs) ks)) = mset (filter (\<lambda>x. f x \<in> set ks) xs)"
proof (induction ks)
  case (Cons k ks)
  have "mset (filter (\<lambda>x. f x = k) xs) + mset (filter (\<lambda>x. f x \<in> set ks) xs) = mset (filter (\<lambda>x. f x \<in> set (k # ks)) xs)"
    using Cons.prems by (induction xs) auto
  with Cons show ?case by simp
qed simp

text \<open>Dropping a predicate from both ends twice drops nothing more.\<close>

lemma rev_dropWhile_both_idem:
  "rev (dropWhile P (rev (dropWhile P (rev (dropWhile P (rev (dropWhile P s)))))))
   = rev (dropWhile P (rev (dropWhile P s)))"
proof -
  let ?u = "dropWhile P s"
  let ?t = "rev (dropWhile P (rev ?u))"
  have split: "?u = ?t @ rev (takeWhile P (rev ?u))"
    by (metis rev_append rev_rev_ident takeWhile_dropWhile_id)
  have "dropWhile P ?t = ?t"
  proof (cases "?t = []")
    case False
    have hd: "hd ?t = hd ?u" using False split by (metis hd_append2)
    have "?u \<noteq> []" using False split by (metis append_is_Nil_conv)
    then have "\<not> P (hd ?u)" by (rule hd_dropWhile)
    with hd show ?thesis unfolding dropWhile_eq_self_iff by simp
  next
    case True
    then show ?thesis by (simp only: dropWhile.simps)
  qed
  then show ?thesis by (simp add: dropWhile_idem)
qed

lemma neg_pair_less [simp]:
  "((- fst p, - snd p) < (- fst q, - snd q)) \<longleftrightarrow> q < p"
  for p q :: "'a::linordered_ab_group_add \<times> 'b::linordered_ab_group_add"
  by (cases p; cases q) (auto simp: less_prod_def)

lemma mset_concat_map_cong:
  "(\<And>k. k \<in> set ks \<Longrightarrow> mset (F k) = mset (G k)) \<Longrightarrow> mset (concat (map F ks)) = mset (concat (map G ks))"
  by (induction ks) auto

end
