(* ===== verification/JS_String.thy ===== *)
theory JS_String
  imports Prelude
begin

text \<open>
  The String built-ins the repository calls, after ECMAScript 2024 (section 22.1.3).
  A JavaScript string is a sequence of UTF-16 code units; the model's \<open>string\<close> is a list of
  8-bit \<open>char\<close>s, read as the code units 0 to 255 (Latin-1). Text with code units above 255
  is outside the model. White space is the ECMAScript \<open>WhiteSpace\<close> and
  \<open>LineTerminator\<close> set restricted to that range: TAB, LF, VT, FF, CR, SP and NBSP.
\<close>

definition is_js_space :: "char \<Rightarrow> bool" where
  "is_js_space c \<longleftrightarrow> (of_char c :: nat) \<in> set [9, 10, 11, 12, 13, 32, 160]"

text \<open>\<open>String.prototype.trim\<close> and the TrimString(s, start) step of parseFloat/parseInt.\<close>

definition js_trim_start :: "string \<Rightarrow> string" where
  "js_trim_start s = dropWhile is_js_space s"

definition js_trim :: "string \<Rightarrow> string" where
  "js_trim s = rev (dropWhile is_js_space (rev (dropWhile is_js_space s)))"

text \<open>
  \<open>String.prototype.split\<close> with a one-character separator: always at least one piece, the
  pieces between consecutive separators, empty pieces kept (\<open>''''.split(',')\<close> is \<open>['']\<close>).
\<close>

fun js_split :: "char \<Rightarrow> string \<Rightarrow> string list" where
  "js_split c [] = [[]]"
| "js_split c (x # xs) =
     (if x = c then [] # js_split c xs
      else (case js_split c xs of [] \<Rightarrow> [[x]] | w # ws \<Rightarrow> (x # w) # ws))"

text \<open>\<open>String.prototype.replace\<close> with a string pattern: only the first occurrence is replaced.\<close>

fun js_replace_first :: "string \<Rightarrow> string \<Rightarrow> string \<Rightarrow> string" where
  "js_replace_first pat rep [] = (if pat = [] then rep else [])"
| "js_replace_first pat rep (x # xs) =
     (if take (length pat) (x # xs) = pat then rep @ drop (length pat) (x # xs)
      else x # js_replace_first pat rep xs)"

text \<open>\<open>String.prototype.includes\<close>: the pattern occurs at some position.\<close>

fun js_includes :: "string \<Rightarrow> string \<Rightarrow> bool" where
  "js_includes [] pat = (pat = [])"
| "js_includes (x # xs) pat = (take (length pat) (x # xs) = pat \<or> js_includes xs pat)"

text \<open>
  The inverse of splitting, used to state round trips (the repository itself never joins):
  the pieces with the separator between consecutive ones.
\<close>

fun join_on :: "char \<Rightarrow> string list \<Rightarrow> string" where
  "join_on c [] = []"
| "join_on c [w] = w"
| "join_on c (w # ws) = w @ c # join_on c ws"

subsection \<open>Lemmas\<close>

text \<open>
  \<open>String.prototype.toLowerCase\<close> on code units below 256: \<open>A\<close> to \<open>Z\<close> and the Latin-1
  capitals (192 to 222 except the multiplication sign 215) move up by 32; every other code
  unit is unchanged.
\<close>

definition js_lower_char :: "char \<Rightarrow> char" where
  "js_lower_char c =
     (let n = (of_char c :: nat) in
      if (65 \<le> n \<and> n \<le> 90) \<or> (192 \<le> n \<and> n \<le> 222 \<and> n \<noteq> 215) then char_of (n + 32) else c)"

definition js_to_lower :: "string \<Rightarrow> string" where
  "js_to_lower s = map js_lower_char s"

lemmas [js_eval] = js_to_lower_def js_lower_char_def char_of_def bit_0

lemma js_split_nonempty [simp]: "js_split c s \<noteq> []"
  by (induction s) (auto split: list.split)

lemma js_split_pieces: "w \<in> set (js_split c s) \<Longrightarrow> c \<notin> set w"
  by (induction s arbitrary: w) (auto split: list.splits if_splits)

lemma join_on_Cons_Cons [simp]: "join_on c ((x # w) # ws) = x # join_on c (w # ws)"
  by (cases ws) auto

lemma js_split_join: "join_on c (js_split c s) = s"
proof (induction s)
  case Nil
  then show ?case by simp
next
  case (Cons x xs)
  then show ?case by (cases "js_split c xs") auto
qed

lemma js_split_no_sep [simp]: "c \<notin> set s \<Longrightarrow> js_split c s = [s]"
  by (induction s) auto

lemma js_split_append_sep:
  "c \<notin> set w \<Longrightarrow> js_split c (w @ c # s) = w # js_split c s"
  by (induction w) auto

lemma js_trim_no_space:
  assumes "s = [] \<or> (\<not> is_js_space (hd s) \<and> \<not> is_js_space (last s))"
  shows "js_trim s = s"
proof (cases "s = []")
  case True
  then show ?thesis by (simp add: js_trim_def)
next
  case False
  then obtain y ys where s: "s = y # ys" by (cases s) auto
  with assms have "\<not> is_js_space y" by simp
  then have "dropWhile is_js_space s = s" by (simp add: s)
  moreover from False assms have "\<not> is_js_space (hd (rev s))" by (simp add: hd_rev)
  then have "dropWhile is_js_space (rev s) = rev s"
    by (cases "rev s") auto
  ultimately show ?thesis by (simp add: js_trim_def)
qed


lemma js_trim_idem [simp]: "js_trim (js_trim s) = js_trim s"
  unfolding js_trim_def by (rule rev_dropWhile_both_idem)

lemma js_includes_refl [simp]: "js_includes s s"
  by (cases s) simp_all

end
