(* ===== verification/JS_Number.thy ===== *)
theory JS_Number
  imports JS_String
begin

text \<open>
  JavaScript numbers and the Number built-ins the repository calls. A number is a finite
  value, NaN, or one of the two infinities; finite values are kept as exact reals, so the
  model does not round to binary64 (sums of sales figures and the quotients below are
  exact) and has no negative zero (every zero in the repository's arithmetic is a sum or a
  quotient of non-negative zeros). Overflow past \<open>Number.MAX_VALUE\<close> is not modelled.
\<close>

datatype jsnum = Num real | NaN | PosInf | NegInf

fun js_neg :: "jsnum \<Rightarrow> jsnum" where
  "js_neg (Num a) = Num (- a)"
| "js_neg NaN = NaN"
| "js_neg PosInf = NegInf"
| "js_neg NegInf = PosInf"

text \<open>Addition (ECMAScript Number::add): NaN absorbs, opposite infinities give NaN.\<close>

fun js_add :: "jsnum \<Rightarrow> jsnum \<Rightarrow> jsnum" where
  "js_add (Num a) (Num b) = Num (a + b)"
| "js_add NaN y = NaN"
| "js_add x NaN = NaN"
| "js_add PosInf NegInf = NaN"
| "js_add NegInf PosInf = NaN"
| "js_add PosInf y = PosInf"
| "js_add NegInf y = NegInf"
| "js_add x PosInf = PosInf"
| "js_add x NegInf = NegInf"

definition js_sub :: "jsnum \<Rightarrow> jsnum \<Rightarrow> jsnum" where
  "js_sub a b = js_add a (js_neg b)"

text \<open>Multiplication (Number::multiply): an infinity times zero is NaN.\<close>

fun js_mul :: "jsnum \<Rightarrow> jsnum \<Rightarrow> jsnum" where
  "js_mul (Num a) (Num b) = Num (a * b)"
| "js_mul NaN y = NaN"
| "js_mul x NaN = NaN"
| "js_mul (Num a) y = (if a = 0 then NaN else if (0 < a) = (y = PosInf) then PosInf else NegInf)"
| "js_mul x (Num b) = (if b = 0 then NaN else if (0 < b) = (x = PosInf) then PosInf else NegInf)"
| "js_mul x y = (if x = y then PosInf else NegInf)"

text \<open>
  Division (Number::divide). A finite dividend over zero is an infinity of the dividend's
  sign, zero over zero is NaN; the zero divisor is the positive zero.
\<close>

fun js_div :: "jsnum \<Rightarrow> jsnum \<Rightarrow> jsnum" where
  "js_div (Num a) (Num b) =
     (if b \<noteq> 0 then Num (a / b) else if 0 < a then PosInf else if a < 0 then NegInf else NaN)"
| "js_div NaN y = NaN"
| "js_div x NaN = NaN"
| "js_div (Num a) y = Num 0"
| "js_div x (Num b) = (if (0 \<le> b) = (x = PosInf) then PosInf else NegInf)"
| "js_div x y = NaN"

text \<open>The relational \<open><\<close> (IsLessThan): false whenever NaN is involved.\<close>

fun js_less :: "jsnum \<Rightarrow> jsnum \<Rightarrow> bool" where
  "js_less (Num a) (Num b) = (a < b)"
| "js_less NaN y = False"
| "js_less x NaN = False"
| "js_less NegInf y = (y \<noteq> NegInf)"
| "js_less x PosInf = (x \<noteq> PosInf)"
| "js_less x y = False"

text \<open>The relational \<open>>=\<close>: false whenever NaN is involved, otherwise not below.\<close>

definition js_ge :: "jsnum \<Rightarrow> jsnum \<Rightarrow> bool" where
  "js_ge a b \<longleftrightarrow> a \<noteq> NaN \<and> b \<noteq> NaN \<and> \<not> js_less a b"

text \<open>\<open>Math.max\<close>, \<open>Math.min\<close> of two arguments and \<open>Math.abs\<close>.\<close>

definition js_max :: "jsnum \<Rightarrow> jsnum \<Rightarrow> jsnum" where
  "js_max a b = (if a = NaN \<or> b = NaN then NaN else if js_less a b then b else a)"

definition js_min :: "jsnum \<Rightarrow> jsnum \<Rightarrow> jsnum" where
  "js_min a b = (if a = NaN \<or> b = NaN then NaN else if js_less b a then b else a)"

fun js_abs :: "jsnum \<Rightarrow> jsnum" where
  "js_abs (Num a) = Num \<bar>a\<bar>"
| "js_abs NaN = NaN"
| "js_abs x = PosInf"

text \<open>\<open>x || 0\<close> on a number: the falsy numbers (NaN and zero) become 0.\<close>

fun js_or0 :: "jsnum \<Rightarrow> jsnum" where
  "js_or0 NaN = Num 0"
| "js_or0 x = x"

fun js_finite :: "jsnum \<Rightarrow> bool" where
  "js_finite (Num a) = True"
| "js_finite x = False"

subsection \<open>parseFloat\<close>

text \<open>
  \<open>parseFloat\<close> (ECMAScript 19.2.4): leading white space is skipped, then the longest
  prefix that is a \<open>StrDecimalLiteral\<close> is read: an optional sign, then \<open>Infinity\<close> or
  digits with an optional fraction and an optional exponent (\<open>1.\<close>, \<open>.5\<close> and
  \<open>2e3\<close> are literals, \<open>.\<close> and \<open>e3\<close> are not). No literal at all gives NaN.
\<close>

definition scale10 :: "real \<Rightarrow> int \<Rightarrow> real" where
  "scale10 m e = (if 0 \<le> e then m * 10 ^ nat e else m / 10 ^ nat (- e))"

definition exponent_part :: "string \<Rightarrow> int" where
  "exponent_part s =
     (case s of
        c # r \<Rightarrow>
          (if c = CHR ''e'' \<or> c = CHR ''E'' then
             (let (sg, r') = (case r of
                                s1 # r1 \<Rightarrow> (if s1 = CHR ''+'' then (1::int, r1)
                                            else if s1 = CHR ''-'' then (-1, r1) else (1, r))
                              | [] \<Rightarrow> (1, []));
                  ds = takeWhile is_digit r'
              in if ds = [] then 0 else sg * int (digits_val ds))
           else 0)
      | [] \<Rightarrow> 0)"

definition unsigned_decimal :: "string \<Rightarrow> jsnum" where
  "unsigned_decimal s =
     (if take 8 s = ''Infinity'' then PosInf
      else
        (let ip = takeWhile is_digit s;
             r1 = dropWhile is_digit s;
             has_dot = (r1 \<noteq> [] \<and> hd r1 = CHR ''.'');
             fp = (if has_dot then takeWhile is_digit (tl r1) else []);
             rest = (if has_dot then dropWhile is_digit (tl r1) else r1)
         in if ip = [] \<and> fp = [] then NaN
            else Num (scale10 (real (digits_val (ip @ fp)) / 10 ^ length fp) (exponent_part rest))))"

definition parse_float :: "string \<Rightarrow> jsnum" where
  "parse_float s =
     (case js_trim_start s of
        [] \<Rightarrow> NaN
      | c # r \<Rightarrow>
          (if c = CHR ''-'' then js_neg (unsigned_decimal r)
           else if c = CHR ''+'' then unsigned_decimal r
           else unsigned_decimal (c # r)))"

subsection \<open>parseInt\<close>

text \<open>
  \<open>parseInt(s)\<close> with no radix (ECMAScript 19.2.5): leading white space skipped, one
  optional sign, a \<open>0x\<close>/\<open>0X\<close> prefix selects radix 16, otherwise radix 10; the longest
  run of digits of the radix is read, none gives NaN (\<open>None\<close>). The value is exact.
\<close>

definition hex_digit_val :: "char \<Rightarrow> nat option" where
  "hex_digit_val c =
     (let n = (of_char c :: nat) in
      if 48 \<le> n \<and> n \<le> 57 then Some (n - 48)
      else if 97 \<le> n \<and> n \<le> 102 then Some (n - 87)
      else if 65 \<le> n \<and> n \<le> 70 then Some (n - 55) else None)"

definition radix_digit :: "nat \<Rightarrow> char \<Rightarrow> nat option" where
  "radix_digit radix c = (case hex_digit_val c of Some d \<Rightarrow> if d < radix then Some d else None | None \<Rightarrow> None)"

definition radix_val :: "nat \<Rightarrow> string \<Rightarrow> nat" where
  "radix_val radix ds = foldl (\<lambda>acc d. radix * acc + the (radix_digit radix d)) 0 ds"

definition parse_int :: "string \<Rightarrow> int option" where
  "parse_int s =
     (let t = js_trim_start s;
          (sg, t1) = (case t of
                        c # r \<Rightarrow> (if c = CHR ''-'' then (-1::int, r)
                                  else if c = CHR ''+'' then (1, r) else (1, t))
                      | [] \<Rightarrow> (1, []));
          (radix, t2) = (if take 2 t1 = ''0x'' \<or> take 2 t1 = ''0X'' then (16, drop 2 t1) else (10, t1));
          z = takeWhile (\<lambda>c. radix_digit radix c \<noteq> None) t2
      in if z = [] then None else Some (sg * int (radix_val radix z)))"

subsection \<open>toFixed\<close>

text \<open>
  \<open>Number.prototype.toFixed(f)\<close> (ECMAScript 21.1.3.3): NaN and the infinities print
  as words; otherwise the sign, then the integer \<open>n\<close> nearest to \<open>|x| * 10^f\<close> (the
  larger one on a tie), printed with \<open>f\<close> digits after the point and at least one
  before it. The rounding is of the exact real; JavaScript rounds the binary64 value, which
  can differ on decimal ties. For \<open>|x| \<ge> 10^21\<close> JavaScript prints \<open>Number::toString(x)\<close>
  in exponent notation; the model keeps the fixed-point digits there.
\<close>

definition fixed_digits :: "nat \<Rightarrow> real \<Rightarrow> string" where
  "fixed_digits f x =
     (let n = nat \<lfloor>x * 10 ^ f + 1 / 2\<rfloor>;
          m = nat_str n
      in if f = 0 then m
         else
           (let m' = (if length m \<le> f then replicate (f + 1 - length m) CHR ''0'' @ m else m);
                k = length m'
            in take (k - f) m' @ CHR ''.'' # drop (k - f) m'))"

fun to_fixed :: "nat \<Rightarrow> jsnum \<Rightarrow> string" where
  "to_fixed f NaN = ''NaN''"
| "to_fixed f PosInf = ''Infinity''"
| "to_fixed f NegInf = ''-Infinity''"
| "to_fixed f (Num x) = (if x < 0 then CHR ''-'' # fixed_digits f (- x) else fixed_digits f x)"

subsection \<open>Number(string)\<close>

text \<open>
  ToNumber of a string (StringToNumber, ECMAScript 7.1.4.1.1), used when \<open>-\<close> is applied
  to strings: white space is trimmed, the empty string is 0, a \<open>0x\<close>, \<open>0o\<close> or
  \<open>0b\<close> prefix reads the rest in that radix, and otherwise the whole text must be one
  signed \<open>StrDecimalLiteral\<close> (the \<open>parseFloat\<close> grammar with nothing left over), else
  NaN. \<open>unsigned_decimal_rest\<close> is what follows the longest literal.
\<close>

definition exponent_rest :: "string \<Rightarrow> string" where
  "exponent_rest s =
     (case s of
        c # r \<Rightarrow>
          (if c = CHR ''e'' \<or> c = CHR ''E'' then
             (let r' = (case r of s1 # r1 \<Rightarrow> if s1 = CHR ''+'' \<or> s1 = CHR ''-'' then r1 else r | [] \<Rightarrow> []);
                  ds = takeWhile is_digit r'
              in if ds = [] then s else dropWhile is_digit r')
           else s)
      | [] \<Rightarrow> [])"

definition unsigned_decimal_rest :: "string \<Rightarrow> string option" where
  "unsigned_decimal_rest s =
     (if take 8 s = ''Infinity'' then Some (drop 8 s)
      else
        (let ip = takeWhile is_digit s;
             r1 = dropWhile is_digit s;
             has_dot = (r1 \<noteq> [] \<and> hd r1 = CHR ''.'');
             fp = (if has_dot then takeWhile is_digit (tl r1) else []);
             rest = (if has_dot then dropWhile is_digit (tl r1) else r1)
         in if ip = [] \<and> fp = [] then None else Some (exponent_rest rest)))"

definition radix_prefix :: "string \<Rightarrow> nat option" where
  "radix_prefix t =
     (if take 2 t \<in> {''0x'', ''0X''} then Some 16 else if take 2 t \<in> {''0o'', ''0O''} then Some 8
      else if take 2 t \<in> {''0b'', ''0B''} then Some 2 else None)"

definition js_to_number :: "string \<Rightarrow> jsnum" where
  "js_to_number s =
     (let t = js_trim s in
      if t = [] then Num 0
      else case radix_prefix t of
             Some radix \<Rightarrow>
               (let ds = drop 2 t in
                if ds \<noteq> [] \<and> (\<forall>c \<in> set ds. radix_digit radix c \<noteq> None)
                then Num (real (radix_val radix ds)) else NaN)
           | None \<Rightarrow>
               (let u = (if hd t = CHR ''+'' \<or> hd t = CHR ''-'' then tl t else t) in
                if unsigned_decimal_rest u = Some [] then parse_float t else NaN))"

text \<open>
  The order of the numbers other than NaN as a lexicographic key: the infinities at the ends,
  finite values by their real value.
\<close>

definition num_order_key :: "jsnum \<Rightarrow> int \<times> real" where
  "num_order_key x = (case x of NegInf \<Rightarrow> (0, 0) | Num r \<Rightarrow> (1, r) | PosInf \<Rightarrow> (2, 0) | NaN \<Rightarrow> (1, 0))"

lemmas [js_eval] = js_sub_def js_max_def js_min_def parse_float_def unsigned_decimal_def
  exponent_part_def scale10_def parse_int_def radix_val_def radix_digit_def hex_digit_val_def
  fixed_digits_def digits_val_def js_trim_start_def js_trim_def is_js_space_def is_digit_def digit_val_def
  js_to_number_def unsigned_decimal_rest_def exponent_rest_def radix_prefix_def


text \<open>For numbers other than NaN, \<open>b - a > 0\<close> exactly when \<open>a\<close> is below \<open>b\<close>.\<close>

lemma js_sub_pos_key:
  "a \<noteq> NaN \<Longrightarrow> b \<noteq> NaN \<Longrightarrow> js_less (Num 0) (js_sub b a) \<longleftrightarrow> num_order_key a < num_order_key b"
  by (cases a; cases b) (auto simp: js_sub_def num_order_key_def)

end
