(* ===== verification/CSV_Parser.thy ===== *)
theory CSV_Parser
  imports JS_Number
begin
text \<open>
  The CSV record parser of \<open>src/src/api/salesApi.js\<close> (\<open>parseCSVData\<close> and its inner
  \<open>parseCSVLine\<close>), which the dashboard uses. A match record has the fourteen columns of
  the feed; the six numeric ones hold \<open>parseFloat(v) || 0\<close>. Parsing fails with one of
  the two errors the function throws; its \<open>catch\<close> prefixes the message with
  \<open>Failed to parse CSV:\<close>, which \<open>parse_csv_error_text\<close> reproduces.
\<close>

record match_record =
  Date :: string
  Group :: string
  No :: string
  Matches :: string
  Team1 :: string
  Team2 :: string
  Team1Sales :: jsnum
  Team2Sales :: jsnum
  Winner :: string
  Loser :: string
  Winner_1 :: jsnum
  Loser_2 :: jsnum
  TotalWinner :: jsnum
  TotalLoser :: jsnum

datatype parse_error = CsvEmptyOrInvalid | NoValidData

definition parse_error_message :: "parse_error \<Rightarrow> string" where
  "parse_error_message e =
     (case e of
        CsvEmptyOrInvalid \<Rightarrow> ''CSV file is empty or invalid''
      | NoValidData \<Rightarrow> ''No valid data found in CSV'')"

definition parse_csv_error_text :: "parse_error \<Rightarrow> string" where
  "parse_csv_error_text e = ''Failed to parse CSV: '' @ parse_error_message e"

subsection \<open>parseCSVLine\<close>

text \<open>
  The character loop: a double quote toggles \<open>inQuotes\<close> and is dropped, a comma outside
  quotes ends the current field (pushed trimmed), every other character is appended. The
  last field is pushed when the line ends.
\<close>

fun csv_line_loop :: "string \<Rightarrow> string list \<Rightarrow> string \<Rightarrow> bool \<Rightarrow> string list" where
  "csv_line_loop [] values current inQuotes = values @ [js_trim current]"
| "csv_line_loop (c # cs) values current inQuotes =
     (if c = CHR 0x22 then csv_line_loop cs values current (\<not> inQuotes)
      else if c = CHR '','' \<and> \<not> inQuotes then csv_line_loop cs (values @ [js_trim current]) [] inQuotes
      else csv_line_loop cs values (current @ [c]) inQuotes)"

definition parse_csv_line :: "string \<Rightarrow> string list" where
  "parse_csv_line line = csv_line_loop line [] [] False"

text \<open>
  The loop as the source writes it, over the index \<open>i\<close> up to \<open>line.length\<close>. It is
  defined in the option monad, \<open>None\<close> standing for a loop that does not stop, so that its
  termination is a theorem (\<open>csv_line_at_terminates\<close>) rather than an assumption of
  the definition.
\<close>

partial_function (option) csv_line_at ::
  "string \<Rightarrow> nat \<Rightarrow> string list \<Rightarrow> string \<Rightarrow> bool \<Rightarrow> string list option" where
  "csv_line_at line i values current inQuotes =
     (if i < length line then
        (let c = line ! i in
         if c = CHR 0x22 then csv_line_at line (Suc i) values current (\<not> inQuotes)
         else if c = CHR '','' \<and> \<not> inQuotes then csv_line_at line (Suc i) (values @ [js_trim current]) [] inQuotes
         else csv_line_at line (Suc i) values (current @ [c]) inQuotes)
      else Some (values @ [js_trim current]))"

subsection \<open>parseCSVData\<close>

definition num_field :: "string \<Rightarrow> jsnum" where
  "num_field s = js_or0 (parse_float s)"

definition row_of_values :: "string list \<Rightarrow> match_record" where
  "row_of_values v =
     \<lparr>Date = v ! 0, Group = v ! 1, No = v ! 2, Matches = v ! 3, Team1 = v ! 4, Team2 = v ! 5,
      Team1Sales = num_field (v ! 6), Team2Sales = num_field (v ! 7),
      Winner = v ! 8, Loser = v ! 9,
      Winner_1 = num_field (v ! 10), Loser_2 = num_field (v ! 11),
      TotalWinner = num_field (v ! 12), TotalLoser = num_field (v ! 13)\<rparr>"

text \<open>The loop over the data lines: blank lines and lines of fewer than 14 fields are skipped.\<close>

fun collect_rows :: "string list \<Rightarrow> match_record list" where
  "collect_rows [] = []"
| "collect_rows (l # ls) =
     (if js_trim l = [] then collect_rows ls
      else (let values = parse_csv_line l in
            if length values < 14 then collect_rows ls
            else row_of_values values # collect_rows ls))"

definition parse_csv_data :: "string \<Rightarrow> parse_error + match_record list" where
  "parse_csv_data csvText =
     (let lines = js_split CHR ''\<newline>'' (js_trim csvText) in
      if length lines < 2 then Inl CsvEmptyOrInvalid
      else (let data = collect_rows (tl lines) in
            if data = [] then Inl NoValidData else Inr data))"

subsection \<open>Definitions used in the statements\<close>

definition valid_line :: "string \<Rightarrow> bool" where
  "valid_line l \<longleftrightarrow> js_trim l \<noteq> [] \<and> 14 \<le> length (parse_csv_line l)"

text \<open>
  The shape of a record the rest of the program relies on: its text fields carry no
  surrounding white space (the parser trims every field) and its six sales fields are
  numbers, never NaN (the parser's \<open>|| 0\<close>).
\<close>

definition match_record_wf :: "match_record \<Rightarrow> bool" where
  "match_record_wf r \<longleftrightarrow>
     list_all (\<lambda>f. js_trim f = f) [Date r, Group r, No r, Matches r, Team1 r, Team2 r, Winner r, Loser r]
     \<and> list_all (\<lambda>x. x \<noteq> NaN) [Team1Sales r, Team2Sales r, Winner_1 r, Loser_2 r, TotalWinner r, TotalLoser r]"

text \<open>
  The commas that separate fields: those preceded by an even number of double quotes on
  the line. A declarative count, by position, independent of the loop.
\<close>

definition unquoted_commas :: "string \<Rightarrow> nat" where
  "unquoted_commas l =
     length (filter (\<lambda>i. l ! i = CHR '','' \<and> even (count_list (take i l) (CHR 0x22))) [0..<length l])"

definition csv_quote :: "string \<Rightarrow> string" where
  "csv_quote f = CHR 0x22 # f @ [CHR 0x22]"

text \<open>
  A feed of the wire format: the header, a blank line, one match, and a short row that is
  dropped. The sales field \<open>N/A\<close> of the match reads as 0.
\<close>

definition sample_feed :: string where
  "sample_feed =
     ''Date,Group,No,Matches,Team1,Team2,Team1Sales,Team2Sales,Winner,Loser,Winner_1,Loser_2,TotalWinner,TotalLoser\<newline>''
     @ ''  \<newline>''
     @ ''28/11/2025,Group 1,1,M1,Alpha,Beta,100.5,N/A,Alpha,Beta,100.5,0,100.5,0\<newline>''
     @ ''28/11/2025,Group 1,2,M2,Alpha,Gamma,300,50,Alpha,Gamma\<newline>''"

definition sample_row :: match_record where
  "sample_row =
     \<lparr>Date = ''28/11/2025'', Group = ''Group 1'', No = ''1'', Matches = ''M1'',
      Team1 = ''Alpha'', Team2 = ''Beta'', Team1Sales = Num 100.5, Team2Sales = Num 0,
      Winner = ''Alpha'', Loser = ''Beta'', Winner_1 = Num 100.5, Loser_2 = Num 0,
      TotalWinner = Num 100.5, TotalLoser = Num 0\<rparr>"

subsection \<open>Lemmas\<close>

lemma collect_rows_eq: "collect_rows ls = map (row_of_values \<circ> parse_csv_line) (filter valid_line ls)"
  by (induction ls) (auto simp: valid_line_def Let_def)

lemma num_field_not_NaN [simp]: "num_field s \<noteq> NaN"
  by (cases "parse_float s") (simp_all add: num_field_def)

text \<open>Characters that are neither a quote nor, outside quotes, a comma, go into the field.\<close>

lemma csv_line_loop_append:
  assumes "CHR 0x22 \<notin> set f" and "q \<or> CHR '','' \<notin> set f"
  shows "csv_line_loop (f @ rest) vals cur q = csv_line_loop rest vals (cur @ f) q"
  using assms
proof (induction f arbitrary: cur)
  case Nil
  then show ?case by simp
next
  case (Cons c f)
  from Cons.prems have c: "c \<noteq> CHR 0x22" "\<not> (c = CHR '','' \<and> \<not> q)"
    and f: "CHR 0x22 \<notin> set f" "q \<or> CHR '','' \<notin> set f" by auto
  from c have "csv_line_loop ((c # f) @ rest) vals cur q = csv_line_loop (f @ rest) vals (cur @ [c]) q"
    by auto
  also have "\<dots> = csv_line_loop rest vals ((cur @ [c]) @ f) q"
    by (rule Cons.IH [OF f])
  finally show ?case by simp
qed

lemma csv_line_loop_quoted:
  "CHR 0x22 \<notin> set f \<Longrightarrow>
     csv_line_loop (csv_quote f @ rest) vals cur False = csv_line_loop rest vals (cur @ f) False"
  using csv_line_loop_append [of f True "CHR 0x22 # rest" vals cur] by (simp add: csv_quote_def)

lemma csv_line_loop_join_quoted:
  "fs \<noteq> [] \<Longrightarrow> \<forall>f \<in> set fs. CHR 0x22 \<notin> set f \<Longrightarrow>
     csv_line_loop (join_on CHR '','' (map csv_quote fs)) vals [] False = vals @ map js_trim fs"
proof (induction fs arbitrary: vals rule: induct_list012)
  case (2 f)
  then show ?case using csv_line_loop_quoted [of f "[]" vals "[]"] by simp
next
  case (3 f g fs)
  then have "csv_line_loop (join_on CHR '','' (map csv_quote (f # g # fs))) vals [] False
      = csv_line_loop (join_on CHR '','' (map csv_quote (g # fs))) (vals @ [js_trim f]) [] False"
    using csv_line_loop_quoted [of f "CHR '','' # join_on CHR '','' (map csv_quote (g # fs))" vals "[]"]
    by simp
  with 3 show ?case by simp
qed simp

lemma length_js_split: "length (js_split c s) = Suc (count_list s c)"
  by (induction s) (auto split: list.split)

lemma parse_csv_data_cases:
  "parse_csv_data t =
     (let lines = js_split CHR ''\<newline>'' (js_trim t); good = filter valid_line (tl lines) in
      if length lines < 2 then Inl CsvEmptyOrInvalid
      else if good = [] then Inl NoValidData
      else Inr (map (row_of_values \<circ> parse_csv_line) good))"
  by (simp add: parse_csv_data_def collect_rows_eq Let_def)

lemmas [model_defs] = parse_csv_data_def parse_csv_line_def row_of_values_def num_field_def

subsection \<open>Properties of the parser\<close>

text \<open>
  C1. A line whose fields contain no double quote, each written in double quotes and
  joined with commas, is split back into its fields (trimmed): commas inside quotes do not
  split a field.
\<close>

theorem parse_csv_line_quoted_roundtrip:
  assumes "fs \<noteq> []" and "\<forall>f \<in> set fs. CHR 0x22 \<notin> set f"
  shows "parse_csv_line (join_on CHR '','' (map csv_quote fs)) = map js_trim fs"
  using csv_line_loop_join_quoted [OF assms, of "[]"] by (simp add: parse_csv_line_def)

theorem parse_csv_line_quoted_roundtrip_witness:
  "parse_csv_line (join_on CHR '','' (map csv_quote [''Store, North'', '' 120.5''])) = [''Store, North'', ''120.5'']"
  using parse_csv_line_quoted_roundtrip [of "[''Store, North'', '' 120.5'']"]
  by (simp add: js_eval)

text \<open>
  C2. On success the records are the data lines (every line after the first of the trimmed
  text) that are not blank and have at least 14 fields, converted one by one and in input
  order; in particular there are as many records as such lines.
\<close>

theorem parse_csv_data_records:
  assumes "parse_csv_data t = Inr rs"
  shows "rs = map (row_of_values \<circ> parse_csv_line) (filter valid_line (tl (js_split CHR ''\<newline>'' (js_trim t))))"
  using assms by (simp add: parse_csv_data_cases Let_def split: if_splits)

theorem parse_csv_data_records_witness:
  "parse_csv_data sample_feed = Inr [sample_row]
   \<and> [sample_row] = map (row_of_values \<circ> parse_csv_line)
        (filter valid_line (tl (js_split CHR ''\<newline>'' (js_trim sample_feed))))"
proof -
  have h: "parse_csv_data sample_feed = Inr [sample_row]"
    by (simp add: sample_feed_def sample_row_def model_defs js_eval)
  show ?thesis using h parse_csv_data_records [OF h] by simp
qed

text \<open>
  C3. Parsing fails exactly when no data line is usable, and it fails with
  \<open>CSV file is empty or invalid\<close> exactly when the trimmed text is a single line.
\<close>

theorem parse_csv_data_error_iff:
  "((\<exists>e. parse_csv_data t = Inl e) \<longleftrightarrow> filter valid_line (tl (js_split CHR ''\<newline>'' (js_trim t))) = [])
   \<and> (parse_csv_data t = Inl CsvEmptyOrInvalid \<longleftrightarrow> CHR ''\<newline>'' \<notin> set (js_trim t))"
proof -
  let ?lines = "js_split CHR ''\<newline>'' (js_trim t)"
  have len: "length ?lines < 2 \<longleftrightarrow> CHR ''\<newline>'' \<notin> set (js_trim t)"
    by (simp add: length_js_split count_list_0_iff)
  have "length ?lines < 2 \<Longrightarrow> tl ?lines = []"
    by (cases ?lines) auto
  then show ?thesis using len by (auto simp: parse_csv_data_cases Let_def)
qed

lemma csv_line_loop_trimmed:
  "x \<in> set (csv_line_loop l vals cur q) \<Longrightarrow> x \<in> set vals \<or> js_trim x = x"
  by (induction l vals cur q rule: csv_line_loop.induct) (auto split: if_splits)

lemma parse_csv_line_trimmed: "x \<in> set (parse_csv_line l) \<Longrightarrow> js_trim x = x"
  using csv_line_loop_trimmed [of x l "[]" "[]" False] by (simp add: parse_csv_line_def)

lemma row_of_values_wf:
  assumes "14 \<le> length v" and "\<forall>x \<in> set v. js_trim x = x"
  shows "match_record_wf (row_of_values v)"
proof -
  have "js_trim (v ! i) = v ! i" if "i < 14" for i
    using assms nth_mem [of i v] that by simp
  then show ?thesis by (simp add: match_record_wf_def row_of_values_def)
qed

text \<open>
  The index loop of \<open>parseCSVLine\<close> stops on every line, after \<open>line.length\<close>
  rounds, and returns what the character recursion \<open>parse_csv_line\<close> returns, so the
  lemmas about \<open>parse_csv_line\<close> are lemmas about the loop as written.
\<close>

lemma csv_line_at_terminates: "csv_line_at line 0 [] [] False = Some (parse_csv_line line)"
proof -
  have "csv_line_at line i vals cur q = Some (csv_line_loop (drop i line) vals cur q)" for i vals cur q
  proof (induction "length line - i" arbitrary: i vals cur q)
    case 0
    then show ?case by (simp add: csv_line_at.simps)
  next
    case (Suc n)
    then have i: "i < length line" and n: "n = length line - Suc i" by simp_all
    have d: "drop i line = line ! i # drop (Suc i) line" using i by (rule Cons_nth_drop_Suc [symmetric])
    show ?case
      using Suc.hyps(1) [OF n] i by (simp add: csv_line_at.simps [of line i] d Let_def)
  qed
  from this [of 0] show ?thesis by (simp add: parse_csv_line_def)
qed

text \<open>
  C40. Every record a successful \<open>parseCSVData\<close> returns is well formed: its text fields
  are trimmed and its sales fields are numbers other than NaN.
\<close>

theorem parse_csv_data_wf:
  assumes "parse_csv_data t = Inr rs"
  shows "list_all match_record_wf rs"
proof -
  from assms have "rs = map (row_of_values \<circ> parse_csv_line) (filter valid_line (tl (js_split CHR ''\<newline>'' (js_trim t))))"
    by (simp add: parse_csv_data_cases Let_def split: if_splits)
  then show ?thesis
    by (auto simp: list_all_iff valid_line_def intro!: row_of_values_wf dest: parse_csv_line_trimmed)
qed

theorem parse_csv_data_wf_witness: "list_all match_record_wf [sample_row]"
proof -
  have "parse_csv_data sample_feed = Inr [sample_row]"
    by (simp add: sample_feed_def sample_row_def model_defs js_eval)
  then show ?thesis by (rule parse_csv_data_wf)
qed

text \<open>Commas counted from a given quote state, the induction form of \<open>unquoted_commas\<close>.\<close>

lemma seps_Cons:
  "length (filter (\<lambda>i. (c # cs) ! i = CHR '','' \<and> (even (count_list (take i (c # cs)) (CHR 0x22)) \<longleftrightarrow> \<not> q))
      [0..<length (c # cs)])
   = (if c = CHR '','' \<and> \<not> q then 1 else 0)
     + length (filter (\<lambda>i. cs ! i = CHR '','' \<and> (even (count_list (take i cs) (CHR 0x22))
          \<longleftrightarrow> \<not> (if c = CHR 0x22 then \<not> q else q))) [0..<length cs])"
proof -
  have "[0..<length (c # cs)] = 0 # map Suc [0..<length cs]"
    by (simp add: upt_conv_Cons map_Suc_upt del: upt_Suc)
  then show ?thesis
    by (simp add: filter_map comp_def)
qed

lemma csv_line_loop_length:
  "length (csv_line_loop l vals cur q) = Suc (length vals
     + length (filter (\<lambda>i. l ! i = CHR '','' \<and> (even (count_list (take i l) (CHR 0x22)) \<longleftrightarrow> \<not> q))
         [0..<length l]))"
proof (induction l arbitrary: vals cur q)
  case (Cons c cs)
  show ?case by (simp only: seps_Cons) (simp add: Cons.IH)
qed simp

text \<open>
  C39. \<open>parseCSVLine\<close> returns one field more than the line has commas outside double
  quotes, counting the quotes from the start of the line; so a line passes the 14-field
  guard of \<open>parseCSVData\<close> exactly when it has at least 13 such commas.
\<close>

theorem parse_csv_line_length:
  "length (parse_csv_line l) = Suc (unquoted_commas l)"
  using csv_line_loop_length [of l "[]" "[]" False] by (simp add: parse_csv_line_def unquoted_commas_def)

end
