(* ===== verification/JS_Object.thy ===== *)
theory JS_Object
  imports JS_Number
begin
text \<open>
  Plain JavaScript objects used as dictionaries (\<open>const m = {}\<close>, \<open>m[k]\<close>,
  \<open>m[k] = v\<close>, \<open>Object.values\<close>, \<open>Object.keys\<close>), and the array built-ins
  \<open>sort\<close> and \<open>slice\<close>.

  An object is the list of its own properties in creation order. Reading \<open>m[k]\<close> finds an
  own property, or, for the names that \<open>Object.prototype\<close> defines, an inherited value
  (a function, or the prototype itself for \<open>__proto__\<close>), which is truthy; otherwise
  \<open>undefined\<close>. \<open>Object.keys\<close> and \<open>Object.values\<close> list own properties in the
  order of OrdinaryOwnPropertyKeys (ECMAScript 10.1.11.1): the array-index keys
  (canonical decimal strings of integers below \<open>2^32 - 1\<close>) in ascending numeric
  order first, then the other string keys in creation order.
\<close>

type_synonym 'v jsobj = "(string \<times> 'v) list"

datatype 'v jsprop = Own 'v | Inherited | Absent

definition object_prototype_keys :: "string list" where
  "object_prototype_keys =
     [''constructor'', ''__defineGetter__'', ''__defineSetter__'', ''hasOwnProperty'',
      ''__lookupGetter__'', ''__lookupSetter__'', ''isPrototypeOf'', ''propertyIsEnumerable'',
      ''toString'', ''valueOf'', ''__proto__'', ''toLocaleString'']"

definition obj_get :: "'v jsobj \<Rightarrow> string \<Rightarrow> 'v jsprop" where
  "obj_get m k =
     (case map_of m k of
        Some v \<Rightarrow> Own v
      | None \<Rightarrow> if k \<in> set object_prototype_keys then Inherited else Absent)"

definition obj_put :: "string \<Rightarrow> 'v \<Rightarrow> 'v jsobj \<Rightarrow> 'v jsobj" where
  "obj_put k v m = AList.update k v m"

definition is_array_index :: "string \<Rightarrow> bool" where
  "is_array_index s \<longleftrightarrow>
     s \<noteq> [] \<and> list_all is_digit s \<and> (s = ''0'' \<or> hd s \<noteq> CHR ''0'') \<and> digits_val s < 4294967295"

definition obj_entries :: "'v jsobj \<Rightarrow> (string \<times> 'v) list" where
  "obj_entries m =
     sort_key (\<lambda>(k, v). digits_val k) (filter (\<lambda>(k, v). is_array_index k) m)
     @ filter (\<lambda>(k, v). \<not> is_array_index k) m"

definition obj_keys :: "'v jsobj \<Rightarrow> string list" where
  "obj_keys m = map fst (obj_entries m)"

definition obj_values :: "'v jsobj \<Rightarrow> 'v list" where
  "obj_values m = map snd (obj_entries m)"

text \<open>Applying a function to every value, keeping the keys: the abstraction used to relate two
  dictionaries that hold different objects under the same keys.\<close>

definition obj_map :: "('a \<Rightarrow> 'b) \<Rightarrow> 'a jsobj \<Rightarrow> 'b jsobj" where
  "obj_map f m = map (\<lambda>(k, v). (k, f v)) m"

subsection \<open>Array.prototype.sort and slice\<close>

text \<open>
  \<open>arr.sort(cmp)\<close> is stable (ECMAScript 2019 and later). SortCompare reads a NaN result as
  \<open>+0\<close>. The model is insertion sort: each element, taken in array order, goes after every
  element already placed that it does not compare below, which is the unique stable order
  whenever \<open>cmp\<close> is a consistent comparator. For an inconsistent comparator the order is
  implementation-defined in ECMAScript, and the model fixes one.
\<close>

fun sort_insert :: "('a \<Rightarrow> 'a \<Rightarrow> jsnum) \<Rightarrow> 'a \<Rightarrow> 'a list \<Rightarrow> 'a list" where
  "sort_insert cmp x [] = [x]"
| "sort_insert cmp x (y # ys) =
     (if js_less (Num 0) (cmp y x) then x # y # ys else y # sort_insert cmp x ys)"

definition js_sort :: "('a \<Rightarrow> 'a \<Rightarrow> jsnum) \<Rightarrow> 'a list \<Rightarrow> 'a list" where
  "js_sort cmp xs = foldl (\<lambda>acc x. sort_insert cmp x acc) [] xs"

text \<open>\<open>arr.slice(-n)\<close>: the last \<open>n\<close> elements, or all of them when there are fewer.\<close>

definition js_slice_last :: "nat \<Rightarrow> 'a list \<Rightarrow> 'a list" where
  "js_slice_last n xs = drop (length xs - n) xs"

text \<open>\<open>arr.findIndex(p)\<close>: the index of the first element satisfying \<open>p\<close>, or -1.\<close>

fun js_find_index :: "('a \<Rightarrow> bool) \<Rightarrow> 'a list \<Rightarrow> int" where
  "js_find_index P [] = -1"
| "js_find_index P (x # xs) =
     (if P x then 0 else (let i = js_find_index P xs in if i < 0 then -1 else i + 1))"

subsection \<open>The sort is the stable sort by a key\<close>

text \<open>
  When \<open>cmp y x\<close> is positive exactly when \<open>key x < key y\<close>, the insertion sort above
  is the library's stable \<open>sort_key key\<close>; its facts (permutation, sortedness,
  stability) then apply to the repository's sorts.
\<close>

definition cmp_by_key :: "('a \<Rightarrow> 'a \<Rightarrow> jsnum) \<Rightarrow> ('a \<Rightarrow> 'k::linorder) \<Rightarrow> 'a set \<Rightarrow> bool" where
  "cmp_by_key cmp key A \<longleftrightarrow> (\<forall>x \<in> A. \<forall>y \<in> A. js_less (Num 0) (cmp y x) \<longleftrightarrow> key x < key y)"

subsection \<open>Evaluation\<close>

lemmas [js_eval] = obj_get_def obj_put_def object_prototype_keys_def is_array_index_def
  obj_entries_def obj_keys_def obj_values_def js_sort_def js_slice_last_def

subsection \<open>Lemmas on objects\<close>

lemma obj_get_put [simp]: "obj_get (obj_put k v m) k = Own v"
  by (simp add: obj_get_def obj_put_def update_conv')

lemma obj_get_put_other [simp]: "k' \<noteq> k \<Longrightarrow> obj_get (obj_put k v m) k' = obj_get m k'"
  by (simp add: obj_get_def obj_put_def update_conv')

lemma obj_get_Own: "obj_get m k = Own v \<longleftrightarrow> map_of m k = Some v"
  by (simp add: obj_get_def split: option.split)

lemma obj_get_Absent: "obj_get m k = Absent \<longleftrightarrow> map_of m k = None \<and> k \<notin> set object_prototype_keys"
  by (simp add: obj_get_def split: option.split)

lemma mset_obj_entries [simp]: "mset (obj_entries m) = mset m"
  by (simp add: obj_entries_def)

lemma set_obj_entries [simp]: "set (obj_entries m) = set m"
  by (metis mset_obj_entries set_mset_mset)

lemma length_obj_values [simp]: "length (obj_values m) = length m"
  by (metis length_map mset_obj_entries obj_values_def size_mset)

lemma obj_entries_no_index:
  "\<forall>k \<in> fst ` set m. \<not> is_array_index k \<Longrightarrow> obj_entries m = m"
proof -
  assume "\<forall>k \<in> fst ` set m. \<not> is_array_index k"
  then have "filter (\<lambda>(k, v). is_array_index k) m = []"
    and "filter (\<lambda>(k, v). \<not> is_array_index k) m = m"
    by (auto simp: filter_empty_conv filter_id_conv)
  then show ?thesis by (simp add: obj_entries_def)
qed

subsection \<open>The sort is the stable sort by a key\<close>

lemma mset_sort_insert [simp]: "mset (sort_insert cmp x ys) = add_mset x (mset ys)"
  by (induction ys) auto

lemma set_sort_insert [simp]: "set (sort_insert cmp x ys) = insert x (set ys)"
  by (metis mset_sort_insert set_mset_add_mset_insert set_mset_mset)

lemma mset_js_sort_acc: "mset (foldl (\<lambda>acc x. sort_insert cmp x acc) acc xs) = mset acc + mset xs"
  by (induction xs arbitrary: acc) auto

lemma mset_js_sort [simp]: "mset (js_sort cmp xs) = mset xs"
  by (simp add: js_sort_def mset_js_sort_acc)

lemma set_js_sort [simp]: "set (js_sort cmp xs) = set xs"
  by (metis mset_js_sort set_mset_mset)

lemma length_js_sort [simp]: "length (js_sort cmp xs) = length xs"
  by (metis mset_js_sort size_mset)

lemma js_find_index_found:
  "\<exists>x \<in> set xs. P x \<Longrightarrow>
     0 \<le> js_find_index P xs \<and> nat (js_find_index P xs) < length xs \<and> P (xs ! nat (js_find_index P xs))"
proof (induction xs)
  case (Cons x xs)
  show ?case
  proof (cases "P x")
    case False
    with Cons have "\<exists>x \<in> set xs. P x" by simp
    with Cons.IH False show ?thesis by (simp add: Let_def nat_add_distrib)
  qed simp
qed simp

lemma sort_insert_key:
  assumes "cmp_by_key cmp key A" "x \<in> A" "set ys \<subseteq> A" "sorted (map key ys)"
  shows "sorted (map key (sort_insert cmp x ys))
    \<and> (\<forall>k. filter (\<lambda>y. key y = k) (sort_insert cmp x ys)
             = filter (\<lambda>y. key y = k) ys @ filter (\<lambda>y. key y = k) [x])"
  using assms(3,4)
proof (induction ys)
  case Nil
  then show ?case by simp
next
  case (Cons y ys)
  from Cons.prems have y: "y \<in> A" and ys: "set ys \<subseteq> A" and sorted_ys: "sorted (map key ys)"
    and below: "\<forall>z \<in> set ys. key y \<le> key z" by auto
  show ?case
  proof (cases "key x < key y")
    case True
    with assms(1,2) y have "js_less (Num 0) (cmp y x)" by (simp add: cmp_by_key_def)
    then have ins: "sort_insert cmp x (y # ys) = x # y # ys" by simp
    have above: "\<forall>z \<in> set (y # ys). key x < key z"
      using True below by (auto intro: less_le_trans)
    then have none: "filter (\<lambda>z. key z = key x) (y # ys) = []"
      by (auto simp: filter_empty_conv)
    have "sorted (map key (x # y # ys))"
      using above Cons.prems(2) by (auto simp: less_imp_le)
    moreover have "filter (\<lambda>z. key z = k) (x # y # ys)
        = filter (\<lambda>z. key z = k) (y # ys) @ filter (\<lambda>z. key z = k) [x]" for k
      using none by (cases "k = key x") simp_all
    ultimately show ?thesis unfolding ins by blast
  next
    case False
    with assms(1,2) y have "\<not> js_less (Num 0) (cmp y x)" by (simp add: cmp_by_key_def)
    then have ins: "sort_insert cmp x (y # ys) = y # sort_insert cmp x ys" by simp
    from Cons.IH ys sorted_ys
    have IH: "sorted (map key (sort_insert cmp x ys))"
      "\<forall>k. filter (\<lambda>y. key y = k) (sort_insert cmp x ys)
             = filter (\<lambda>y. key y = k) ys @ filter (\<lambda>y. key y = k) [x]" by simp_all
    have "\<forall>z \<in> set (sort_insert cmp x ys). key y \<le> key z"
      using False below by auto
    then have "sorted (map key (y # sort_insert cmp x ys))"
      using IH(1) by simp
    moreover have "filter (\<lambda>z. key z = k) (y # sort_insert cmp x ys)
        = filter (\<lambda>z. key z = k) (y # ys) @ filter (\<lambda>z. key z = k) [x]" for k
      using IH(2) by simp
    ultimately show ?thesis unfolding ins by blast
  qed
qed

lemma js_sort_key_acc:
  assumes "cmp_by_key cmp key A" "set xs \<subseteq> A" "set acc \<subseteq> A" "sorted (map key acc)"
  shows "sorted (map key (foldl (\<lambda>acc x. sort_insert cmp x acc) acc xs))
    \<and> (\<forall>k. filter (\<lambda>y. key y = k) (foldl (\<lambda>acc x. sort_insert cmp x acc) acc xs)
             = filter (\<lambda>y. key y = k) acc @ filter (\<lambda>y. key y = k) xs)"
  using assms(2-4)
proof (induction xs arbitrary: acc)
  case Nil
  then show ?case by simp
next
  case (Cons x xs)
  from Cons.prems have x: "x \<in> A" by simp
  note step = sort_insert_key [OF assms(1) x Cons.prems(2,3)]
  have "set (sort_insert cmp x acc) \<subseteq> A" using Cons.prems by auto
  with step Cons.IH [of "sort_insert cmp x acc"] Cons.prems show ?case by auto
qed

theorem js_sort_eq_sort_key:
  assumes "cmp_by_key cmp key (set xs)"
  shows "js_sort cmp xs = sort_key key xs"
proof -
  have props: "sorted (map key (js_sort cmp xs))"
    "\<forall>k. filter (\<lambda>y. key y = k) (js_sort cmp xs) = filter (\<lambda>y. key y = k) xs"
    using js_sort_key_acc [OF assms order_refl, of "[]"] by (simp_all add: js_sort_def)
  show ?thesis
  proof (rule properties_for_sort_key [symmetric])
    show "mset (js_sort cmp xs) = mset xs" by simp
    fix k
    have flip: "filter (\<lambda>x. key k = key x) zs = filter (\<lambda>y. key y = key k) zs" for zs
      by (rule filter_cong) auto
    show "filter (\<lambda>x. key k = key x) (js_sort cmp xs) = filter (\<lambda>x. key k = key x) xs"
      unfolding flip using props(2) by blast
  next
    show "sorted (map key (js_sort cmp xs))" by (rule props(1))
  qed
qed

lemma js_slice_last_length: "length (js_slice_last n xs) = min n (length xs)"
  by (simp add: js_slice_last_def)

lemma js_slice_last_suffix: "\<exists>p. xs = p @ js_slice_last n xs"
  by (metis append_take_drop_id js_slice_last_def)


subsection \<open>Entries in own-key order\<close>

lemma mset_map_obj_entries: "mset (map f (obj_entries m)) = mset (map f m)"
  by (simp add: mset_map)

lemma distinct_map_obj_entries [simp]: "distinct (map f (obj_entries m)) = distinct (map f m)"
  by (rule mset_eq_imp_distinct_iff [OF mset_map_obj_entries])

lemma obj_entries_idem [simp]: "obj_entries (obj_entries m) = obj_entries m"
  by (simp add: obj_entries_def filter_sort sort_key_id_if_sorted comp_def split_def)

lemma obj_entries_keyed:
  "obj_entries (map (\<lambda>(k, v). (k, f k v)) m) = map (\<lambda>(k, v). (k, f k v)) (obj_entries m)"
  unfolding obj_entries_def
  by (simp add: filter_map comp_def split_def map_sort_key [symmetric])

lemma obj_values_no_index:
  "\<forall>k \<in> fst ` set m. \<not> is_array_index k \<Longrightarrow> obj_values m = map snd m"
  by (simp add: obj_values_def obj_entries_no_index)


subsection \<open>Mapping the values of an object\<close>

lemma map_of_obj_map: "map_of (obj_map f m) k = map_option f (map_of m k)"
  by (induction m) (auto simp: obj_map_def)

lemma obj_get_obj_map: "obj_get (obj_map f m) k = map_jsprop f (obj_get m k)"
  by (simp add: obj_get_def map_of_obj_map split: option.split)

lemma obj_put_obj_map: "obj_put k (f v) (obj_map f m) = obj_map f (obj_put k v m)"
  by (induction m) (auto simp: obj_map_def obj_put_def)

lemma obj_values_obj_map: "obj_values (obj_map f m) = map f (obj_values m)"
proof -
  have "obj_entries (obj_map f m) = obj_map f (obj_entries m)"
    unfolding obj_entries_def obj_map_def
    by (simp add: filter_map comp_def split_def map_sort_key [symmetric])
  then show ?thesis by (simp add: obj_values_def obj_map_def comp_def case_prod_beta)
qed

lemma sort_insert_map:
  "(\<And>a b. cmp' (f a) (f b) = cmp a b) \<Longrightarrow> sort_insert cmp' (f x) (map f ys) = map f (sort_insert cmp x ys)"
  by (induction ys) auto

lemma js_sort_map:
  assumes "\<And>a b. cmp' (f a) (f b) = cmp a b"
  shows "js_sort cmp' (map f xs) = map f (js_sort cmp xs)"
proof -
  have "foldl (\<lambda>acc x. sort_insert cmp' x acc) (map f acc) (map f xs)
      = map f (foldl (\<lambda>acc x. sort_insert cmp x acc) acc xs)" for acc
    by (induction xs arbitrary: acc) (simp_all add: sort_insert_map [of cmp' f cmp, OF assms])
  from this [of "[]"] show ?thesis by (simp add: js_sort_def)
qed

end
