(* ===== verification/Analytics_Pass.thy ===== *)
theory Analytics_Pass
  imports CSV_Parser JS_Object
begin
text \<open>
  The single pass of \<open>processAnalytics\<close> (\<open>src/src/utils/analytics.js\<close>, lines 17 to 99):
  three dictionaries keyed by group, store and date, and the list of match margins, updated
  match by match in input order. Each dictionary entry is the object literal the code
  creates (\<open>new_group\<close>, \<open>new_store\<close>, \<open>new_daily\<close>) and then mutates
  (\<open>update_group\<close>, \<open>update_store\<close>, \<open>update_daily\<close>).

  A key that names an \<open>Object.prototype\<close> property (\<open>constructor\<close>, \<open>toString\<close>, ...)
  reads as the inherited value, which is truthy, so no entry is created; the code then
  updates the inherited object. For a group this throws a TypeError at
  \<open>.stores.add\<close> (line 50), for a store at \<open>.recentForm.push\<close> (line 81); for a date it
  only writes properties of the inherited object, which no output reads, so the model
  leaves the dictionary unchanged.
\<close>

datatype js_error = TypeError

datatype form = W | L

text \<open>A JavaScript \<open>Set\<close> of strings: insertion order, no duplicates.\<close>

definition set_add :: "string \<Rightarrow> string list \<Rightarrow> string list" where
  "set_add x xs = (if x \<in> set xs then xs else xs @ [x])"

record group_acc =
  group :: string
  groupNumber :: int
  totalSales :: jsnum
  matches :: nat
  avgSalesPerMatch :: jsnum
  highestMatch :: jsnum
  lowestMatch :: jsnum
  stores :: "string list"
  totalMargin :: jsnum
  closestMatch :: jsnum

record store_acc =
  store :: string
  group :: string
  groupNumber :: int
  totalSales :: jsnum
  matches :: nat
  wins :: nat
  losses :: nat
  avgSales :: jsnum
  points :: nat
  bestPerformance :: jsnum
  worstPerformance :: jsnum
  recentForm :: "form list"

record daily =
  date :: string
  totalSales :: jsnum
  matches :: nat

record match_margin =
  group :: string
  margin :: jsnum
  matchSales :: jsnum

record acc_state =
  acc_groups :: "group_acc jsobj"
  acc_stores :: "store_acc jsobj"
  acc_daily :: "daily jsobj"
  acc_margins :: "match_margin list"

definition init_state :: acc_state where
  "init_state = \<lparr>acc_groups = [], acc_stores = [], acc_daily = [], acc_margins = []\<rparr>"

text \<open>\<open>parseInt(group.replace('Group ', '')) || 0\<close> (lines 33 and 64).\<close>

definition group_number :: "string \<Rightarrow> int" where
  "group_number g = (case parse_int (js_replace_first ''Group '' [] g) of None \<Rightarrow> 0 | Some n \<Rightarrow> n)"

definition match_total :: "match_record \<Rightarrow> jsnum" where
  "match_total m = js_add (Team1Sales m) (Team2Sales m)"

definition match_diff :: "match_record \<Rightarrow> jsnum" where
  "match_diff m = js_abs (js_sub (Team1Sales m) (Team2Sales m))"

subsection \<open>Group statistics (lines 29 to 53)\<close>

definition new_group :: "string \<Rightarrow> group_acc" where
  "new_group g =
     \<lparr>group_acc.group = g, group_acc.groupNumber = group_number g, group_acc.totalSales = Num 0,
      group_acc.matches = 0, avgSalesPerMatch = Num 0, highestMatch = Num 0, lowestMatch = PosInf,
      stores = [], totalMargin = Num 0, closestMatch = PosInf\<rparr>"

definition update_group :: "match_record \<Rightarrow> group_acc \<Rightarrow> group_acc" where
  "update_group m ga =
     ga\<lparr>group_acc.totalSales := js_add (group_acc.totalSales ga) (match_total m),
        group_acc.matches := group_acc.matches ga + 1,
        highestMatch := js_max (highestMatch ga) (match_total m),
        lowestMatch := js_min (lowestMatch ga) (match_total m),
        stores := set_add (Team2 m) (set_add (Team1 m) (stores ga)),
        totalMargin := js_add (totalMargin ga) (match_diff m),
        closestMatch := js_min (closestMatch ga) (match_diff m)\<rparr>"

definition group_step :: "match_record \<Rightarrow> group_acc jsobj \<Rightarrow> js_error + group_acc jsobj" where
  "group_step m gs =
     (case obj_get gs (Group m) of
        Absent \<Rightarrow> Inr (obj_put (Group m) (update_group m (new_group (Group m))) gs)
      | Own ga \<Rightarrow> Inr (obj_put (Group m) (update_group m ga) gs)
      | Inherited \<Rightarrow> Inl TypeError)"

subsection \<open>Store performance (lines 56 to 89)\<close>

definition new_store :: "string \<Rightarrow> string \<Rightarrow> store_acc" where
  "new_store s g =
     \<lparr>store = s, store_acc.group = g, store_acc.groupNumber = group_number g,
      store_acc.totalSales = Num 0, store_acc.matches = 0, wins = 0, losses = 0, avgSales = Num 0,
      points = 0, bestPerformance = Num 0, worstPerformance = PosInf, recentForm = []\<rparr>"

definition update_store :: "jsnum \<Rightarrow> bool \<Rightarrow> store_acc \<Rightarrow> store_acc" where
  "update_store sales isWinner sa =
     sa\<lparr>store_acc.totalSales := js_add (store_acc.totalSales sa) sales,
        store_acc.matches := store_acc.matches sa + 1,
        bestPerformance := js_max (bestPerformance sa) sales,
        worstPerformance := js_min (worstPerformance sa) sales,
        recentForm := recentForm sa @ [if isWinner then W else L],
        wins := (if isWinner then wins sa + 1 else wins sa),
        points := (if isWinner then points sa + 3 else points sa),
        losses := (if isWinner then losses sa else losses sa + 1)\<rparr>"

definition store_step ::
  "string \<Rightarrow> string \<Rightarrow> jsnum \<Rightarrow> string \<Rightarrow> store_acc jsobj \<Rightarrow> js_error + store_acc jsobj" where
  "store_step s g sales winner sp =
     (case obj_get sp s of
        Absent \<Rightarrow> Inr (obj_put s (update_store sales (s = winner) (new_store s g)) sp)
      | Own sa \<Rightarrow> Inr (obj_put s (update_store sales (s = winner) sa) sp)
      | Inherited \<Rightarrow> Inl TypeError)"

subsection \<open>Daily performance (lines 92 to 96)\<close>

definition new_daily :: "string \<Rightarrow> daily" where
  "new_daily d = \<lparr>date = d, daily.totalSales = Num 0, daily.matches = 0\<rparr>"

definition update_daily :: "jsnum \<Rightarrow> daily \<Rightarrow> daily" where
  "update_daily sales dr =
     dr\<lparr>daily.totalSales := js_add (daily.totalSales dr) sales, daily.matches := daily.matches dr + 1\<rparr>"

definition daily_step :: "string \<Rightarrow> jsnum \<Rightarrow> daily jsobj \<Rightarrow> daily jsobj" where
  "daily_step d sales dp =
     (case obj_get dp d of
        Absent \<Rightarrow> obj_put d (update_daily sales (new_daily d)) dp
      | Own dr \<Rightarrow> obj_put d (update_daily sales dr) dp
      | Inherited \<Rightarrow> dp)"

subsection \<open>One match and the loop (lines 23 to 99)\<close>

definition process_match :: "acc_state \<Rightarrow> match_record \<Rightarrow> js_error + acc_state" where
  "process_match st m =
     (case group_step m (acc_groups st) of
        Inl e \<Rightarrow> Inl e
      | Inr gs \<Rightarrow>
          (case store_step (Team1 m) (Group m) (Team1Sales m) (Winner m) (acc_stores st) of
             Inl e \<Rightarrow> Inl e
           | Inr sp1 \<Rightarrow>
               (case store_step (Team2 m) (Group m) (Team2Sales m) (Winner m) sp1 of
                  Inl e \<Rightarrow> Inl e
                | Inr sp2 \<Rightarrow>
                    Inr \<lparr>acc_groups = gs, acc_stores = sp2,
                         acc_daily = daily_step (Date m) (match_total m) (acc_daily st),
                         acc_margins = acc_margins st
                           @ [\<lparr>match_margin.group = Group m, margin = match_diff m,
                                matchSales = match_total m\<rparr>]\<rparr>)))"

fun process_all :: "acc_state \<Rightarrow> match_record list \<Rightarrow> js_error + acc_state" where
  "process_all st [] = Inr st"
| "process_all st (m # ms) = (case process_match st m of Inl e \<Rightarrow> Inl e | Inr st' \<Rightarrow> process_all st' ms)"

subsection \<open>When the pass throws\<close>

definition is_proto_key :: "string \<Rightarrow> bool" where
  "is_proto_key k \<longleftrightarrow> k \<in> set object_prototype_keys"

definition match_has_proto_key :: "match_record \<Rightarrow> bool" where
  "match_has_proto_key m \<longleftrightarrow> is_proto_key (Group m) \<or> is_proto_key (Team1 m) \<or> is_proto_key (Team2 m)"

definition no_proto_keys :: "'v jsobj \<Rightarrow> bool" where
  "no_proto_keys m \<longleftrightarrow> (\<forall>k \<in> fst ` set m. \<not> is_proto_key k)"

definition pass_ok :: "acc_state \<Rightarrow> bool" where
  "pass_ok st \<longleftrightarrow> no_proto_keys (acc_groups st) \<and> no_proto_keys (acc_stores st)"

subsection \<open>The pass computes a fold per key\<close>

text \<open>
  The abstract view of each dictionary after a list of matches: a store's entry is the
  fresh entry of its first match's group, updated by the store's own events in order
  (\<open>store_view\<close>); a group's entry is the fresh entry updated by the group's matches;
  a date's entry likewise, except for dates named like a prototype property, which never get
  an entry. \<open>process_all_refines_views\<close> proves that the pass builds exactly these views,
  so each entry depends only on the matches that concern it.
\<close>

definition plays :: "string \<Rightarrow> match_record \<Rightarrow> bool" where
  "plays s m \<longleftrightarrow> Team1 m = s \<or> Team2 m = s"

definition match_events :: "string \<Rightarrow> match_record \<Rightarrow> (jsnum \<times> bool) list" where
  "match_events s m =
     (if Team1 m = s then [(Team1Sales m, s = Winner m)] else [])
     @ (if Team2 m = s then [(Team2Sales m, s = Winner m)] else [])"

definition store_events :: "string \<Rightarrow> match_record list \<Rightarrow> (jsnum \<times> bool) list" where
  "store_events s ms = concat (map (match_events s) ms)"

definition first_group :: "string \<Rightarrow> match_record list \<Rightarrow> string" where
  "first_group s ms = Group (hd (filter (plays s) ms))"

definition store_fold :: "store_acc \<Rightarrow> (jsnum \<times> bool) list \<Rightarrow> store_acc" where
  "store_fold sa evs = foldl (\<lambda>sa (x, w). update_store x w sa) sa evs"

definition store_view :: "match_record list \<Rightarrow> string \<Rightarrow> store_acc option" where
  "store_view ms s =
     (if \<exists>m \<in> set ms. plays s m
      then Some (store_fold (new_store s (first_group s ms)) (store_events s ms)) else None)"

definition group_view :: "match_record list \<Rightarrow> string \<Rightarrow> group_acc option" where
  "group_view ms g =
     (if \<exists>m \<in> set ms. Group m = g
      then Some (foldl (\<lambda>ga m. update_group m ga) (new_group g) (filter (\<lambda>m. Group m = g) ms))
      else None)"

definition daily_view :: "match_record list \<Rightarrow> string \<Rightarrow> daily option" where
  "daily_view ms d =
     (if \<not> is_proto_key d \<and> (\<exists>m \<in> set ms. Date m = d)
      then Some (foldl (\<lambda>dr m. update_daily (match_total m) dr) (new_daily d) (filter (\<lambda>m. Date m = d) ms))
      else None)"

definition margin_of :: "match_record \<Rightarrow> match_margin" where
  "margin_of m = \<lparr>match_margin.group = Group m, margin = match_diff m, matchSales = match_total m\<rparr>"

text \<open>One update of a dictionary entry: the existing entry, or a fresh one.\<close>

definition upd_entry :: "('k \<rightharpoonup> 'v) \<Rightarrow> 'k \<Rightarrow> 'v \<Rightarrow> ('v \<Rightarrow> 'v) \<Rightarrow> ('k \<rightharpoonup> 'v)" where
  "upd_entry f k fresh u = f(k \<mapsto> u (case f k of None \<Rightarrow> fresh | Some v \<Rightarrow> v))"

definition views_agree :: "match_record list \<Rightarrow> acc_state \<Rightarrow> bool" where
  "views_agree pre st \<longleftrightarrow>
     map_of (acc_groups st) = group_view pre \<and> map_of (acc_stores st) = store_view pre
     \<and> map_of (acc_daily st) = daily_view pre \<and> acc_margins st = map margin_of pre"

subsection \<open>Keys stay distinct\<close>

definition keys_distinct :: "acc_state \<Rightarrow> bool" where
  "keys_distinct st \<longleftrightarrow> distinct (map fst (acc_groups st)) \<and> distinct (map fst (acc_stores st))
     \<and> distinct (map fst (acc_daily st))"

subsection \<open>Key order\<close>

text \<open>
  Object keys that are not array indices keep insertion order, so each dictionary lists its
  keys in the order of first appearance in the input (\<open>first_seen\<close>, the order a
  JavaScript \<open>Set\<close> would keep).
\<close>

definition first_seen :: "string list \<Rightarrow> string list" where
  "first_seen xs = foldl (\<lambda>acc x. set_add x acc) [] xs"

definition teams :: "match_record list \<Rightarrow> string list" where
  "teams ms = concat (map (\<lambda>m. [Team1 m, Team2 m]) ms)"

definition keys_order :: "match_record list \<Rightarrow> acc_state \<Rightarrow> bool" where
  "keys_order pre st \<longleftrightarrow>
     map fst (acc_groups st) = first_seen (map Group pre)
     \<and> map fst (acc_stores st) = first_seen (teams pre)
     \<and> map fst (acc_daily st) = first_seen (filter (\<lambda>d. \<not> is_proto_key d) (map Date pre))"

subsection \<open>When the pass throws\<close>

lemma obj_get_cases:
  assumes "no_proto_keys m"
  shows "obj_get m k = (case map_of m k of Some v \<Rightarrow> Own v | None \<Rightarrow> if is_proto_key k then Inherited else Absent)"
  by (simp add: obj_get_def is_proto_key_def)

lemma obj_get_proto_key:
  assumes "no_proto_keys m"
  shows "obj_get m k = Inherited \<longleftrightarrow> is_proto_key k"
proof (cases "map_of m k")
  case None
  then show ?thesis by (simp add: obj_get_def is_proto_key_def)
next
  case (Some v)
  then have "k \<in> fst ` set m" by (force dest: map_of_SomeD)
  with assms have "\<not> is_proto_key k" unfolding no_proto_keys_def by blast
  with Some show ?thesis by (simp add: obj_get_def)
qed

lemma no_proto_keys_put [intro]:
  "no_proto_keys m \<Longrightarrow> \<not> is_proto_key k \<Longrightarrow> no_proto_keys (obj_put k v m)"
  unfolding no_proto_keys_def obj_put_def dom_update by auto

lemma group_step_result:
  assumes "no_proto_keys gs"
  shows "(\<exists>e. group_step m gs = Inl e) \<longleftrightarrow> is_proto_key (Group m)"
    and "group_step m gs = Inr gs' \<Longrightarrow> no_proto_keys gs'"
  using obj_get_proto_key [OF assms, of "Group m"] assms
  by (auto simp: group_step_def split: jsprop.splits)

lemma store_step_result:
  assumes "no_proto_keys sp"
  shows "(\<exists>e. store_step s g x w sp = Inl e) \<longleftrightarrow> is_proto_key s"
    and "store_step s g x w sp = Inr sp' \<Longrightarrow> no_proto_keys sp'"
  using obj_get_proto_key [OF assms, of s] assms
  by (auto simp: store_step_def split: jsprop.splits)

lemma process_match_result:
  assumes "pass_ok st"
  shows "(\<exists>e. process_match st m = Inl e) \<longleftrightarrow> match_has_proto_key m"
    and "process_match st m = Inr st' \<Longrightarrow> pass_ok st'"
proof -
  from assms have g: "no_proto_keys (acc_groups st)" and s: "no_proto_keys (acc_stores st)"
    by (simp_all add: pass_ok_def)
  note G = group_step_result [OF g, of m] and S1 = store_step_result [OF s, of "Team1 m" "Group m" "Team1Sales m" "Winner m"]
  show "(\<exists>e. process_match st m = Inl e) \<longleftrightarrow> match_has_proto_key m"
  proof (cases "group_step m (acc_groups st)")
    case (Inr gs)
    show ?thesis
    proof (cases "store_step (Team1 m) (Group m) (Team1Sales m) (Winner m) (acc_stores st)")
      case (Inr sp1)
      with S1 have "no_proto_keys sp1" by simp
      note S2 = store_step_result [OF this, of "Team2 m" "Group m" "Team2Sales m" "Winner m"]
      from G S1 S2 \<open>group_step m (acc_groups st) = Inr gs\<close> Inr show ?thesis
        by (auto simp: process_match_def match_has_proto_key_def split: sum.splits)
    qed (use G S1 Inr in \<open>auto simp: process_match_def match_has_proto_key_def\<close>)
  qed (use G in \<open>auto simp: process_match_def match_has_proto_key_def\<close>)
  assume "process_match st m = Inr st'"
  with G S1 show "pass_ok st'"
    by (auto simp: process_match_def pass_ok_def split: sum.splits dest: store_step_result(2))
qed

lemma process_all_result:
  "pass_ok st \<Longrightarrow> (\<exists>e. process_all st ms = Inl e) \<longleftrightarrow> (\<exists>m \<in> set ms. match_has_proto_key m)"
proof (induction ms arbitrary: st)
  case Nil
  then show ?case by simp
next
  case (Cons m ms)
  show ?case
  proof (cases "process_match st m")
    case (Inl e)
    with process_match_result(1) [OF Cons.prems, of m] show ?thesis by auto
  next
    case (Inr st')
    with process_match_result [OF Cons.prems, of m] Cons.IH [of st'] show ?thesis by auto
  qed
qed

lemma pass_ok_init [simp]: "pass_ok init_state"
  by (simp add: pass_ok_def init_state_def no_proto_keys_def)

lemmas pass_defs [model_defs] = init_state_def group_number_def match_total_def match_diff_def
  new_group_def update_group_def group_step_def new_store_def update_store_def store_step_def
  new_daily_def update_daily_def daily_step_def process_match_def set_add_def

subsection \<open>The pass computes a fold per key\<close>

lemma map_of_obj_put [simp]: "map_of (obj_put k v m) = (map_of m)(k \<mapsto> v)"
  by (simp add: obj_put_def update_conv' fun_eq_iff)

lemma group_step_map:
  "group_step m gs = Inr gs' \<Longrightarrow>
     map_of gs' = upd_entry (map_of gs) (Group m) (new_group (Group m)) (update_group m)"
  by (auto simp: group_step_def upd_entry_def obj_get_def split: jsprop.splits option.splits if_splits)

lemma store_step_map:
  "store_step s g x w sp = Inr sp' \<Longrightarrow>
     map_of sp' = upd_entry (map_of sp) s (new_store s g) (update_store x (s = w))"
  by (auto simp: store_step_def upd_entry_def obj_get_def split: jsprop.splits option.splits if_splits)

lemma daily_step_map:
  "map_of (daily_step d x dp) =
     (if map_of dp d = None \<and> is_proto_key d then map_of dp
      else upd_entry (map_of dp) d (new_daily d) (update_daily x))"
  by (auto simp: daily_step_def upd_entry_def obj_get_def is_proto_key_def split: option.splits)

lemma group_view_snoc:
  "group_view (pre @ [m]) = upd_entry (group_view pre) (Group m) (new_group (Group m)) (update_group m)"
  by (rule ext) (auto simp: group_view_def upd_entry_def)

lemma daily_view_snoc:
  "daily_view (pre @ [m]) =
     (if is_proto_key (Date m) then daily_view pre
      else upd_entry (daily_view pre) (Date m) (new_daily (Date m)) (update_daily (match_total m)))"
  by (rule ext) (auto simp: daily_view_def upd_entry_def)

lemma store_fold_append [simp]: "store_fold sa (xs @ ys) = store_fold (store_fold sa xs) ys"
  by (simp add: store_fold_def)

lemma store_fold_Cons [simp]: "store_fold sa (e # evs) = store_fold (update_store (fst e) (snd e) sa) evs"
  by (cases e) (simp add: store_fold_def)

lemma store_fold_Nil [simp]: "store_fold sa [] = sa"
  by (simp add: store_fold_def)

lemma store_events_snoc [simp]: "store_events s (pre @ [m]) = store_events s pre @ match_events s m"
  by (simp add: store_events_def)

lemma store_events_none: "\<not> (\<exists>m \<in> set ms. plays s m) \<Longrightarrow> store_events s ms = []"
  by (auto simp: store_events_def match_events_def plays_def)

lemma first_group_snoc_old:
  "\<exists>m' \<in> set pre. plays s m' \<Longrightarrow> first_group s (pre @ [m]) = first_group s pre"
  by (auto simp: first_group_def filter_empty_conv)

lemma first_group_snoc_new:
  "\<not> (\<exists>m' \<in> set pre. plays s m') \<Longrightarrow> plays s m \<Longrightarrow> first_group s (pre @ [m]) = Group m"
  by (auto simp: first_group_def filter_empty_conv)

lemma store_view_snoc_other:
  "\<not> plays s m \<Longrightarrow> store_view (pre @ [m]) s = store_view pre s"
  by (auto simp: store_view_def first_group_snoc_old match_events_def plays_def)

lemma store_view_snoc_plays:
  assumes "plays s m"
  shows "store_view (pre @ [m]) s =
    Some (store_fold (case store_view pre s of None \<Rightarrow> new_store s (Group m) | Some sa \<Rightarrow> sa) (match_events s m))"
proof (cases "\<exists>m' \<in> set pre. plays s m'")
  case True
  then show ?thesis using assms by (simp add: store_view_def first_group_snoc_old)
next
  case False
  then show ?thesis using assms by (simp add: store_view_def first_group_snoc_new store_events_none)
qed

lemma store_view_snoc:
  "store_view (pre @ [m]) =
     (let v1 = upd_entry (store_view pre) (Team1 m) (new_store (Team1 m) (Group m))
                 (update_store (Team1Sales m) (Team1 m = Winner m))
      in upd_entry v1 (Team2 m) (new_store (Team2 m) (Group m)) (update_store (Team2Sales m) (Team2 m = Winner m)))"
proof (rule ext)
  fix s
  show "store_view (pre @ [m]) s = (let v1 = upd_entry (store_view pre) (Team1 m) (new_store (Team1 m) (Group m))
                 (update_store (Team1Sales m) (Team1 m = Winner m))
      in upd_entry v1 (Team2 m) (new_store (Team2 m) (Group m)) (update_store (Team2Sales m) (Team2 m = Winner m))) s"
  proof (cases "plays s m")
    case True
    then show ?thesis
      by (auto simp: store_view_snoc_plays upd_entry_def match_events_def plays_def split: option.split)
  next
    case False
    then show ?thesis by (auto simp: store_view_snoc_other upd_entry_def plays_def)
  qed
qed

lemma views_agree_init [simp]: "views_agree [] init_state"
  by (simp add: views_agree_def init_state_def group_view_def store_view_def daily_view_def fun_eq_iff)

lemma daily_view_proto: "is_proto_key d \<Longrightarrow> daily_view pre d = None"
  by (simp add: daily_view_def)

lemma process_match_views:
  assumes "process_match st m = Inr st'" and "views_agree pre st"
  shows "views_agree (pre @ [m]) st'"
proof -
  from assms(1) obtain gs sp1 sp2 where
    g: "group_step m (acc_groups st) = Inr gs" and
    s1: "store_step (Team1 m) (Group m) (Team1Sales m) (Winner m) (acc_stores st) = Inr sp1" and
    s2: "store_step (Team2 m) (Group m) (Team2Sales m) (Winner m) sp1 = Inr sp2" and
    st': "st' = \<lparr>acc_groups = gs, acc_stores = sp2,
                 acc_daily = daily_step (Date m) (match_total m) (acc_daily st),
                 acc_margins = acc_margins st @ [margin_of m]\<rparr>"
    by (auto simp: process_match_def margin_of_def split: sum.splits)
  have "map_of gs = group_view (pre @ [m])"
    using group_step_map [OF g] assms(2) by (simp add: views_agree_def group_view_snoc)
  moreover have "map_of sp2 = store_view (pre @ [m])"
    using store_step_map [OF s2] store_step_map [OF s1] assms(2)
    by (simp add: views_agree_def store_view_snoc Let_def)
  moreover have "map_of (daily_step (Date m) (match_total m) (acc_daily st)) = daily_view (pre @ [m])"
    using assms(2) by (auto simp: views_agree_def daily_step_map daily_view_snoc daily_view_proto)
  ultimately show ?thesis using assms(2) by (simp add: views_agree_def st')
qed

lemma process_all_views:
  "process_all st ms = Inr st' \<Longrightarrow> views_agree pre st \<Longrightarrow> views_agree (pre @ ms) st'"
proof (induction ms arbitrary: st pre)
  case Nil
  then show ?case by simp
next
  case (Cons m ms)
  then obtain st1 where m: "process_match st m = Inr st1" and rest: "process_all st1 ms = Inr st'"
    by (auto split: sum.splits)
  from process_match_views [OF m Cons.prems(2)] have "views_agree (pre @ [m]) st1" .
  from Cons.IH [OF rest this] show ?case by simp
qed

theorem process_all_refines_views:
  "process_all init_state ms = Inr st \<Longrightarrow> views_agree ms st"
  using process_all_views [of init_state ms st "[]"] by simp

subsection \<open>What a store's fold records\<close>

lemma store_fold_fields [simp]:
  "store (store_fold sa evs) = store sa"
  "store_acc.group (store_fold sa evs) = store_acc.group sa"
  "store_acc.matches (store_fold sa evs) = store_acc.matches sa + length evs"
  "wins (store_fold sa evs) = wins sa + length (filter snd evs)"
  "losses (store_fold sa evs) = losses sa + length (filter (\<lambda>e. \<not> snd e) evs)"
  "points (store_fold sa evs) = points sa + 3 * length (filter snd evs)"
  "recentForm (store_fold sa evs) = recentForm sa @ map (\<lambda>e. if snd e then W else L) evs"
  by (induction evs arbitrary: sa) (auto simp: update_store_def)

lemma new_store_fields [simp]:
  "store (new_store s g) = s" "store_acc.group (new_store s g) = g"
  "store_acc.matches (new_store s g) = 0" "wins (new_store s g) = 0" "losses (new_store s g) = 0"
  "points (new_store s g) = 0" "recentForm (new_store s g) = []"
  by (simp_all add: new_store_def)

subsection \<open>Keys stay distinct\<close>

lemma distinct_obj_put [simp]: "distinct (map fst m) \<Longrightarrow> distinct (map fst (obj_put k v m))"
  by (simp add: obj_put_def distinct_update)

lemma process_match_distinct:
  "process_match st m = Inr st' \<Longrightarrow> keys_distinct st \<Longrightarrow> keys_distinct st'"
  by (auto simp: process_match_def keys_distinct_def group_step_def store_step_def daily_step_def
      split: sum.splits jsprop.splits)

lemma process_all_distinct:
  "process_all st ms = Inr st' \<Longrightarrow> keys_distinct st \<Longrightarrow> keys_distinct st'"
  by (induction ms arbitrary: st) (auto split: sum.splits dest: process_match_distinct)

lemma keys_distinct_init [simp]: "keys_distinct init_state"
  by (simp add: keys_distinct_def init_state_def)


subsection \<open>Key order\<close>

lemma first_seen_Nil [simp]: "first_seen [] = []"
  by (simp add: first_seen_def)

lemma first_seen_snoc [simp]: "first_seen (xs @ [x]) = set_add x (first_seen xs)"
  by (simp add: first_seen_def)

lemma first_seen_set_distinct [simp]: "set (first_seen xs) = set xs" "distinct (first_seen xs)"
  by (induction xs rule: rev_induct) (auto simp: set_add_def)

lemma keys_obj_put [simp]: "map fst (obj_put k v m) = set_add k (map fst m)"
  by (induction m) (auto simp: obj_put_def set_add_def)

lemma keys_order_init [simp]: "keys_order [] init_state"
  by (simp add: keys_order_def init_state_def teams_def)

lemma group_step_keys: "group_step m gs = Inr gs' \<Longrightarrow> map fst gs' = set_add (Group m) (map fst gs)"
  by (auto simp: group_step_def split: jsprop.splits)

lemma store_step_keys: "store_step s g x w sp = Inr sp' \<Longrightarrow> map fst sp' = set_add s (map fst sp)"
  by (auto simp: store_step_def split: jsprop.splits)

lemma daily_step_keys:
  assumes "\<forall>k \<in> set (map fst dp). \<not> is_proto_key k"
  shows "map fst (daily_step d x dp) = (if is_proto_key d then map fst dp else set_add d (map fst dp))"
proof (cases "is_proto_key d")
  case True
  with assms have "map_of dp d = None" by (auto simp: map_of_eq_None_iff)
  with True show ?thesis by (simp add: daily_step_def obj_get_def is_proto_key_def)
next
  case False
  then show ?thesis
    by (auto simp: daily_step_def obj_get_def is_proto_key_def split: option.splits)
qed

lemma process_match_keys:
  assumes "process_match st m = Inr st'" and "keys_order pre st"
  shows "keys_order (pre @ [m]) st'"
proof -
  from assms(1) obtain gs sp1 sp2 where
    g: "group_step m (acc_groups st) = Inr gs" and
    s1: "store_step (Team1 m) (Group m) (Team1Sales m) (Winner m) (acc_stores st) = Inr sp1" and
    s2: "store_step (Team2 m) (Group m) (Team2Sales m) (Winner m) sp1 = Inr sp2" and
    st': "st' = \<lparr>acc_groups = gs, acc_stores = sp2,
                 acc_daily = daily_step (Date m) (match_total m) (acc_daily st),
                 acc_margins = acc_margins st @ [margin_of m]\<rparr>"
    by (auto simp: process_match_def margin_of_def split: sum.splits)
  have "teams (pre @ [m]) = (teams pre @ [Team1 m]) @ [Team2 m]"
    by (simp add: teams_def)
  moreover have "\<forall>k \<in> set (map fst (acc_daily st)). \<not> is_proto_key k"
    using assms(2) by (simp add: keys_order_def)
  ultimately show ?thesis
    using assms(2) group_step_keys [OF g] store_step_keys [OF s1] store_step_keys [OF s2]
    by (simp add: keys_order_def st' daily_step_keys del: append_assoc)
qed

lemma process_all_keys:
  "process_all st ms = Inr st' \<Longrightarrow> keys_order pre st \<Longrightarrow> keys_order (pre @ ms) st'"
proof (induction ms arbitrary: st pre)
  case (Cons m ms)
  then obtain st1 where m: "process_match st m = Inr st1" and rest: "process_all st1 ms = Inr st'"
    by (auto split: sum.splits)
  from Cons.IH [OF rest process_match_keys [OF m Cons.prems(2)]] show ?case by simp
qed simp

text \<open>The group fold keeps each team of its matches once in \<open>stores\<close>.\<close>

lemma group_fold_stores:
  "set (stores (foldl (\<lambda>ga m. update_group m ga) ga ms)) = set (stores ga) \<union> (\<Union>m \<in> set ms. {Team1 m, Team2 m})"
  "distinct (stores ga) \<Longrightarrow> distinct (stores (foldl (\<lambda>ga m. update_group m ga) ga ms))"
  by (induction ms arbitrary: ga) (auto simp: update_group_def set_add_def)

end
