(* ===== verification/Analytics.thy ===== *)
theory Analytics
  imports Analytics_Pass
begin
text \<open>
  The rest of \<open>processAnalytics\<close> (\<open>src/src/utils/analytics.js\<close>): the derived metrics
  the code adds to each group and store object after the pass (lines 101 to 115), the group
  standings (lines 117 to 132), and the returned bundle with the groups sorted by group
  number (lines 134 to 140). The properties of the whole function are at the end.
\<close>

record group_stats = group_acc +
  avgMargin :: jsnum
  storeCount :: nat
  competitiveness :: jsnum

record store_perf = store_acc +
  winRate :: string
  consistency :: string

record standing = store_perf +
  position :: nat
  positionChange :: int

record analytics =
  groupStats :: "group_stats list"
  storePerformance :: "store_perf list"
  dailyPerformance :: "daily list"
  matchMargins :: "match_margin list"
  groupStandings :: "(string \<times> standing list) list"

subsection \<open>Derived metrics (lines 101 to 115)\<close>

definition finalize_group :: "group_acc \<Rightarrow> group_stats" where
  "finalize_group ga =
     (let avg = js_div (group_acc.totalSales ga) (Num (real (group_acc.matches ga)));
          am = js_div (totalMargin ga) (Num (real (group_acc.matches ga)))
      in group_acc.extend (ga\<lparr>avgSalesPerMatch := avg\<rparr>)
           (group_stats.fields am (length (stores ga)) (js_mul (js_div am avg) (Num 100))))"

definition finalize_store :: "store_acc \<Rightarrow> store_perf" where
  "finalize_store sa =
     (let avg = js_div (store_acc.totalSales sa) (Num (real (store_acc.matches sa)))
      in store_acc.extend (sa\<lparr>avgSales := avg, recentForm := js_slice_last 5 (recentForm sa)\<rparr>)
           (store_perf.fields
              (to_fixed 1 (js_mul (js_div (Num (real (wins sa))) (Num (real (store_acc.matches sa)))) (Num 100)))
              (to_fixed 1 (js_mul (js_div (js_sub (bestPerformance sa) (worstPerformance sa)) avg) (Num 100)))))"

subsection \<open>Standings (lines 117 to 132)\<close>

definition standing_cmp :: "store_perf \<Rightarrow> store_perf \<Rightarrow> jsnum" where
  "standing_cmp a b =
     (if points b \<noteq> points a then Num (real (points b) - real (points a))
      else if wins b \<noteq> wins a then Num (real (wins b) - real (wins a))
      else js_sub (store_acc.totalSales b) (store_acc.totalSales a))"

definition add_position :: "nat \<Rightarrow> store_perf \<Rightarrow> standing" where
  "add_position index s = store_perf.extend s (standing.fields (index + 1) 0)"

definition group_standing :: "store_perf list \<Rightarrow> string \<Rightarrow> standing list" where
  "group_standing sps g =
     map (\<lambda>(i, s). add_position i s) (enumerate 0 (js_sort standing_cmp (filter (\<lambda>s. store_acc.group s = g) sps)))"

definition group_standings :: "string list \<Rightarrow> store_perf list \<Rightarrow> (string \<times> standing list) list" where
  "group_standings keys sps = map (\<lambda>g. (g, group_standing sps g)) keys"

subsection \<open>processAnalytics (lines 6 to 141)\<close>

definition group_cmp :: "group_stats \<Rightarrow> group_stats \<Rightarrow> jsnum" where
  "group_cmp a b = Num (real_of_int (group_acc.groupNumber a - group_acc.groupNumber b))"

definition empty_analytics :: analytics where
  "empty_analytics =
     \<lparr>groupStats = [], storePerformance = [], dailyPerformance = [], matchMargins = [], groupStandings = []\<rparr>"

definition process_analytics :: "match_record list \<Rightarrow> js_error + analytics" where
  "process_analytics rawData =
     (if rawData = [] then Inr empty_analytics
      else
        (case process_all init_state rawData of
           Inl e \<Rightarrow> Inl e
         | Inr st \<Rightarrow>
             (let gstats = map finalize_group (obj_values (acc_groups st));
                  sperf = map finalize_store (obj_values (acc_stores st))
              in Inr \<lparr>groupStats = js_sort group_cmp gstats,
                      storePerformance = sperf,
                      dailyPerformance = obj_values (acc_daily st),
                      matchMargins = acc_margins st,
                      groupStandings = group_standings (obj_keys (acc_groups st)) sperf\<rparr>)))"

text \<open>A store's outcomes: W or L for each of its appearances, in input order.\<close>

definition outcomes :: "string \<Rightarrow> match_record list \<Rightarrow> form list" where
  "outcomes s ms =
     concat (map (\<lambda>m. (if Team1 m = s then [if s = Winner m then W else L] else [])
                     @ (if Team2 m = s then [if s = Winner m then W else L] else [])) ms)"

subsection \<open>The scenario of the specification\<close>

text \<open>
  Two matches of Group 1 on one day: Alpha (100) loses to Beta (200), then Alpha (300) beats
  Gamma (50). \<open>spec_bundle\<close> is the whole result \<open>processAnalytics\<close> returns.
\<close>

definition spec_m1 :: match_record where
  "spec_m1 = \<lparr>Date = ''2025-11-28'', Group = ''Group 1'', No = ''1'', Matches = ''M1'',
     Team1 = ''Alpha'', Team2 = ''Beta'', Team1Sales = Num 100, Team2Sales = Num 200,
     Winner = ''Beta'', Loser = ''Alpha'', Winner_1 = Num 200, Loser_2 = Num 100,
     TotalWinner = Num 200, TotalLoser = Num 100\<rparr>"

definition spec_m2 :: match_record where
  "spec_m2 = \<lparr>Date = ''2025-11-28'', Group = ''Group 1'', No = ''2'', Matches = ''M2'',
     Team1 = ''Alpha'', Team2 = ''Gamma'', Team1Sales = Num 300, Team2Sales = Num 50,
     Winner = ''Alpha'', Loser = ''Gamma'', Winner_1 = Num 300, Loser_2 = Num 50,
     TotalWinner = Num 300, TotalLoser = Num 50\<rparr>"

definition spec_alpha :: store_perf where
  "spec_alpha = \<lparr>store = ''Alpha'', store_acc.group = ''Group 1'', store_acc.groupNumber = 1,
     store_acc.totalSales = Num 400, store_acc.matches = 2, wins = 1, losses = 1, avgSales = Num 200,
     points = 3, bestPerformance = Num 300, worstPerformance = Num 100, recentForm = [L, W],
     winRate = ''50.0'', consistency = ''100.0''\<rparr>"

definition spec_beta :: store_perf where
  "spec_beta = \<lparr>store = ''Beta'', store_acc.group = ''Group 1'', store_acc.groupNumber = 1,
     store_acc.totalSales = Num 200, store_acc.matches = 1, wins = 1, losses = 0, avgSales = Num 200,
     points = 3, bestPerformance = Num 200, worstPerformance = Num 200, recentForm = [W],
     winRate = ''100.0'', consistency = ''0.0''\<rparr>"

definition spec_gamma :: store_perf where
  "spec_gamma = \<lparr>store = ''Gamma'', store_acc.group = ''Group 1'', store_acc.groupNumber = 1,
     store_acc.totalSales = Num 50, store_acc.matches = 1, wins = 0, losses = 1, avgSales = Num 50,
     points = 0, bestPerformance = Num 50, worstPerformance = Num 50, recentForm = [L],
     winRate = ''0.0'', consistency = ''0.0''\<rparr>"

definition spec_bundle :: analytics where
  "spec_bundle =
     \<lparr>groupStats =
        [\<lparr>group_acc.group = ''Group 1'', group_acc.groupNumber = 1, group_acc.totalSales = Num 650,
          group_acc.matches = 2, avgSalesPerMatch = Num 325, highestMatch = Num 350,
          lowestMatch = Num 300, stores = [''Alpha'', ''Beta'', ''Gamma''], totalMargin = Num 350,
          closestMatch = Num 100, avgMargin = Num 175, storeCount = 3,
          competitiveness = Num (700 / 13)\<rparr>],
      storePerformance = [spec_alpha, spec_beta, spec_gamma],
      dailyPerformance = [\<lparr>date = ''2025-11-28'', daily.totalSales = Num 650, daily.matches = 2\<rparr>],
      matchMargins =
        [\<lparr>match_margin.group = ''Group 1'', margin = Num 100, matchSales = Num 300\<rparr>,
         \<lparr>match_margin.group = ''Group 1'', margin = Num 250, matchSales = Num 350\<rparr>],
      groupStandings =
        [(''Group 1'', [add_position 0 spec_alpha, add_position 1 spec_beta, add_position 2 spec_gamma])]\<rparr>"

subsection \<open>The standings order as a key\<close>

text \<open>
  \<open>standing_cmp\<close> orders by points, then wins, then total sales, all descending; as a
  key for an ascending sort the three are negated.
\<close>

definition standing_key :: "store_perf \<Rightarrow> int \<times> int \<times> int \<times> real" where
  "standing_key s =
     (- int (points s), - int (wins s), - fst (num_order_key (store_acc.totalSales s)),
      - snd (num_order_key (store_acc.totalSales s)))"

subsection \<open>Evaluation\<close>

lemmas analytics_defs [model_defs] = finalize_group_def finalize_store_def standing_cmp_def
  add_position_def group_standing_def group_standings_def group_cmp_def empty_analytics_def
  process_analytics_def group_acc.extend_def group_stats.fields_def store_acc.extend_def
  store_perf.fields_def store_perf.extend_def standing.fields_def

subsection \<open>From the pass to the returned bundle\<close>

lemma process_analytics_Inr:
  assumes "process_analytics raw = Inr a" and "raw \<noteq> []"
  obtains st where "process_all init_state raw = Inr st" "views_agree raw st" "keys_distinct st"
    "keys_order raw st" "storePerformance a = map finalize_store (obj_values (acc_stores st))"
    "groupStats a = js_sort group_cmp (map finalize_group (obj_values (acc_groups st)))"
    "dailyPerformance a = obj_values (acc_daily st)"
    "groupStandings a = group_standings (obj_keys (acc_groups st)) (storePerformance a)"
proof -
  from assms obtain st where st: "process_all init_state raw = Inr st"
    by (auto simp: process_analytics_def split: sum.splits)
  with assms have a: "a = \<lparr>groupStats = js_sort group_cmp (map finalize_group (obj_values (acc_groups st))),
      storePerformance = map finalize_store (obj_values (acc_stores st)),
      dailyPerformance = obj_values (acc_daily st), matchMargins = acc_margins st,
      groupStandings = group_standings (obj_keys (acc_groups st)) (map finalize_store (obj_values (acc_stores st)))\<rparr>"
    by (simp add: process_analytics_def Let_def)
  show ?thesis
    using process_all_keys [OF st keys_order_init]
    by (intro that [OF st process_all_refines_views [OF st] process_all_distinct [OF st keys_distinct_init]])
      (simp_all add: a)
qed

lemma store_entry:
  assumes "views_agree raw st" "keys_distinct st" "sa \<in> set (obj_values (acc_stores st))"
  obtains s where "\<exists>m \<in> set raw. plays s m" "sa = store_fold (new_store s (first_group s raw)) (store_events s raw)"
proof -
  from assms(3) have "sa \<in> snd ` set (acc_stores st)" by (simp add: obj_values_def)
  then obtain s where "(s, sa) \<in> set (acc_stores st)" by auto
  with assms(2) have "map_of (acc_stores st) s = Some sa"
    by (simp add: keys_distinct_def map_of_is_SomeI)
  with assms(1) have "store_view raw s = Some sa" by (simp add: views_agree_def)
  then show ?thesis using that by (auto simp: store_view_def split: if_splits)
qed

lemma finalize_store_fields [simp]:
  "store (finalize_store sa) = store sa"
  "store_acc.group (finalize_store sa) = store_acc.group sa"
  "store_acc.matches (finalize_store sa) = store_acc.matches sa"
  "wins (finalize_store sa) = wins sa" "losses (finalize_store sa) = losses sa"
  "points (finalize_store sa) = points sa"
  "recentForm (finalize_store sa) = js_slice_last 5 (recentForm sa)"
  by (simp_all add: finalize_store_def Let_def store_acc.extend_def store_perf.fields_def)

lemma store_output:
  assumes "process_analytics raw = Inr a" and "sp \<in> set (storePerformance a)"
  obtains s where "\<exists>m \<in> set raw. plays s m"
    "sp = finalize_store (store_fold (new_store s (first_group s raw)) (store_events s raw))"
proof (cases "raw = []")
  case True
  with assms show ?thesis by (auto simp: process_analytics_def empty_analytics_def)
next
  case False
  from assms(1) False obtain st where "views_agree raw st" "keys_distinct st"
    and sp: "storePerformance a = map finalize_store (obj_values (acc_stores st))"
    by (rule process_analytics_Inr)
  with assms(2) obtain sa where sa: "sa \<in> set (obj_values (acc_stores st))" and "sp = finalize_store sa"
    by auto
  moreover obtain s where "\<exists>m \<in> set raw. plays s m"
    "sa = store_fold (new_store s (first_group s raw)) (store_events s raw)"
    by (rule store_entry [OF \<open>views_agree raw st\<close> \<open>keys_distinct st\<close> sa])
  ultimately show ?thesis using that by blast
qed

lemma outcomes_events: "outcomes s ms = map (\<lambda>e. if snd e then W else L) (store_events s ms)"
  by (induction ms) (auto simp: outcomes_def store_events_def match_events_def)

subsection \<open>Totals over the dictionaries\<close>

lemma group_fold_fields [simp]:
  "group_acc.matches (foldl (\<lambda>ga m. update_group m ga) ga ms) = group_acc.matches ga + length ms"
  "group_acc.group (foldl (\<lambda>ga m. update_group m ga) ga ms) = group_acc.group ga"
  "group_acc.groupNumber (foldl (\<lambda>ga m. update_group m ga) ga ms) = group_acc.groupNumber ga"
  by (induction ms arbitrary: ga) (simp_all add: update_group_def)

lemma daily_fold_matches [simp]:
  "daily.matches (foldl (\<lambda>dr m. update_daily (match_total m) dr) dr ms) = daily.matches dr + length ms"
  by (induction ms arbitrary: dr) (simp_all add: update_daily_def)

lemma finalize_group_fields [simp]:
  "group_acc.matches (finalize_group ga) = group_acc.matches ga"
  "group_acc.group (finalize_group ga) = group_acc.group ga"
  "group_acc.groupNumber (finalize_group ga) = group_acc.groupNumber ga"
  by (simp_all add: finalize_group_def Let_def group_acc.extend_def group_stats.fields_def)

lemma dom_views:
  "dom (group_view raw) = Group ` set raw"
  "dom (store_view raw) = {s. \<exists>m \<in> set raw. plays s m}"
  "dom (daily_view raw) = Date ` set (filter (\<lambda>m. \<not> is_proto_key (Date m)) raw)"
  by (auto simp: group_view_def store_view_def daily_view_def split: if_splits)

lemma views_keys:
  assumes "views_agree raw st"
  shows "fst ` set (acc_groups st) = Group ` set raw"
    "fst ` set (acc_stores st) = {s. \<exists>m \<in> set raw. plays s m}"
    "fst ` set (acc_daily st) = Date ` set (filter (\<lambda>m. \<not> is_proto_key (Date m)) raw)"
  using assms dom_views by (simp_all add: views_agree_def flip: dom_map_of_conv_image_fst)

lemma sum_obj_values:
  assumes "distinct (map fst m)"
  shows "(\<Sum>v\<leftarrow>obj_values m. f v) = (\<Sum>k\<leftarrow>map fst m. (f (the (map_of m k)) :: 'b :: comm_monoid_add))"
proof -
  have "(\<Sum>v\<leftarrow>obj_values m. f v) = (\<Sum>p\<leftarrow>obj_entries m. f (snd p))"
    by (simp add: obj_values_def comp_def)
  also have "\<dots> = (\<Sum>p\<leftarrow>m. f (snd p))"
    using sum_list_perm [of "obj_entries m" m "\<lambda>p. f (snd p)"] by simp
  also have "\<dots> = (\<Sum>k\<leftarrow>map fst m. f (the (map_of m k)))"
    by (rule sum_list_alist [OF assms])
  finally show ?thesis .
qed
lemma store_events_Cons [simp]: "store_events s (m # ms) = match_events s m @ store_events s ms"
  by (simp add: store_events_def)

lemma length_filter_match_events:
  "length (filter P (match_events s m)) =
     (if Team1 m = s then (if P (Team1Sales m, Team1 m = Winner m) then 1 else 0) else 0)
     + (if Team2 m = s then (if P (Team2Sales m, Team2 m = Winner m) then 1 else 0) else 0)"
  by (auto simp: match_events_def)

lemma sum_store_events:
  assumes "distinct ks" and "\<forall>m \<in> set ms. Team1 m \<in> set ks \<and> Team2 m \<in> set ks"
  shows "(\<Sum>s\<leftarrow>ks. length (filter P (store_events s ms))) =
     length (filter (\<lambda>m. P (Team1Sales m, Team1 m = Winner m)) ms)
     + length (filter (\<lambda>m. P (Team2Sales m, Team2 m = Winner m)) ms)"
  using assms(2)
proof (induction ms)
  case (Cons m ms)
  have "(\<Sum>s\<leftarrow>ks. length (filter P (store_events s (m # ms)))) =
      (\<Sum>s\<leftarrow>ks. length (filter P (match_events s m))) + (\<Sum>s\<leftarrow>ks. length (filter P (store_events s ms)))"
    by (simp add: sum_list_addf)
  also have "(\<Sum>s\<leftarrow>ks. length (filter P (match_events s m))) =
      (if P (Team1Sales m, Team1 m = Winner m) then 1 else 0) + (if P (Team2Sales m, Team2 m = Winner m) then 1 else 0)"
    using Cons.prems assms(1)
    by (simp only: length_filter_match_events sum_list_addf sum_list_indicator list.set_intros(1))
  finally show ?case using Cons by simp
qed (simp add: store_events_def)

lemma sum_store_view:
  assumes "views_agree raw st" and "keys_distinct st"
  shows "(\<Sum>sa\<leftarrow>obj_values (acc_stores st). f (finalize_store sa)) =
    (\<Sum>s\<leftarrow>map fst (acc_stores st). (f (finalize_store (the (store_view raw s))) :: 'b :: comm_monoid_add))"
  using assms sum_obj_values [of "acc_stores st" "\<lambda>sa. f (finalize_store sa)"]
  by (simp add: keys_distinct_def views_agree_def)

text \<open>The aggregator throws exactly on prototype-named keys.\<close>

lemma process_analytics_fails_iff:
  "(\<exists>e. process_analytics raw = Inl e) \<longleftrightarrow> (\<exists>m \<in> set raw. match_has_proto_key m)"
  using process_all_result [OF pass_ok_init, of raw]
  by (auto simp: process_analytics_def Let_def split: sum.splits)

subsection \<open>The scenario of the specification\<close>

lemma spec_bundle_eval: "process_analytics [spec_m1, spec_m2] = Inr spec_bundle"
  by (simp add: spec_m1_def spec_m2_def spec_bundle_def spec_alpha_def spec_beta_def spec_gamma_def
      model_defs js_eval Let_def)

subsection \<open>Properties of processAnalytics\<close>

text \<open>
  C4. processAnalytics throws (a TypeError) exactly when some match has a group, a first
  team or a second team named like an \<open>Object.prototype\<close> property; otherwise it returns
  a bundle. The spec says the aggregator never fails.
\<close>

theorem process_analytics_error_iff:
  "(\<exists>e. process_analytics raw = Inl e) \<longleftrightarrow> (\<exists>m \<in> set raw. match_has_proto_key m)"
  by (rule process_analytics_fails_iff)

text \<open>
  C5. Every store's recent form is the last five (or all, when fewer) of its outcomes in
  input order, and its match count is the number of its outcomes.
\<close>

theorem process_analytics_recent_form:
  assumes "process_analytics raw = Inr a" and "sp \<in> set (storePerformance a)"
  shows "recentForm sp = js_slice_last 5 (outcomes (store sp) raw)
    \<and> store_acc.matches sp = length (outcomes (store sp) raw)"
proof -
  from assms obtain s where "sp = finalize_store (store_fold (new_store s (first_group s raw)) (store_events s raw))"
    by (rule store_output)
  then show ?thesis by (simp add: outcomes_events)
qed

theorem process_analytics_recent_form_witness:
  "process_analytics [spec_m1, spec_m2] = Inr spec_bundle \<and> spec_alpha \<in> set (storePerformance spec_bundle)
   \<and> recentForm spec_alpha = js_slice_last 5 (outcomes (store spec_alpha) [spec_m1, spec_m2])
   \<and> store_acc.matches spec_alpha = length (outcomes (store spec_alpha) [spec_m1, spec_m2])"
  using process_analytics_recent_form [OF spec_bundle_eval, of spec_alpha] spec_bundle_eval
  by (simp add: spec_bundle_def)

text \<open>
  C6. For every store, wins and losses add up to its matches, and its points are three per
  win.
\<close>

theorem process_analytics_wins_losses:
  assumes "process_analytics raw = Inr a" and "sp \<in> set (storePerformance a)"
  shows "wins sp + losses sp = store_acc.matches sp \<and> points sp = 3 * wins sp"
proof -
  from assms obtain s where "sp = finalize_store (store_fold (new_store s (first_group s raw)) (store_events s raw))"
    by (rule store_output)
  then show ?thesis by (simp add: sum_length_filter_compl)
qed

theorem process_analytics_wins_losses_witness:
  "process_analytics [spec_m1, spec_m2] = Inr spec_bundle \<and> spec_beta \<in> set (storePerformance spec_bundle)
   \<and> wins spec_beta + losses spec_beta = store_acc.matches spec_beta \<and> points spec_beta = 3 * wins spec_beta"
  using process_analytics_wins_losses [OF spec_bundle_eval, of spec_beta] spec_bundle_eval
  by (simp add: spec_bundle_def)

text \<open>
  The example of the specification, evaluated: Group 1 totals 650 over 2 matches with 3 stores;
  Alpha has 400 in sales over 2 matches, 1 win, 1 loss and 3 points; Alpha ranks above
  Beta (same points and wins, more sales) and Gamma is third.
\<close>

lemma process_analytics_spec_scenario:
  "\<exists>a. process_analytics [spec_m1, spec_m2] = Inr a
     \<and> map (\<lambda>g. (group_acc.totalSales g, group_acc.matches g, storeCount g)) (groupStats a) = [(Num 650, 2, 3)]
     \<and> map (\<lambda>s. (store s, store_acc.totalSales s, store_acc.matches s, wins s, losses s, points s))
           (storePerformance a)
         = [(''Alpha'', Num 400, 2, 1, 1, 3), (''Beta'', Num 200, 1, 1, 0, 3), (''Gamma'', Num 50, 1, 0, 1, 0)]
     \<and> map (\<lambda>(g, st). (g, map (\<lambda>s. (store s, position s)) st)) (groupStandings a)
         = [(''Group 1'', [(''Alpha'', 1), (''Beta'', 2), (''Gamma'', 3)])]"
  using spec_bundle_eval
  by (simp add: spec_bundle_def spec_alpha_def spec_beta_def spec_gamma_def add_position_def
      store_perf.extend_def standing.fields_def)


text \<open>
  C8. The group table accounts for every match once: the match counts of the returned
  group statistics add up to the number of input matches.
\<close>

theorem process_analytics_group_matches:
  assumes "process_analytics raw = Inr a"
  shows "(\<Sum>g\<leftarrow>groupStats a. group_acc.matches g) = length raw"
proof (cases "raw = []")
  case True
  with assms show ?thesis by (auto simp: process_analytics_def empty_analytics_def)
next
  case False
  from assms False obtain st where v: "views_agree raw st" and d: "keys_distinct st"
    and gs: "groupStats a = js_sort group_cmp (map finalize_group (obj_values (acc_groups st)))"
    by (rule process_analytics_Inr)
  have "(\<Sum>g\<leftarrow>groupStats a. group_acc.matches g) = (\<Sum>ga\<leftarrow>obj_values (acc_groups st). group_acc.matches ga)"
    unfolding gs by (subst sum_list_perm [of _ "map finalize_group (obj_values (acc_groups st))"]) (simp_all add: comp_def)
  also have "\<dots> = (\<Sum>k\<leftarrow>map fst (acc_groups st). group_acc.matches (the (group_view raw k)))"
    using d v by (simp add: sum_obj_values keys_distinct_def views_agree_def)
  also have "\<dots> = (\<Sum>k\<leftarrow>map fst (acc_groups st). length (filter (\<lambda>m. Group m = k) raw))"
  proof (rule arg_cong [where f = sum_list], rule map_cong)
    fix k assume "k \<in> set (map fst (acc_groups st))"
    with views_keys(1) [OF v] have "\<exists>m \<in> set raw. Group m = k" by auto
    then show "group_acc.matches (the (group_view raw k)) = length (filter (\<lambda>m. Group m = k) raw)"
      by (simp add: group_view_def new_group_def)
  qed simp
  also have "\<dots> = length raw"
    using sum_list_filter_keys [of "map fst (acc_groups st)" Group raw] d views_keys(1) [OF v]
    by (simp add: keys_distinct_def)
  finally show ?thesis .
qed

theorem process_analytics_group_matches_witness:
  "process_analytics [spec_m1, spec_m2] = Inr spec_bundle
   \<and> (\<Sum>g\<leftarrow>groupStats spec_bundle. group_acc.matches g) = length [spec_m1, spec_m2]"
  using process_analytics_group_matches [OF spec_bundle_eval] spec_bundle_eval by simp

text \<open>
  C9. The daily table accounts for every match whose date is not named like an
  \<open>Object.prototype\<close> property, and only for those: such a date gets no row, and its
  matches are missing from the daily totals.
\<close>

theorem process_analytics_daily_matches:
  assumes "process_analytics raw = Inr a"
  shows "(\<Sum>d\<leftarrow>dailyPerformance a. daily.matches d) = length (filter (\<lambda>m. \<not> is_proto_key (Date m)) raw)"
proof (cases "raw = []")
  case True
  with assms show ?thesis by (auto simp: process_analytics_def empty_analytics_def)
next
  case False
  let ?ok = "filter (\<lambda>m. \<not> is_proto_key (Date m)) raw"
  from assms False obtain st where v: "views_agree raw st" and d: "keys_distinct st"
    and dp: "dailyPerformance a = obj_values (acc_daily st)"
    by (rule process_analytics_Inr)
  have "(\<Sum>d\<leftarrow>dailyPerformance a. daily.matches d) = (\<Sum>k\<leftarrow>map fst (acc_daily st). daily.matches (the (daily_view raw k)))"
    using d v by (simp add: dp sum_obj_values keys_distinct_def views_agree_def)
  also have "\<dots> = (\<Sum>k\<leftarrow>map fst (acc_daily st). length (filter (\<lambda>m. Date m = k) ?ok))"
  proof (rule arg_cong [where f = sum_list], rule map_cong)
    fix k assume "k \<in> set (map fst (acc_daily st))"
    with views_keys(3) [OF v] have k: "\<exists>m \<in> set raw. Date m = k" "\<not> is_proto_key k" by auto
    then have "filter (\<lambda>m. Date m = k) ?ok = filter (\<lambda>m. Date m = k) raw"
      by (auto simp: filter_filter intro: filter_cong)
    with k show "daily.matches (the (daily_view raw k)) = length (filter (\<lambda>m. Date m = k) ?ok)"
      by (simp add: daily_view_def new_daily_def)
  qed simp
  also have "\<dots> = length ?ok"
    using sum_list_filter_keys [of "map fst (acc_daily st)" Date ?ok] d views_keys(3) [OF v]
    by (simp add: keys_distinct_def)
  finally show ?thesis .
qed

theorem process_analytics_daily_matches_witness:
  "process_analytics [spec_m1, spec_m2] = Inr spec_bundle
   \<and> (\<Sum>d\<leftarrow>dailyPerformance spec_bundle. daily.matches d) = length (filter (\<lambda>m. \<not> is_proto_key (Date m)) [spec_m1, spec_m2])"
  using process_analytics_daily_matches [OF spec_bundle_eval] spec_bundle_eval by simp

text \<open>
  C10. The store table accounts for every match twice (once per side) and for every win
  once: store match counts add up to twice the number of matches, and store wins add up to
  the number of matches whose winner is the first team plus those whose winner is the
  second team.
\<close>

theorem process_analytics_store_totals:
  assumes "process_analytics raw = Inr a"
  shows "(\<Sum>sp\<leftarrow>storePerformance a. store_acc.matches sp) = 2 * length raw
    \<and> (\<Sum>sp\<leftarrow>storePerformance a. wins sp) =
        length (filter (\<lambda>m. Team1 m = Winner m) raw) + length (filter (\<lambda>m. Team2 m = Winner m) raw)"
proof (cases "raw = []")
  case True
  with assms show ?thesis by (auto simp: process_analytics_def empty_analytics_def)
next
  case False
  from assms False obtain st where v: "views_agree raw st" and d: "keys_distinct st"
    and sp: "storePerformance a = map finalize_store (obj_values (acc_stores st))"
    by (rule process_analytics_Inr)
  let ?ks = "map fst (acc_stores st)"
  have ks: "distinct ?ks" "\<forall>m \<in> set raw. Team1 m \<in> set ?ks \<and> Team2 m \<in> set ?ks"
    using d views_keys(2) [OF v] by (auto simp: keys_distinct_def plays_def)
  have sv: "\<And>s. s \<in> set ?ks \<Longrightarrow> store_view raw s = Some (store_fold (new_store s (first_group s raw)) (store_events s raw))"
    using views_keys(2) [OF v] by (auto simp: store_view_def)
  have "(\<Sum>sp\<leftarrow>storePerformance a. store_acc.matches sp) = (\<Sum>s\<leftarrow>?ks. length (filter (\<lambda>e. True) (store_events s raw)))"
    unfolding sp using sum_store_view [OF v d, of store_acc.matches] sv by (simp add: comp_def cong: map_cong)
  moreover have "(\<Sum>sp\<leftarrow>storePerformance a. wins sp) = (\<Sum>s\<leftarrow>?ks. length (filter snd (store_events s raw)))"
    unfolding sp using sum_store_view [OF v d, of wins] sv by (simp add: comp_def cong: map_cong)
  ultimately show ?thesis using sum_store_events [OF ks, of "\<lambda>e. True"] sum_store_events [OF ks, of snd]
    by simp
qed

theorem process_analytics_store_totals_witness:
  "process_analytics [spec_m1, spec_m2] = Inr spec_bundle
   \<and> (\<Sum>sp\<leftarrow>storePerformance spec_bundle. store_acc.matches sp) = 2 * length [spec_m1, spec_m2]
   \<and> (\<Sum>sp\<leftarrow>storePerformance spec_bundle. wins sp) =
        length (filter (\<lambda>m. Team1 m = Winner m) [spec_m1, spec_m2]) + length (filter (\<lambda>m. Team2 m = Winner m) [spec_m1, spec_m2])"
  using process_analytics_store_totals [OF spec_bundle_eval] spec_bundle_eval by simp


subsection \<open>Orders of the returned lists\<close>

lemma cmp_by_key_group [simp]: "cmp_by_key group_cmp group_acc.groupNumber A"
  by (simp add: cmp_by_key_def group_cmp_def)

lemma cmp_by_key_standing:
  "\<forall>s \<in> A. store_acc.totalSales s \<noteq> NaN \<Longrightarrow> cmp_by_key standing_cmp standing_key A"
  unfolding cmp_by_key_def
proof (intro ballI)
  fix x y assume "\<forall>s \<in> A. store_acc.totalSales s \<noteq> NaN" "x \<in> A" "y \<in> A"
  then have "store_acc.totalSales x \<noteq> NaN" "store_acc.totalSales y \<noteq> NaN" by auto
  then have k: "js_less (Num 0) (js_sub (store_acc.totalSales x) (store_acc.totalSales y))
      \<longleftrightarrow> num_order_key (store_acc.totalSales y) < num_order_key (store_acc.totalSales x)"
    by (simp add: js_sub_pos_key)
  show "js_less (Num 0) (standing_cmp y x) \<longleftrightarrow> standing_key x < standing_key y"
  proof (cases "points x = points y")
    case p: True
    show ?thesis
    proof (cases "wins x = wins y")
      case True
      with p k neg_pair_less [of "num_order_key (store_acc.totalSales x)" "num_order_key (store_acc.totalSales y)"]
      show ?thesis by (simp add: standing_cmp_def standing_key_def)
    next
      case False
      with p show ?thesis by (auto simp: standing_cmp_def standing_key_def)
    qed
  next
    case False
    then show ?thesis by (auto simp: standing_cmp_def standing_key_def)
  qed
qed

lemma add_position_fields [simp]:
  "store (add_position i s) = store s" "position (add_position i s) = Suc i"
  by (simp_all add: add_position_def store_perf.extend_def standing.fields_def)

lemma positions_enumerate:
  "map store (map (\<lambda>(i, s). add_position i s) (enumerate n xs)) = map store xs"
  "map position (map (\<lambda>(i, s). add_position i s) (enumerate n xs)) = [Suc n..<Suc n + length xs]"
  by (induction xs arbitrary: n) (simp_all add: upt_conv_Cons del: upt_Suc)

lemma map_store_group_standing:
  "map store (group_standing sps g) = map store (js_sort standing_cmp (filter (\<lambda>s. store_acc.group s = g) sps))"
  unfolding group_standing_def positions_enumerate(1) ..

lemma store_names_distinct:
  assumes "process_analytics raw = Inr a"
  shows "distinct (map store (storePerformance a))"
proof (cases "raw = []")
  case True
  with assms show ?thesis by (auto simp: process_analytics_def empty_analytics_def)
next
  case False
  from assms False obtain st where v: "views_agree raw st" and d: "keys_distinct st"
    and sp: "storePerformance a = map finalize_store (obj_values (acc_stores st))"
    by (rule process_analytics_Inr)
  have "map (\<lambda>p. store (snd p)) (acc_stores st) = map fst (acc_stores st)"
  proof (rule map_snd_keyed)
    show "distinct (map fst (acc_stores st))" using d by (simp add: keys_distinct_def)
    fix k v assume "map_of (acc_stores st) k = Some v"
    with v show "store v = k" by (auto simp: views_agree_def store_view_def split: if_splits)
  qed
  note eq = this
  have "map store (storePerformance a) = map (\<lambda>p. store (snd p)) (obj_entries (acc_stores st))"
    by (simp add: sp obj_values_def comp_def)
  then have "distinct (map store (storePerformance a)) = distinct (map (\<lambda>p. store (snd p)) (acc_stores st))"
    by simp
  also have "\<dots> = distinct (map fst (acc_stores st))"
    by (simp only: eq)
  finally show ?thesis using d by (simp add: keys_distinct_def)
qed

lemma store_group_key:
  assumes "process_analytics raw = Inr a" and "sp \<in> set (storePerformance a)"
  shows "store_acc.group sp \<in> Group ` set raw"
proof -
  from assms obtain s where p: "\<exists>m \<in> set raw. plays s m"
    and "sp = finalize_store (store_fold (new_store s (first_group s raw)) (store_events s raw))"
    by (rule store_output)
  then have "store_acc.group sp = Group (hd (filter (plays s) raw))"
    by (simp add: first_group_def)
  moreover from p have "filter (plays s) raw \<noteq> []"
    by (simp add: filter_empty_conv)
  then have "hd (filter (plays s) raw) \<in> set raw"
    using hd_in_set by fastforce
  ultimately show ?thesis by simp
qed

text \<open>
  C11. When no store name is an array index (a canonical numeral such as \<open>7\<close>), the
  store list is in order of first appearance: the first team of the first match, then its
  opponent, and so on, each store once.
\<close>

theorem process_analytics_store_order:
  assumes "process_analytics raw = Inr a" and "\<forall>s \<in> set (teams raw). \<not> is_array_index s"
  shows "map store (storePerformance a) = first_seen (teams raw)"
proof (cases "raw = []")
  case True
  with assms show ?thesis by (auto simp: process_analytics_def empty_analytics_def teams_def)
next
  case False
  from assms(1) False obtain st where v: "views_agree raw st" and d: "keys_distinct st"
    and k: "keys_order raw st" and sp: "storePerformance a = map finalize_store (obj_values (acc_stores st))"
    by (rule process_analytics_Inr)
  have keys: "map fst (acc_stores st) = first_seen (teams raw)"
    using k by (simp add: keys_order_def)
  then have "\<forall>k \<in> fst ` set (acc_stores st). \<not> is_array_index k"
    using assms(2) by (metis first_seen_set_distinct(1) list.set_map)
  then have "obj_values (acc_stores st) = map snd (acc_stores st)"
    by (simp add: obj_values_def obj_entries_no_index)
  moreover have "map (\<lambda>p. store (snd p)) (acc_stores st) = map fst (acc_stores st)"
  proof (rule map_snd_keyed)
    show "distinct (map fst (acc_stores st))" using d by (simp add: keys_distinct_def)
    fix k v assume "map_of (acc_stores st) k = Some v"
    with v show "store v = k" by (auto simp: views_agree_def store_view_def split: if_splits)
  qed
  ultimately show ?thesis using keys by (simp add: sp comp_def)
qed

theorem process_analytics_store_order_witness:
  "process_analytics [spec_m1, spec_m2] = Inr spec_bundle
   \<and> map store (storePerformance spec_bundle) = first_seen (teams [spec_m1, spec_m2])"
proof -
  have h: "\<forall>s \<in> set (teams [spec_m1, spec_m2]). \<not> is_array_index s"
    by (simp add: teams_def spec_m1_def spec_m2_def js_eval)
  show ?thesis using process_analytics_store_order [OF spec_bundle_eval h] spec_bundle_eval h by simp
qed

text \<open>
  C12. When no group name is an array index, the group statistics are sorted by group number
  (\<open>parseInt\<close> of the name after \<open>Group \<close>, or 0), groups of equal number in order of
  first appearance, and the standings list the groups in order of first appearance.
\<close>

theorem process_analytics_group_order:
  assumes "process_analytics raw = Inr a" and "\<forall>g \<in> set raw. \<not> is_array_index (Group g)"
  shows "map group_acc.group (groupStats a) = sort_key group_number (first_seen (map Group raw))
    \<and> map fst (groupStandings a) = first_seen (map Group raw)"
proof (cases "raw = []")
  case True
  with assms show ?thesis by (auto simp: process_analytics_def empty_analytics_def)
next
  case False
  from assms(1) False obtain st where v: "views_agree raw st" and d: "keys_distinct st"
    and k: "keys_order raw st"
    and gs: "groupStats a = js_sort group_cmp (map finalize_group (obj_values (acc_groups st)))"
    and gst: "groupStandings a = group_standings (obj_keys (acc_groups st)) (storePerformance a)"
    by (rule process_analytics_Inr)
  let ?G = "acc_groups st"
  have keys: "map fst ?G = first_seen (map Group raw)"
    using k by (simp add: keys_order_def)
  then have "\<forall>k \<in> fst ` set ?G. \<not> is_array_index k"
    using assms(2) by (metis first_seen_set_distinct(1) image_iff list.set_map)
  then have vals: "obj_values ?G = map snd ?G" and ks: "obj_keys ?G = map fst ?G"
    by (simp_all add: obj_values_no_index obj_keys_def obj_entries_no_index)
  have entry: "group_acc.group v = k \<and> group_acc.groupNumber v = group_number k" if "map_of ?G k = Some v" for k v
    using that v by (auto simp: views_agree_def group_view_def new_group_def split: if_splits)
  have grp: "map (\<lambda>p. group_acc.group (snd p)) ?G = map fst ?G"
    by (rule map_snd_keyed) (use d entry in \<open>simp_all add: keys_distinct_def\<close>)
  let ?L = "map finalize_group (map snd ?G)"
  have num: "group_acc.groupNumber y = group_number (group_acc.group y)" if "y \<in> set ?L" for y
    using that d entry by (auto simp: keys_distinct_def)
  have "groupStats a = sort_key group_acc.groupNumber ?L"
    unfolding gs vals by (rule js_sort_eq_sort_key) simp
  also have "\<dots> = sort_key (\<lambda>y. group_number (group_acc.group y)) ?L"
    by (rule sort_key_cong) (rule num)
  finally have "map group_acc.group (groupStats a) = sort_key group_number (map group_acc.group ?L)"
    by (simp add: map_sort_key)
  then show ?thesis using grp keys ks by (simp add: gst group_standings_def comp_def)
qed

theorem process_analytics_group_order_witness:
  "process_analytics [spec_m1, spec_m2] = Inr spec_bundle
   \<and> map group_acc.group (groupStats spec_bundle) = sort_key group_number (first_seen (map Group [spec_m1, spec_m2])) \<and> map fst (groupStandings spec_bundle) = first_seen (map Group [spec_m1, spec_m2])"
proof -
  have h: "\<forall>g \<in> set [spec_m1, spec_m2]. \<not> is_array_index (Group g)"
    by (simp add: spec_m1_def spec_m2_def js_eval)
  show ?thesis using process_analytics_group_order [OF spec_bundle_eval h] spec_bundle_eval h by simp
qed

text \<open>
  C13. When no store's total sales is NaN, each group's standings are the group's stores
  sorted by points, then wins, then total sales, all descending, stores equal on all three
  in store-list order, with positions 1, 2, ... in that order.
\<close>

theorem process_analytics_standings_sorted:
  assumes "process_analytics raw = Inr a"
    and "\<forall>sp \<in> set (storePerformance a). store_acc.totalSales sp \<noteq> NaN"
    and "(g, sts) \<in> set (groupStandings a)"
  shows "map store sts = map store (sort_key standing_key (filter (\<lambda>s. store_acc.group s = g) (storePerformance a)))
    \<and> map position sts = [1..<Suc (length sts)]"
proof -
  from assms(1,3) obtain ks where "groupStandings a = group_standings ks (storePerformance a)"
    by (cases "raw = []") (auto simp: process_analytics_def empty_analytics_def Let_def split: sum.splits)
  with assms(3) have sts: "sts = group_standing (storePerformance a) g"
    by (auto simp: group_standings_def)
  let ?F = "filter (\<lambda>s. store_acc.group s = g) (storePerformance a)"
  have "js_sort standing_cmp ?F = sort_key standing_key ?F"
    by (rule js_sort_eq_sort_key, rule cmp_by_key_standing) (use assms(2) in auto)
  then have eq: "sts = map (\<lambda>(i, s). add_position i s) (enumerate 0 (sort_key standing_key ?F))"
    by (simp add: sts group_standing_def)
  show ?thesis unfolding eq positions_enumerate by simp
qed

theorem process_analytics_standings_sorted_witness:
  "process_analytics [spec_m1, spec_m2] = Inr spec_bundle
   \<and> (''Group 1'', [add_position 0 spec_alpha, add_position 1 spec_beta, add_position 2 spec_gamma]) \<in> set (groupStandings spec_bundle)
   \<and> map store [add_position 0 spec_alpha, add_position 1 spec_beta, add_position 2 spec_gamma]
       = map store (sort_key standing_key (filter (\<lambda>s. store_acc.group s = ''Group 1'') (storePerformance spec_bundle)))
   \<and> map position [add_position 0 spec_alpha, add_position 1 spec_beta, add_position 2 spec_gamma]
       = [1..<Suc (length [add_position 0 spec_alpha, add_position 1 spec_beta, add_position 2 spec_gamma])]"
proof -
  have h1: "\<forall>sp \<in> set (storePerformance spec_bundle). store_acc.totalSales sp \<noteq> NaN"
    by (simp add: spec_bundle_def spec_alpha_def spec_beta_def spec_gamma_def)
  have h2: "(''Group 1'', [add_position 0 spec_alpha, add_position 1 spec_beta, add_position 2 spec_gamma]) \<in> set (groupStandings spec_bundle)"
    by (simp add: spec_bundle_def)
  show ?thesis using process_analytics_standings_sorted [OF spec_bundle_eval h1 h2] spec_bundle_eval h1 h2 by simp
qed

text \<open>
  C14. Every store appears in exactly one group's standings: the store names of all the
  standings together have no repetition and are the store names of the store list.
\<close>

theorem process_analytics_standings_partition:
  assumes "process_analytics raw = Inr a"
  shows "distinct (concat (map (\<lambda>(g, sts). map store sts) (groupStandings a)))
    \<and> set (concat (map (\<lambda>(g, sts). map store sts) (groupStandings a))) = set (map store (storePerformance a))"
proof (cases "raw = []")
  case True
  with assms show ?thesis by (auto simp: process_analytics_def empty_analytics_def)
next
  case False
  let ?sp = "storePerformance a"
  from assms False obtain st where v: "views_agree raw st" and d: "keys_distinct st"
    and gst: "groupStandings a = group_standings (obj_keys (acc_groups st)) ?sp"
    by (rule process_analytics_Inr)
  let ?ks = "obj_keys (acc_groups st)"
  have ks: "distinct ?ks" "set ?ks = Group ` set raw"
    using d views_keys(1) [OF v] by (simp_all add: obj_keys_def keys_distinct_def)
  have "concat (map (\<lambda>(g, sts). map store sts) (groupStandings a))
      = concat (map (\<lambda>g. map store (js_sort standing_cmp (filter (\<lambda>s. store_acc.group s = g) ?sp))) ?ks)"
    by (simp add: gst group_standings_def map_store_group_standing comp_def)
  moreover have "mset (concat (map (\<lambda>g. map store (js_sort standing_cmp (filter (\<lambda>s. store_acc.group s = g) ?sp))) ?ks))
      = mset (map store (concat (map (\<lambda>g. filter (\<lambda>s. store_acc.group s = g) ?sp) ?ks)))"
    by (simp add: map_concat comp_def mset_concat_map_cong)
  moreover have "mset (concat (map (\<lambda>g. filter (\<lambda>s. store_acc.group s = g) ?sp) ?ks)) = mset ?sp"
    using store_group_key [OF assms] ks by (simp add: mset_concat_filter_keys filter_id_conv)
  ultimately have "mset (concat (map (\<lambda>(g, sts). map store sts) (groupStandings a))) = mset (map store ?sp)"
    by (metis mset_map)
  then show ?thesis
    using store_names_distinct [OF assms] mset_eq_imp_distinct_iff mset_eq_setD by blast
qed


theorem process_analytics_standings_partition_witness:
  "process_analytics [spec_m1, spec_m2] = Inr spec_bundle
   \<and> distinct (concat (map (\<lambda>(g, sts). map store sts) (groupStandings spec_bundle)))
   \<and> set (concat (map (\<lambda>(g, sts). map store sts) (groupStandings spec_bundle))) = set (map store (storePerformance spec_bundle))"
  using process_analytics_standings_partition [OF spec_bundle_eval] spec_bundle_eval by simp


subsection \<open>Behaviour at the edges\<close>

text \<open>
  Concrete runs of the model that show where the code departs from the specification: a
  store named \<open>constructor\<close> makes the function throw; a store named like an array
  index moves to the front of the store list; a match with zero sales gives NaN consistency
  and competitiveness; a negative sales figure leaves the best performance at its initial 0.
\<close>

lemma process_analytics_constructor_store:
  "process_analytics [spec_m1\<lparr>Team2 := ''constructor''\<rparr>] = Inl TypeError"
  by (simp add: spec_m1_def model_defs js_eval Let_def)

lemma process_analytics_index_store_first:
  "\<exists>a. process_analytics [spec_m1\<lparr>Team2 := ''7'', Winner := ''7''\<rparr>, spec_m2] = Inr a
     \<and> map store (storePerformance a) = [''7'', ''Alpha'', ''Gamma'']"
  by (simp add: spec_m1_def spec_m2_def model_defs js_eval Let_def)

lemma process_analytics_zero_sales:
  "\<exists>a. process_analytics [spec_m1\<lparr>Team1Sales := Num 0, Team2Sales := Num 0\<rparr>] = Inr a
     \<and> map consistency (storePerformance a) = [''NaN'', ''NaN'']
     \<and> map competitiveness (groupStats a) = [NaN]"
  by (simp add: spec_m1_def model_defs js_eval Let_def)

lemma process_analytics_negative_sales:
  "\<exists>a. process_analytics [spec_m1\<lparr>Team1Sales := Num (-5)\<rparr>] = Inr a
     \<and> bestPerformance (hd (storePerformance a)) = Num 0"
  by (simp add: spec_m1_def model_defs js_eval Let_def)

end
