(* ===== verification/Legacy.thy ===== *)
theory Legacy
  imports Analytics
begin

text \<open>
  The aggregation half of the legacy helper module \<open>src/src/utils/dataHelpers.js\<close>, which
  no component imports: \<open>calculateGroupStats\<close> (lines 41 to 83),
  \<open>calculateStorePerformance\<close> (lines 90 to 144) and the display helpers
  \<open>formatCurrency\<close>, \<open>getRankColor\<close> and \<open>getCompetitivenessLevel\<close> (lines 151 to 185).
  Its objects carry the same fields as those of \<open>processAnalytics\<close>, except that the group
  number is \<open>parseInt(...)\<close> without \<open>|| 0\<close> (so NaN for a name without a number) and a
  store has no \<open>recentForm\<close>. A store named like an \<open>Object.prototype\<close> property reads the
  inherited object, which the code then writes into instead of creating an entry; no output
  reads those writes, so the model leaves the dictionary unchanged. A group so named throws
  at \<open>.stores.add\<close>, as in \<open>processAnalytics\<close>.

  \<open>legacy_group_of\<close> and \<open>legacy_store_of\<close> forget what the legacy objects do not have;
  the refinement theorems C17 and C18 show that, whenever \<open>processAnalytics\<close> succeeds and
  every group name carries a number, the legacy functions return exactly the abstraction of
  its group statistics and store list.
\<close>

record legacy_group =
  group :: string
  groupNumber :: jsnum
  totalSales :: jsnum
  matches :: nat
  avgSalesPerMatch :: jsnum
  highestMatch :: jsnum
  lowestMatch :: jsnum
  stores :: "string list"
  totalMargin :: jsnum
  closestMatch :: jsnum

record legacy_group_stats = legacy_group +
  avgMargin :: jsnum
  storeCount :: nat
  competitiveness :: jsnum

record legacy_store =
  store :: string
  group :: string
  groupNumber :: jsnum
  totalSales :: jsnum
  matches :: nat
  wins :: nat
  losses :: nat
  avgSales :: jsnum
  points :: nat
  bestPerformance :: jsnum
  worstPerformance :: jsnum

record legacy_store_perf = legacy_store +
  winRate :: string
  consistency :: string

definition legacy_group_number :: "string \<Rightarrow> jsnum" where
  "legacy_group_number g =
     (case parse_int (js_replace_first ''Group '' [] g) of None \<Rightarrow> NaN | Some n \<Rightarrow> Num (real_of_int n))"

definition legacy_new_group :: "string \<Rightarrow> legacy_group" where
  "legacy_new_group g =
     \<lparr>legacy_group.group = g, legacy_group.groupNumber = legacy_group_number g,
      legacy_group.totalSales = Num 0, legacy_group.matches = 0, legacy_group.avgSalesPerMatch = Num 0,
      legacy_group.highestMatch = Num 0, legacy_group.lowestMatch = PosInf, legacy_group.stores = [],
      legacy_group.totalMargin = Num 0, legacy_group.closestMatch = PosInf\<rparr>"

definition legacy_update_group :: "match_record \<Rightarrow> legacy_group \<Rightarrow> legacy_group" where
  "legacy_update_group m lg =
     (let matchSales = js_add (Team1Sales m) (Team2Sales m);
          margin = js_abs (js_sub (Team1Sales m) (Team2Sales m))
      in lg\<lparr>legacy_group.totalSales := js_add (legacy_group.totalSales lg) matchSales,
            legacy_group.matches := legacy_group.matches lg + 1,
            legacy_group.highestMatch := js_max (legacy_group.highestMatch lg) matchSales,
            legacy_group.lowestMatch := js_min (legacy_group.lowestMatch lg) matchSales,
            legacy_group.stores := set_add (Team2 m) (set_add (Team1 m) (legacy_group.stores lg)),
            legacy_group.totalMargin := js_add (legacy_group.totalMargin lg) margin,
            legacy_group.closestMatch := js_min (legacy_group.closestMatch lg) margin\<rparr>)"

definition legacy_group_step :: "match_record \<Rightarrow> legacy_group jsobj \<Rightarrow> js_error + legacy_group jsobj" where
  "legacy_group_step m gs =
     (case obj_get gs (Group m) of
        Absent \<Rightarrow> Inr (obj_put (Group m) (legacy_update_group m (legacy_new_group (Group m))) gs)
      | Own lg \<Rightarrow> Inr (obj_put (Group m) (legacy_update_group m lg) gs)
      | Inherited \<Rightarrow> Inl TypeError)"

fun legacy_group_pass :: "legacy_group jsobj \<Rightarrow> match_record list \<Rightarrow> js_error + legacy_group jsobj" where
  "legacy_group_pass gs [] = Inr gs"
| "legacy_group_pass gs (m # ms) =
     (case legacy_group_step m gs of Inl e \<Rightarrow> Inl e | Inr gs' \<Rightarrow> legacy_group_pass gs' ms)"

definition legacy_finalize_group :: "legacy_group \<Rightarrow> legacy_group_stats" where
  "legacy_finalize_group lg =
     (let avg = js_div (legacy_group.totalSales lg) (Num (real (legacy_group.matches lg)));
          am = js_div (legacy_group.totalMargin lg) (Num (real (legacy_group.matches lg)))
      in legacy_group.extend (lg\<lparr>legacy_group.avgSalesPerMatch := avg\<rparr>)
           (legacy_group_stats.fields am (length (legacy_group.stores lg)) (js_mul (js_div am avg) (Num 100))))"

definition legacy_group_cmp :: "legacy_group_stats \<Rightarrow> legacy_group_stats \<Rightarrow> jsnum" where
  "legacy_group_cmp a b = js_sub (legacy_group.groupNumber a) (legacy_group.groupNumber b)"

definition calculate_group_stats :: "match_record list \<Rightarrow> js_error + legacy_group_stats list" where
  "calculate_group_stats ms =
     (case legacy_group_pass [] ms of
        Inl e \<Rightarrow> Inl e
      | Inr gs \<Rightarrow> Inr (js_sort legacy_group_cmp (map legacy_finalize_group (obj_values gs))))"

definition legacy_new_store :: "string \<Rightarrow> string \<Rightarrow> legacy_store" where
  "legacy_new_store s g =
     \<lparr>legacy_store.store = s, legacy_store.group = g, legacy_store.groupNumber = legacy_group_number g,
      legacy_store.totalSales = Num 0, legacy_store.matches = 0, legacy_store.wins = 0,
      legacy_store.losses = 0, legacy_store.avgSales = Num 0, legacy_store.points = 0,
      legacy_store.bestPerformance = Num 0, legacy_store.worstPerformance = PosInf\<rparr>"

definition legacy_update_store :: "jsnum \<Rightarrow> bool \<Rightarrow> legacy_store \<Rightarrow> legacy_store" where
  "legacy_update_store sales isWinner ls =
     (let ls' = ls\<lparr>legacy_store.totalSales := js_add (legacy_store.totalSales ls) sales,
                   legacy_store.matches := legacy_store.matches ls + 1,
                   legacy_store.bestPerformance := js_max (legacy_store.bestPerformance ls) sales,
                   legacy_store.worstPerformance := js_min (legacy_store.worstPerformance ls) sales\<rparr>
      in if isWinner then ls'\<lparr>legacy_store.wins := legacy_store.wins ls' + 1,
                              legacy_store.points := legacy_store.points ls' + 3\<rparr>
         else ls'\<lparr>legacy_store.losses := legacy_store.losses ls' + 1\<rparr>)"

definition legacy_store_step ::
  "string \<Rightarrow> string \<Rightarrow> jsnum \<Rightarrow> string \<Rightarrow> legacy_store jsobj \<Rightarrow> legacy_store jsobj" where
  "legacy_store_step s g sales winner sp =
     (case obj_get sp s of
        Absent \<Rightarrow> obj_put s (legacy_update_store sales (s = winner) (legacy_new_store s g)) sp
      | Own ls \<Rightarrow> obj_put s (legacy_update_store sales (s = winner) ls) sp
      | Inherited \<Rightarrow> sp)"

definition legacy_store_match :: "legacy_store jsobj \<Rightarrow> match_record \<Rightarrow> legacy_store jsobj" where
  "legacy_store_match sp m =
     legacy_store_step (Team2 m) (Group m) (Team2Sales m) (Winner m)
       (legacy_store_step (Team1 m) (Group m) (Team1Sales m) (Winner m) sp)"

definition legacy_finalize_store :: "legacy_store \<Rightarrow> legacy_store_perf" where
  "legacy_finalize_store ls =
     (let avg = js_div (legacy_store.totalSales ls) (Num (real (legacy_store.matches ls)))
      in legacy_store.extend (ls\<lparr>legacy_store.avgSales := avg\<rparr>)
           (legacy_store_perf.fields
              (to_fixed 1 (js_mul (js_div (Num (real (legacy_store.wins ls))) (Num (real (legacy_store.matches ls)))) (Num 100)))
              (to_fixed 1 (js_mul (js_div (js_sub (legacy_store.bestPerformance ls) (legacy_store.worstPerformance ls)) avg) (Num 100)))))"

definition calculate_store_performance :: "match_record list \<Rightarrow> legacy_store_perf list" where
  "calculate_store_performance ms = map legacy_finalize_store (obj_values (foldl legacy_store_match [] ms))"

definition format_currency :: "jsnum \<Rightarrow> string" where
  "format_currency value =
     (if js_ge value (Num 1000) then ''$'' @ to_fixed 1 (js_div value (Num 1000)) @ ''K''
      else ''$'' @ to_fixed 0 value)"

fun get_rank_color :: "nat \<Rightarrow> string" where
  "get_rank_color 0 = ''text-yellow-400''"
| "get_rank_color (Suc 0) = ''text-gray-300''"
| "get_rank_color (Suc (Suc 0)) = ''text-orange-400''"
| "get_rank_color _ = ''text-purple-300''"

definition get_competitiveness_level :: "jsnum \<Rightarrow> string \<times> string" where
  "get_competitiveness_level c =
     (let adjusted = js_sub (Num 100) c in
      if js_ge adjusted (Num 90) then (''Very High'', ''text-green-400'')
      else if js_ge adjusted (Num 70) then (''High'', ''text-yellow-400'')
      else (''Moderate'', ''text-red-400''))"

subsection \<open>Abstraction of the current objects\<close>

definition group_number_ok :: "string \<Rightarrow> bool" where
  "group_number_ok g \<longleftrightarrow> parse_int (js_replace_first ''Group '' [] g) \<noteq> None"

definition legacy_group_of :: "'a group_acc_scheme \<Rightarrow> legacy_group" where
  "legacy_group_of ga =
     \<lparr>legacy_group.group = group_acc.group ga,
      legacy_group.groupNumber = Num (real_of_int (group_acc.groupNumber ga)),
      legacy_group.totalSales = group_acc.totalSales ga, legacy_group.matches = group_acc.matches ga,
      legacy_group.avgSalesPerMatch = group_acc.avgSalesPerMatch ga, legacy_group.highestMatch = group_acc.highestMatch ga,
      legacy_group.lowestMatch = group_acc.lowestMatch ga, legacy_group.stores = group_acc.stores ga,
      legacy_group.totalMargin = group_acc.totalMargin ga, legacy_group.closestMatch = group_acc.closestMatch ga\<rparr>"

definition legacy_of_group :: "group_stats \<Rightarrow> legacy_group_stats" where
  "legacy_of_group g =
     legacy_group.extend (legacy_group_of g)
       (legacy_group_stats.fields (group_stats.avgMargin g) (group_stats.storeCount g) (group_stats.competitiveness g))"

definition legacy_store_of :: "'a store_acc_scheme \<Rightarrow> legacy_store" where
  "legacy_store_of sa =
     \<lparr>legacy_store.store = store_acc.store sa, legacy_store.group = store_acc.group sa,
      legacy_store.groupNumber = Num (real_of_int (store_acc.groupNumber sa)),
      legacy_store.totalSales = store_acc.totalSales sa, legacy_store.matches = store_acc.matches sa,
      legacy_store.wins = store_acc.wins sa, legacy_store.losses = store_acc.losses sa, legacy_store.avgSales = store_acc.avgSales sa,
      legacy_store.points = store_acc.points sa, legacy_store.bestPerformance = store_acc.bestPerformance sa,
      legacy_store.worstPerformance = store_acc.worstPerformance sa\<rparr>"

definition legacy_of_store :: "store_perf \<Rightarrow> legacy_store_perf" where
  "legacy_of_store sp =
     legacy_store.extend (legacy_store_of sp) (legacy_store_perf.fields (store_perf.winRate sp) (store_perf.consistency sp))"

lemma legacy_new_group_of:
  "group_number_ok g \<Longrightarrow> legacy_new_group g = legacy_group_of (new_group g)"
  by (auto simp: legacy_new_group_def legacy_group_of_def new_group_def legacy_group_number_def
      group_number_def group_number_ok_def)

lemma legacy_update_group_of:
  "legacy_update_group m (legacy_group_of ga) = legacy_group_of (update_group m ga)"
  by (simp add: legacy_update_group_def legacy_group_of_def update_group_def match_total_def match_diff_def Let_def)

lemma legacy_new_store_of:
  "group_number_ok g \<Longrightarrow> legacy_new_store s g = legacy_store_of (new_store s g)"
  by (auto simp: legacy_new_store_def legacy_store_of_def new_store_def legacy_group_number_def
      group_number_def group_number_ok_def)

lemma legacy_update_store_of:
  "legacy_update_store x w (legacy_store_of sa) = legacy_store_of (update_store x w sa)"
  by (simp add: legacy_update_store_def legacy_store_of_def update_store_def Let_def)

lemma legacy_group_step_sim:
  assumes "group_step m gs = Inr gs'" and "group_number_ok (Group m)"
  shows "legacy_group_step m (obj_map legacy_group_of gs) = Inr (obj_map legacy_group_of gs')"
  using assms
  by (auto simp: group_step_def legacy_group_step_def obj_get_obj_map legacy_new_group_of
      legacy_update_group_of obj_put_obj_map split: jsprop.splits)

lemma legacy_store_step_sim:
  assumes "store_step s g x w sp = Inr sp'" and "group_number_ok g"
  shows "legacy_store_step s g x w (obj_map legacy_store_of sp) = obj_map legacy_store_of sp'"
  using assms
  by (auto simp: store_step_def legacy_store_step_def obj_get_obj_map legacy_new_store_of
      legacy_update_store_of obj_put_obj_map split: jsprop.splits)

lemma legacy_pass_sim:
  assumes "process_all st ms = Inr st'" and "\<forall>m \<in> set ms. group_number_ok (Group m)"
  shows "legacy_group_pass (obj_map legacy_group_of (acc_groups st)) ms = Inr (obj_map legacy_group_of (acc_groups st'))
    \<and> foldl legacy_store_match (obj_map legacy_store_of (acc_stores st)) ms = obj_map legacy_store_of (acc_stores st')"
  using assms
proof (induction ms arbitrary: st)
  case Nil
  then show ?case by simp
next
  case (Cons m ms)
  from Cons.prems(1) obtain st1 where m: "process_match st m = Inr st1" and rest: "process_all st1 ms = Inr st'"
    by (auto split: sum.splits)
  from m obtain sp1 where
    g: "group_step m (acc_groups st) = Inr (acc_groups st1)" and
    s1: "store_step (Team1 m) (Group m) (Team1Sales m) (Winner m) (acc_stores st) = Inr sp1" and
    s2: "store_step (Team2 m) (Group m) (Team2Sales m) (Winner m) sp1 = Inr (acc_stores st1)"
    by (auto simp: process_match_def split: sum.splits)
  have ok: "group_number_ok (Group m)" using Cons.prems(2) by simp
  from Cons.IH [OF rest] Cons.prems(2) legacy_group_step_sim [OF g ok]
    legacy_store_step_sim [OF s1 ok] legacy_store_step_sim [OF s2 ok]
  show ?case by (simp add: legacy_store_match_def)
qed

lemma legacy_finalize_group_of: "legacy_finalize_group (legacy_group_of ga) = legacy_of_group (finalize_group ga)"
  by (simp add: legacy_finalize_group_def legacy_of_group_def finalize_group_def legacy_group_of_def Let_def
      group_acc.extend_def group_stats.fields_def legacy_group.extend_def legacy_group_stats.fields_def)

lemma legacy_finalize_store_of: "legacy_finalize_store (legacy_store_of sa) = legacy_of_store (finalize_store sa)"
  by (simp add: legacy_finalize_store_def legacy_of_store_def finalize_store_def legacy_store_of_def Let_def
      store_acc.extend_def store_perf.fields_def legacy_store.extend_def legacy_store_perf.fields_def)

lemma legacy_group_cmp_of: "legacy_group_cmp (legacy_of_group a) (legacy_of_group b) = group_cmp a b"
  by (simp add: legacy_group_cmp_def group_cmp_def legacy_of_group_def legacy_group_of_def
      legacy_group.extend_def js_sub_def)

text \<open>
  C17. When \<open>processAnalytics\<close> returns a bundle and every group name has a number after
  \<open>Group \<close>, \<open>calculateGroupStats\<close> returns the bundle's group statistics (same order, same
  values), forgetting nothing but the integer type of the group number.
\<close>

theorem calculate_group_stats_refines:
  assumes "process_analytics ms = Inr a" and "\<forall>m \<in> set ms. group_number_ok (Group m)"
  shows "calculate_group_stats ms = Inr (map legacy_of_group (groupStats a))"
proof (cases "ms = []")
  case True
  with assms show ?thesis
    by (auto simp: calculate_group_stats_def process_analytics_def empty_analytics_def obj_values_def obj_entries_def js_sort_def)
next
  case False
  from assms(1) False obtain st where st: "process_all init_state ms = Inr st"
    and gs: "groupStats a = js_sort group_cmp (map finalize_group (obj_values (acc_groups st)))"
    by (rule process_analytics_Inr)
  from legacy_pass_sim [OF st assms(2)]
  have "legacy_group_pass [] ms = Inr (obj_map legacy_group_of (acc_groups st))"
    by (simp add: init_state_def obj_map_def)
  then show ?thesis
    by (simp add: calculate_group_stats_def gs obj_values_obj_map comp_def legacy_finalize_group_of
        js_sort_map [of legacy_group_cmp legacy_of_group group_cmp, OF legacy_group_cmp_of, symmetric])
qed

theorem calculate_group_stats_refines_witness:
  "calculate_group_stats [spec_m1, spec_m2] = Inr (map legacy_of_group (groupStats spec_bundle))"
proof -
  have h: "\<forall>m \<in> set [spec_m1, spec_m2]. group_number_ok (Group m)"
    by (simp add: spec_m1_def spec_m2_def group_number_ok_def js_eval)
  show ?thesis by (rule calculate_group_stats_refines [OF spec_bundle_eval h])
qed

text \<open>
  C18. Under the same conditions \<open>calculateStorePerformance\<close> returns the bundle's store list,
  store by store, without the recent form.
\<close>

theorem calculate_store_performance_refines:
  assumes "process_analytics ms = Inr a" and "\<forall>m \<in> set ms. group_number_ok (Group m)"
  shows "calculate_store_performance ms = map legacy_of_store (storePerformance a)"
proof (cases "ms = []")
  case True
  with assms show ?thesis
    by (auto simp: calculate_store_performance_def process_analytics_def empty_analytics_def obj_values_def obj_entries_def)
next
  case False
  from assms(1) False obtain st where st: "process_all init_state ms = Inr st"
    and sp: "storePerformance a = map finalize_store (obj_values (acc_stores st))"
    by (rule process_analytics_Inr)
  from legacy_pass_sim [OF st assms(2)]
  have "foldl legacy_store_match [] ms = obj_map legacy_store_of (acc_stores st)"
    by (simp add: init_state_def obj_map_def)
  then show ?thesis
    by (simp add: calculate_store_performance_def sp obj_values_obj_map comp_def legacy_finalize_store_of)
qed

theorem calculate_store_performance_refines_witness:
  "calculate_store_performance [spec_m1, spec_m2] = map legacy_of_store (storePerformance spec_bundle)"
proof -
  have h: "\<forall>m \<in> set [spec_m1, spec_m2]. group_number_ok (Group m)"
    by (simp add: spec_m1_def spec_m2_def group_number_ok_def js_eval)
  show ?thesis by (rule calculate_store_performance_refines [OF spec_bundle_eval h])
qed

text \<open>
  Where the two modules differ: a group name without a number gets group number NaN here and
  0 in \<open>processAnalytics\<close>; a store named \<open>constructor\<close> is silently left out here while
  \<open>processAnalytics\<close> throws.
\<close>

lemma legacy_group_number_unparsed:
  "legacy_group_number ''Group A'' = NaN \<and> group_number ''Group A'' = 0"
  by (simp add: legacy_group_number_def group_number_def js_eval)

lemma legacy_constructor_store:
  "map legacy_store.store (calculate_store_performance [spec_m1\<lparr>Team2 := ''constructor''\<rparr>]) = [''Alpha'']
   \<and> process_analytics [spec_m1\<lparr>Team2 := ''constructor''\<rparr>] = Inl TypeError"
  by (simp add: calculate_store_performance_def legacy_store_match_def legacy_store_step_def
      legacy_new_store_def legacy_update_store_def legacy_finalize_store_def legacy_store.extend_def
      legacy_store_perf.fields_def legacy_group_number_def spec_m1_def model_defs js_eval Let_def)

lemma get_competitiveness_level_num:
  "get_competitiveness_level (Num r) =
     (if r \<le> 10 then (''Very High'', ''text-green-400'') else if r \<le> 30 then (''High'', ''text-yellow-400'')
      else (''Moderate'', ''text-red-400''))"
  by (simp add: get_competitiveness_level_def js_ge_def js_sub_def)

lemma get_competitiveness_level_NaN: "get_competitiveness_level NaN = (''Moderate'', ''text-red-400'')"
  by (simp add: get_competitiveness_level_def js_ge_def js_sub_def)

lemma format_currency_examples:
  "format_currency (Num 1250) = ''$1.3K'' \<and> format_currency (Num 999.5) = ''$1000'' \<and> format_currency NaN = ''$NaN''"
  by (simp add: format_currency_def js_ge_def js_eval)

end
