(* ===== verification/Legacy_Parse.thy ===== *)
theory Legacy_Parse
  imports CSV_Parser
begin

text \<open>
  The CSV reader of the legacy helper module \<open>src/src/utils/dataHelpers.js\<close>
  (\<open>parseCSVData\<close>, lines 11 to 34), which no component imports. It splits the trimmed text
  on newlines and every line after the first on commas, with no quote handling, no trimming,
  no skipping of blank or short lines and no \<open>|| 0\<close> on the numbers: a missing field is
  \<open>undefined\<close> (\<open>None\<close>) and \<open>parseFloat(undefined)\<close> is NaN. The header row is split and
  not used. The theorems relate it to the parser of \<open>salesApi.js\<close>: on a line without
  quotes the quote-aware loop is the plain split with each field trimmed (C15), and on a
  feed of clean lines both readers give the same records (C16).
\<close>

record legacy_row =
  Date :: "string option"
  Group :: "string option"
  No :: "string option"
  Matches :: "string option"
  Team1 :: "string option"
  Team2 :: "string option"
  Team1Sales :: jsnum
  Team2Sales :: jsnum
  Winner :: "string option"
  Loser :: "string option"
  Winner_1 :: jsnum
  Loser_2 :: jsnum
  TotalWinner :: jsnum
  TotalLoser :: jsnum

definition js_at :: "'a list \<Rightarrow> nat \<Rightarrow> 'a option" where
  "js_at xs i = (if i < length xs then Some (xs ! i) else None)"

definition legacy_float :: "string option \<Rightarrow> jsnum" where
  "legacy_float v = (case v of None \<Rightarrow> NaN | Some s \<Rightarrow> parse_float s)"

definition legacy_row_of_line :: "string \<Rightarrow> legacy_row" where
  "legacy_row_of_line line =
     (let values = js_split CHR '','' line in
      \<lparr>legacy_row.Date = js_at values 0, legacy_row.Group = js_at values 1,
       legacy_row.No = js_at values 2, legacy_row.Matches = js_at values 3,
       legacy_row.Team1 = js_at values 4, legacy_row.Team2 = js_at values 5,
       legacy_row.Team1Sales = legacy_float (js_at values 6),
       legacy_row.Team2Sales = legacy_float (js_at values 7),
       legacy_row.Winner = js_at values 8, legacy_row.Loser = js_at values 9,
       legacy_row.Winner_1 = legacy_float (js_at values 10),
       legacy_row.Loser_2 = legacy_float (js_at values 11),
       legacy_row.TotalWinner = legacy_float (js_at values 12),
       legacy_row.TotalLoser = legacy_float (js_at values 13)\<rparr>)"

definition legacy_parse_csv :: "string \<Rightarrow> legacy_row list" where
  "legacy_parse_csv csvData =
     (let lines = js_split CHR ''\<newline>'' (js_trim csvData);
          headers = js_split CHR '','' (hd lines)
      in map legacy_row_of_line (tl lines))"

definition legacy_of_record :: "match_record \<Rightarrow> legacy_row" where
  "legacy_of_record r =
     \<lparr>legacy_row.Date = Some (match_record.Date r), legacy_row.Group = Some (match_record.Group r),
      legacy_row.No = Some (match_record.No r), legacy_row.Matches = Some (match_record.Matches r),
      legacy_row.Team1 = Some (match_record.Team1 r), legacy_row.Team2 = Some (match_record.Team2 r),
      legacy_row.Team1Sales = match_record.Team1Sales r, legacy_row.Team2Sales = match_record.Team2Sales r,
      legacy_row.Winner = Some (match_record.Winner r), legacy_row.Loser = Some (match_record.Loser r),
      legacy_row.Winner_1 = match_record.Winner_1 r, legacy_row.Loser_2 = match_record.Loser_2 r,
      legacy_row.TotalWinner = match_record.TotalWinner r, legacy_row.TotalLoser = match_record.TotalLoser r\<rparr>"

definition clean_line :: "string \<Rightarrow> bool" where
  "clean_line l \<longleftrightarrow> CHR 0x22 \<notin> set l \<and> js_trim l \<noteq> [] \<and> 14 \<le> length (js_split CHR '','' l)
     \<and> (\<forall>v \<in> set (js_split CHR '','' l). js_trim v = v)
     \<and> (\<forall>i \<in> {6, 7, 10, 11, 12, 13}. parse_float (js_split CHR '','' l ! i) \<noteq> NaN)"

text \<open>A two-line feed whose data line is clean.\<close>

definition clean_feed :: string where
  "clean_feed = ''Date,Group,No,Matches,Team1,Team2,Team1Sales,Team2Sales,Winner,Loser,Winner_1,Loser_2,TotalWinner,TotalLoser\<newline>''
     @ ''28/11/2025,Group 1,1,M1,Alpha,Beta,100,200,Beta,Alpha,200,100,200,100''"

lemma csv_line_loop_no_quote:
  "CHR 0x22 \<notin> set l \<Longrightarrow>
     csv_line_loop l vals cur False
       = vals @ map js_trim (case js_split CHR '','' l of p # ps \<Rightarrow> (cur @ p) # ps)"
proof (induction l arbitrary: vals cur)
  case Nil
  then show ?case by simp
next
  case (Cons x xs)
  obtain p ps where sp: "js_split CHR '','' xs = p # ps"
    by (cases "js_split CHR '','' xs") auto
  from Cons.prems have x: "x \<noteq> CHR 0x22" and xs: "CHR 0x22 \<notin> set xs" by auto
  show ?case
  proof (cases "x = CHR '',''")
    case True
    with x Cons.IH [OF xs, of "vals @ [js_trim cur]" "[]"] sp show ?thesis by simp
  next
    case False
    with x Cons.IH [OF xs, of vals "cur @ [x]"] sp show ?thesis by simp
  qed
qed

text \<open>
  C15. On a line without double quotes, \<open>parseCSVLine\<close> of \<open>salesApi.js\<close> is the plain
  \<open>line.split(',')\<close> with every field trimmed: the quote handling is the only difference
  between the two readers' field splitting.
\<close>

theorem parse_csv_line_no_quote:
  "CHR 0x22 \<notin> set l \<Longrightarrow> parse_csv_line l = map js_trim (js_split CHR '','' l)"
  using csv_line_loop_no_quote [of l "[]" "[]"]
  by (cases "js_split CHR '','' l") (simp_all add: parse_csv_line_def)

theorem parse_csv_line_no_quote_witness:
  "CHR 0x22 \<notin> set ''a, b,c'' \<and> parse_csv_line ''a, b,c'' = map js_trim (js_split CHR '','' ''a, b,c'')"
  using parse_csv_line_no_quote [of "''a, b,c''"] by simp

lemma legacy_row_clean:
  assumes "clean_line l"
  shows "legacy_row_of_line l = legacy_of_record (row_of_values (parse_csv_line l))"
proof -
  let ?vs = "js_split CHR '','' l"
  from assms have q: "CHR 0x22 \<notin> set l" and len: "14 \<le> length ?vs"
    and tr: "\<forall>v \<in> set ?vs. js_trim v = v"
    and nums: "\<forall>i \<in> {6, 7, 10, 11, 12, 13}. parse_float (?vs ! i) \<noteq> NaN"
    by (auto simp: clean_line_def)
  have p: "parse_csv_line l = ?vs"
    using tr by (simp add: parse_csv_line_no_quote [OF q] map_idI)
  have nf: "num_field (?vs ! i) = legacy_float (js_at ?vs i)" if "i \<in> {6, 7, 10, 11, 12, 13}" for i
    using that nums len by (cases "parse_float (?vs ! i)") (auto simp: num_field_def legacy_float_def js_at_def)
  have at: "js_at ?vs i = Some (?vs ! i)" if "i < 14" for i
    using that len by (simp add: js_at_def)
  show ?thesis
    by (simp add: legacy_row_of_line_def legacy_of_record_def row_of_values_def p at nf Let_def)
qed

lemma clean_line_valid: "clean_line l \<Longrightarrow> valid_line l"
  by (simp add: clean_line_def valid_line_def parse_csv_line_no_quote)

text \<open>
  C16. On a feed of at least two lines whose data lines are clean (no quote, not blank, at
  least 14 fields, no surrounding white space, numeric fields that parse), the legacy
  reader and \<open>parseCSVData\<close> of \<open>salesApi.js\<close> return the same records, the legacy
  strings being defined.
\<close>

theorem legacy_parse_csv_agrees:
  assumes "2 \<le> length (js_split CHR ''\<newline>'' (js_trim t))"
    and "\<forall>l \<in> set (tl (js_split CHR ''\<newline>'' (js_trim t))). clean_line l"
  shows "\<exists>rs. parse_csv_data t = Inr rs \<and> legacy_parse_csv t = map legacy_of_record rs"
proof -
  let ?ls = "tl (js_split CHR ''\<newline>'' (js_trim t))"
  have good: "filter valid_line ?ls = ?ls"
    using assms(2) clean_line_valid by (simp add: filter_id_conv)
  have ne: "?ls \<noteq> []"
    using assms(1) by (cases "js_split CHR ''\<newline>'' (js_trim t)") auto
  have "parse_csv_data t = Inr (map (row_of_values \<circ> parse_csv_line) ?ls)"
    using assms(1) good ne by (simp add: parse_csv_data_cases Let_def)
  moreover have "legacy_parse_csv t = map legacy_of_record (map (row_of_values \<circ> parse_csv_line) ?ls)"
    using assms(2) legacy_row_clean by (simp add: legacy_parse_csv_def Let_def)
  ultimately show ?thesis by blast
qed

theorem legacy_parse_csv_agrees_witness:
  "\<exists>rs. parse_csv_data clean_feed = Inr rs \<and> legacy_parse_csv clean_feed = map legacy_of_record rs"
proof -
  have h1: "2 \<le> length (js_split CHR ''\<newline>'' (js_trim clean_feed))"
    by (simp add: clean_feed_def js_eval)
  have h2: "\<forall>l \<in> set (tl (js_split CHR ''\<newline>'' (js_trim clean_feed))). clean_line l"
    by (simp add: clean_feed_def clean_line_def js_eval)
  show ?thesis by (rule legacy_parse_csv_agrees [OF h1 h2])
qed

text \<open>
  On the sample feed of the parser theory the legacy reader returns three rows where
  \<open>parseCSVData\<close> returns one: the blank line and the short row become rows of undefined
  fields and NaN, and the \<open>N/A\<close> sales field is NaN rather than 0.
\<close>

lemma legacy_parse_sample_feed:
  "map legacy_row.Team2Sales (legacy_parse_csv sample_feed) = [NaN, NaN, Num 50]"
  by (simp add: sample_feed_def legacy_parse_csv_def legacy_row_of_line_def legacy_float_def js_at_def js_eval Let_def)

end
