(* ===== verification/Fetch.thy ===== *)
theory Fetch
  imports CSV_Parser
begin

text \<open>
  \<open>fetchSalesData\<close> (\<open>src/src/api/salesApi.js\<close>, lines 67 to 98). The network is a
  parameter: \<open>fetch\<close> maps the requested URL to its outcome, a rejected promise carrying
  the error message (\<open>NetworkError\<close>) or a response with status, status text and body
  (\<open>Response\<close>). The build mode (\<open>import.meta.env.MODE\<close>) chooses the base URL. Every
  error is caught and rethrown as one message, rewritten to a hint when it mentions
  \<open>Failed to fetch\<close>; the result is the error message (\<open>Inl\<close>) or the parsed records
  (\<open>Inr\<close>). Reading the body (\<open>response.text()\<close>) is assumed not to fail, and the
  \<open>console.error\<close> call is output only.
\<close>

datatype fetch_outcome = NetworkError string | Response nat string string

definition response_ok :: "nat \<Rightarrow> bool" where
  "response_ok st \<longleftrightarrow> 200 \<le> st \<and> st \<le> 299"

datatype build_mode = Development | Production

definition network_hint :: string where
  "network_hint = ''Network error: Make sure the dev server is running.''"

definition fetch_error_message :: "string \<Rightarrow> string" where
  "fetch_error_message msg = (if js_includes msg ''Failed to fetch'' then network_hint else msg)"

definition base_url :: "build_mode \<Rightarrow> string" where
  "base_url mode = (if mode = Development then ''/api'' else ''https://spl.starphones.com.au'')"

definition fetch_sales_data :: "build_mode \<Rightarrow> (string \<Rightarrow> fetch_outcome) \<Rightarrow> string + match_record list" where
  "fetch_sales_data mode fetch =
     (case fetch (base_url mode @ ''/matches.csv'') of
        NetworkError msg \<Rightarrow> Inl (fetch_error_message msg)
      | Response st statusText csvText \<Rightarrow>
          (if \<not> response_ok st
           then Inl (fetch_error_message (''HTTP '' @ nat_str st @ '': '' @ statusText))
           else if js_trim csvText = []
           then Inl (fetch_error_message ''Received empty response from server'')
           else (case parse_csv_data csvText of
                   Inl e \<Rightarrow> Inl (fetch_error_message (parse_csv_error_text e))
                 | Inr rs \<Rightarrow> Inr rs)))"

lemma parse_csv_data_nonempty: "parse_csv_data t = Inr rs \<Longrightarrow> rs \<noteq> []"
  by (auto simp: parse_csv_data_def Let_def split: if_splits)

text \<open>
  C19. \<open>fetchSalesData\<close> returns records exactly when the request to
  \<open><base>/matches.csv\<close> gets a 2xx response whose body is not blank and parses; the
  records are then the parser's, and there is at least one.
\<close>

theorem fetch_sales_data_Inr:
  "fetch_sales_data mode fetch = Inr rs \<longleftrightarrow>
     (\<exists>st txt body. fetch (base_url mode @ ''/matches.csv'') = Response st txt body \<and> response_ok st
        \<and> js_trim body \<noteq> [] \<and> parse_csv_data body = Inr rs \<and> rs \<noteq> [])"
  by (auto simp: fetch_sales_data_def dest: parse_csv_data_nonempty split: fetch_outcome.splits sum.splits)

lemma fetch_sales_data_nonempty: "fetch_sales_data mode fetch = Inr rs \<Longrightarrow> rs \<noteq> []"
  by (auto simp: fetch_sales_data_def dest: parse_csv_data_nonempty split: fetch_outcome.splits sum.splits if_splits)

lemma fetch_error_message_cases:
  "fetch_error_message m = network_hint \<or> (\<not> js_includes m ''Failed to fetch'' \<and> fetch_error_message m = m)"
  by (simp add: fetch_error_message_def)

text \<open>
  C20. Every failure reaches the caller as one message: the hint for a message mentioning
  \<open>Failed to fetch\<close>, and otherwise, verbatim, the network error, \<open>HTTP <status>: <text>\<close>
  for a non-2xx response, the empty-response message for a blank body, or the parser's
  \<open>Failed to parse CSV: ...\<close> message.
\<close>

theorem fetch_sales_data_error:
  assumes "fetch_sales_data mode fetch = Inl msg"
  shows "msg = network_hint \<or> (\<not> js_includes msg ''Failed to fetch'' \<and>
     ((\<exists>e. fetch (base_url mode @ ''/matches.csv'') = NetworkError e \<and> msg = e)
      \<or> (\<exists>st txt body. fetch (base_url mode @ ''/matches.csv'') = Response st txt body \<and> \<not> response_ok st
           \<and> msg = ''HTTP '' @ nat_str st @ '': '' @ txt)
      \<or> (\<exists>st txt body. fetch (base_url mode @ ''/matches.csv'') = Response st txt body \<and> response_ok st
           \<and> js_trim body = [] \<and> msg = ''Received empty response from server'')
      \<or> (\<exists>st txt body e. fetch (base_url mode @ ''/matches.csv'') = Response st txt body \<and> response_ok st
           \<and> js_trim body \<noteq> [] \<and> parse_csv_data body = Inl e \<and> msg = parse_csv_error_text e)))"
proof (cases "fetch (base_url mode @ ''/matches.csv'')")
  case (NetworkError e)
  with assms have "msg = fetch_error_message e" by (simp add: fetch_sales_data_def)
  with fetch_error_message_cases [of e] NetworkError show ?thesis by auto
next
  case (Response st stxt body)
  show ?thesis
  proof (cases "response_ok st")
    case False
    with assms Response have "msg = fetch_error_message (''HTTP '' @ nat_str st @ '': '' @ stxt)"
      by (simp add: fetch_sales_data_def)
    with fetch_error_message_cases [of "''HTTP '' @ nat_str st @ '': '' @ stxt"] Response False
    show ?thesis by auto
  next
    case ok: True
    show ?thesis
    proof (cases "js_trim body = []")
      case True
      with assms Response ok have "msg = fetch_error_message ''Received empty response from server''"
        by (simp add: fetch_sales_data_def)
      with fetch_error_message_cases [of "''Received empty response from server''"] Response ok True
      show ?thesis by auto
    next
      case False
      with assms Response ok obtain e where e: "parse_csv_data body = Inl e"
        and "msg = fetch_error_message (parse_csv_error_text e)"
        by (auto simp: fetch_sales_data_def split: sum.splits)
      with fetch_error_message_cases [of "parse_csv_error_text e"] Response ok False
      show ?thesis by auto
    qed
  qed
qed

theorem fetch_sales_data_error_witness:
  "fetch_sales_data Production (\<lambda>_. Response 404 ''Not Found'' []) = Inl ''HTTP 404: Not Found''
   \<and> (''HTTP 404: Not Found'' = network_hint \<or> (\<not> js_includes ''HTTP 404: Not Found'' ''Failed to fetch'' \<and>
     ((\<exists>e. (\<lambda>_. Response 404 ''Not Found'' []) (base_url Production @ ''/matches.csv'') = NetworkError e \<and> ''HTTP 404: Not Found'' = e)
      \<or> (\<exists>st txt body. (\<lambda>_. Response 404 ''Not Found'' []) (base_url Production @ ''/matches.csv'') = Response st txt body
           \<and> \<not> response_ok st \<and> ''HTTP 404: Not Found'' = ''HTTP '' @ nat_str st @ '': '' @ txt)
      \<or> (\<exists>st txt body. (\<lambda>_. Response 404 ''Not Found'' []) (base_url Production @ ''/matches.csv'') = Response st txt body
           \<and> response_ok st \<and> js_trim body = [] \<and> ''HTTP 404: Not Found'' = ''Received empty response from server'')
      \<or> (\<exists>st txt body e. (\<lambda>_. Response 404 ''Not Found'' []) (base_url Production @ ''/matches.csv'') = Response st txt body
           \<and> response_ok st \<and> js_trim body \<noteq> [] \<and> parse_csv_data body = Inl e \<and> ''HTTP 404: Not Found'' = parse_csv_error_text e))))"
proof -
  have h: "fetch_sales_data Production (\<lambda>_. Response 404 ''Not Found'' []) = Inl ''HTTP 404: Not Found''"
    by (simp add: fetch_sales_data_def response_ok_def fetch_error_message_def js_eval)
  show ?thesis using fetch_sales_data_error [OF h] h by simp
qed

text \<open>
  The hint depends on the browser's wording: a network failure reported as
  \<open>NetworkError when attempting to fetch resource.\<close> (Firefox) reaches the user verbatim.
\<close>

lemma fetch_sales_data_firefox_network_error:
  "fetch_sales_data Development (\<lambda>_. NetworkError ''NetworkError when attempting to fetch resource.'')
     = Inl ''NetworkError when attempting to fetch resource.''"
  by (simp add: fetch_sales_data_def fetch_error_message_def)

end
