(* ===== verification/Proxy.thy ===== *)
theory Proxy
  imports Fetch JS_Object
begin

text \<open>
  The three serverless relays under \<open>src/src/api/\<close>: \<open>matches.js\<close>, \<open>proxy.js\<close> and
  \<open>fetch-matches.js\<close> (with its \<open>options\<close> preflight handler). A handler is a function of
  the upstream outcome to the response it writes: status, headers (\<open>res.setHeader\<close>, the
  last value of a name wins) and body (\<open>res.send\<close> text, \<open>res.json\<close> value, or
  \<open>res.end()\<close>). Headers the hosting platform adds by itself are not modelled; JSON
  parsing of an upstream body (\<open>response.json()\<close>) is a parameter.
\<close>

datatype json = JStr string | JObj "(string \<times> json) list"

datatype resp_body = BText string | BJson json | BEmpty

record http_response =
  status :: nat
  resp_headers :: "(string \<times> string) list"
  resp_body :: resp_body

definition res0 :: http_response where
  "res0 = \<lparr>status = 200, resp_headers = [], resp_body = BEmpty\<rparr>"

definition set_header :: "string \<Rightarrow> string \<Rightarrow> http_response \<Rightarrow> http_response" where
  "set_header k v r = r\<lparr>resp_headers := AList.update k v (resp_headers r)\<rparr>"

definition res_send :: "nat \<Rightarrow> string \<Rightarrow> http_response \<Rightarrow> http_response" where
  "res_send s x r = r\<lparr>status := s, resp_body := BText x\<rparr>"

definition res_json :: "nat \<Rightarrow> json \<Rightarrow> http_response \<Rightarrow> http_response" where
  "res_json s j r = r\<lparr>status := s, resp_body := BJson j\<rparr>"

definition res_end :: "nat \<Rightarrow> http_response \<Rightarrow> http_response" where
  "res_end s r = r\<lparr>status := s, resp_body := BEmpty\<rparr>"

definition upstream_csv_url :: string where
  "upstream_csv_url = ''https://spl.starphones.com.au/matches.csv''"

definition matches_handler :: "(string \<Rightarrow> fetch_outcome) \<Rightarrow> http_response" where
  "matches_handler fetch =
     (case fetch upstream_csv_url of
        NetworkError _ \<Rightarrow> res_json 500 (JObj [(''error'', JStr ''Server proxy failed'')]) res0
      | Response st statusText csv \<Rightarrow>
          (if \<not> response_ok st then res_send st ''Error fetching CSV'' res0
           else res_send 200 csv
                  (set_header ''Content-Type'' ''text/csv''
                  (set_header ''Access-Control-Allow-Headers'' ''Content-Type''
                  (set_header ''Access-Control-Allow-Methods'' ''GET''
                  (set_header ''Access-Control-Allow-Origin'' ''*'' res0))))))"

definition proxy_handler ::
  "string \<Rightarrow> (string \<Rightarrow> fetch_outcome) \<Rightarrow> (string \<Rightarrow> json option) \<Rightarrow> http_response" where
  "proxy_handler reqUrl fetch parse_json =
     (let path = js_replace_first ''/api/'' [] reqUrl;
          url = ''https://spl.starphones.com.au/'' @ path;
          failed = res_json 500 (JObj [(''error'', JStr ''Proxy failed'')]) res0
      in case fetch url of
           NetworkError _ \<Rightarrow> failed
         | Response st statusText body \<Rightarrow>
             (case parse_json body of
                None \<Rightarrow> failed
              | Some data \<Rightarrow> res_json 200 data (set_header ''Content-Type'' ''application/json'' res0)))"

definition fetch_matches_error :: "string \<Rightarrow> http_response" where
  "fetch_matches_error msg =
     res_json 500 (JObj [(''error'', JStr ''Failed to fetch CSV data''), (''message'', JStr msg)])
       (set_header ''Content-Type'' ''application/json''
       (set_header ''Access-Control-Allow-Origin'' ''*'' res0))"

definition fetch_matches_handler :: "(string \<Rightarrow> fetch_outcome) \<Rightarrow> http_response" where
  "fetch_matches_handler fetch =
     (case fetch upstream_csv_url of
        NetworkError msg \<Rightarrow> fetch_matches_error msg
      | Response st statusText csvText \<Rightarrow>
          (if \<not> response_ok st
           then fetch_matches_error (''External server error: '' @ nat_str st @ '' '' @ statusText)
           else res_send 200 csvText
                  (set_header ''Cache-Control'' ''public, max-age=300, s-maxage=600''
                  (set_header ''Content-Type'' ''text/csv''
                  (set_header ''Access-Control-Allow-Headers'' ''Content-Type''
                  (set_header ''Access-Control-Allow-Methods'' ''GET, OPTIONS''
                  (set_header ''Access-Control-Allow-Origin'' ''*'' res0)))))))"

definition options_handler :: http_response where
  "options_handler =
     res_end 200
       (set_header ''Access-Control-Allow-Headers'' ''Content-Type''
       (set_header ''Access-Control-Allow-Methods'' ''GET, OPTIONS''
       (set_header ''Access-Control-Allow-Origin'' ''*'' res0)))"

definition header :: "http_response \<Rightarrow> string \<Rightarrow> string option" where
  "header r k = map_of (resp_headers r) k"

lemma header_set [simp]:
  "header (set_header k v r) k' = (if k' = k then Some v else header r k')"
  by (simp add: header_def set_header_def update_conv')

lemma header_res0 [simp]: "header res0 k = None"
  by (simp add: header_def res0_def)

lemma response_fields [simp]:
  "status (res_send s x r) = s" "resp_body (res_send s x r) = BText x" "header (res_send s x r) k = header r k"
  "status (res_json s j r) = s" "resp_body (res_json s j r) = BJson j" "header (res_json s j r) k = header r k"
  "status (res_end s r) = s" "resp_body (res_end s r) = BEmpty" "header (res_end s r) k = header r k"
  by (simp_all add: res_send_def res_json_def res_end_def header_def)

text \<open>
  C21. When the upstream answers 2xx, \<open>fetch-matches.js\<close> returns 200 with the upstream body
  as \<open>text/csv\<close> and \<open>Access-Control-Allow-Origin: *\<close>, as the relay contract of the
  specification requires.
\<close>

theorem fetch_matches_handler_ok:
  assumes "fetch upstream_csv_url = Response st txt body" and "response_ok st"
  shows "status (fetch_matches_handler fetch) = 200 \<and> resp_body (fetch_matches_handler fetch) = BText body
    \<and> header (fetch_matches_handler fetch) ''Content-Type'' = Some ''text/csv''
    \<and> header (fetch_matches_handler fetch) ''Access-Control-Allow-Origin'' = Some ''*''"
  using assms by (simp add: fetch_matches_handler_def)

theorem fetch_matches_handler_ok_witness:
  "status (fetch_matches_handler (\<lambda>_. Response 200 ''OK'' ''a,b'')) = 200
   \<and> resp_body (fetch_matches_handler (\<lambda>_. Response 200 ''OK'' ''a,b'')) = BText ''a,b''
   \<and> header (fetch_matches_handler (\<lambda>_. Response 200 ''OK'' ''a,b'')) ''Content-Type'' = Some ''text/csv''
   \<and> header (fetch_matches_handler (\<lambda>_. Response 200 ''OK'' ''a,b'')) ''Access-Control-Allow-Origin'' = Some ''*''"
  using fetch_matches_handler_ok [of "\<lambda>_. Response 200 ''OK'' ''a,b''" 200 "''OK''" "''a,b''"]
  by (simp add: response_ok_def)

text \<open>
  C22. Otherwise (network failure or non-2xx status) it returns 500 with the JSON body
  \<open>{error, message}\<close>, content type \<open>application/json\<close> and the CORS origin header.
\<close>

theorem fetch_matches_handler_error:
  assumes "\<not> (\<exists>st txt body. fetch upstream_csv_url = Response st txt body \<and> response_ok st)"
  shows "status (fetch_matches_handler fetch) = 500
    \<and> (\<exists>msg. resp_body (fetch_matches_handler fetch)
           = BJson (JObj [(''error'', JStr ''Failed to fetch CSV data''), (''message'', JStr msg)]))
    \<and> header (fetch_matches_handler fetch) ''Content-Type'' = Some ''application/json''
    \<and> header (fetch_matches_handler fetch) ''Access-Control-Allow-Origin'' = Some ''*''"
  using assms by (cases "fetch upstream_csv_url") (auto simp: fetch_matches_handler_def fetch_matches_error_def)

theorem fetch_matches_handler_error_witness:
  "status (fetch_matches_handler (\<lambda>_. Response 503 ''Unavailable'' [])) = 500
   \<and> (\<exists>msg. resp_body (fetch_matches_handler (\<lambda>_. Response 503 ''Unavailable'' []))
          = BJson (JObj [(''error'', JStr ''Failed to fetch CSV data''), (''message'', JStr msg)]))
   \<and> header (fetch_matches_handler (\<lambda>_. Response 503 ''Unavailable'' [])) ''Content-Type'' = Some ''application/json''
   \<and> header (fetch_matches_handler (\<lambda>_. Response 503 ''Unavailable'' [])) ''Access-Control-Allow-Origin'' = Some ''*''"
proof -
  have h: "\<not> (\<exists>st txt body. (\<lambda>_. Response 503 ''Unavailable'' []) upstream_csv_url = Response st txt body \<and> response_ok st)"
    by (simp add: response_ok_def)
  show ?thesis by (rule fetch_matches_handler_error [OF h])
qed

lemma options_handler_headers:
  "status options_handler = 200 \<and> header options_handler ''Access-Control-Allow-Origin'' = Some ''*''
   \<and> header options_handler ''Access-Control-Allow-Methods'' = Some ''GET, OPTIONS''
   \<and> header options_handler ''Access-Control-Allow-Headers'' = Some ''Content-Type''"
  by (simp add: options_handler_def)

text \<open>
  The other two relays depart from that contract: \<open>matches.js\<close> forwards a non-2xx status
  with a plain-text body and no CORS header, and \<open>proxy.js\<close> never looks at the status,
  answering 200 whenever the upstream body is JSON.
\<close>

lemma matches_handler_not_found:
  "matches_handler (\<lambda>_. Response 404 ''Not Found'' [])
     = \<lparr>status = 404, resp_headers = [], resp_body = BText ''Error fetching CSV''\<rparr>"
  by (simp add: matches_handler_def response_ok_def res_send_def res0_def)

lemma proxy_handler_not_found:
  "status (proxy_handler ''/api/data.json'' (\<lambda>_. Response 404 ''Not Found'' ''{}'') (\<lambda>_. Some (JObj []))) = 200"
  by (simp add: proxy_handler_def Let_def)

end
