(* ===== verification/Dashboard.thy ===== *)
theory Dashboard
  imports Fetch Analytics
begin

text \<open>
  The data-loading logic of the top-level component \<open>src/src/components/Dashboard.jsx\<close>.
  Its React state (lines 11 to 17) is the record \<open>dash_state\<close>; \<open>pending\<close> counts the
  calls of \<open>fetchData\<close> whose \<open>await\<close> has not resumed yet (not a React state, but the
  async continuations the runtime holds). \<open>fetch_start\<close> is the synchronous part of
  \<open>fetchData\<close> (lines 20 and 21, then the request), \<open>fetch_done\<close> its continuation
  (lines 24 to 29); the mount effect (lines 33 to 35) starts the first fetch. \<open>render\<close>
  is the function body: \<open>useMemo(processAnalytics)\<close> runs first (line 37), and a throw
  there is an uncaught render error (\<open>VCrashed\<close>, no error boundary exists); then the
  loading, error, no-data and dashboard branches of lines 39 to 85.

  The events are the user's clicks on the buttons the current view shows (Retry, Refresh,
  the two tabs, the metric select, the group filter) and the resolution of a pending
  request, whose outcome is any network behaviour \<open>f\<close> seen through
  \<open>fetch_sales_data\<close>. \<open>dash_reach\<close> is the set of reachable states, and \<open>dash_inv\<close>
  the invariant proved for all of them by rule induction.
\<close>

datatype tab = TabDashboard | TabStandings

datatype metric = MetricTotalSales | MetricAvgSales | MetricPoints | MetricWinRate

record dash_state =
  selectedMetric :: metric
  rawData :: "match_record list"
  loading :: bool
  error :: "string option"
  lastUpdated :: "nat option"
  activeTab :: tab
  standingsGroupFilter :: string
  pending :: nat

definition init_dash :: dash_state where
  "init_dash =
     \<lparr>selectedMetric = MetricTotalSales, rawData = [], loading = True, error = None, lastUpdated = None,
      activeTab = TabDashboard, standingsGroupFilter = ''all'', pending = 0\<rparr>"

definition fetch_start :: "dash_state \<Rightarrow> dash_state" where
  "fetch_start st = st\<lparr>loading := True, error := None, pending := pending st + 1\<rparr>"

definition fetch_done :: "string + match_record list \<Rightarrow> nat \<Rightarrow> dash_state \<Rightarrow> dash_state" where
  "fetch_done r now st =
     (case r of
        Inr data \<Rightarrow> st\<lparr>rawData := data, lastUpdated := Some now, loading := False, pending := pending st - 1\<rparr>
      | Inl msg \<Rightarrow> st\<lparr>error := Some msg, loading := False, pending := pending st - 1\<rparr>)"

datatype view = VLoading | VError string | VNoData | VMain tab analytics | VCrashed

definition render :: "dash_state \<Rightarrow> view" where
  "render st =
     (case process_analytics (rawData st) of
        Inl _ \<Rightarrow> VCrashed
      | Inr a \<Rightarrow>
          (if loading st then VLoading
           else if (case error st of Some e \<Rightarrow> e \<noteq> [] | None \<Rightarrow> False) then VError (the (error st))
           else if rawData st = [] then VNoData
           else VMain (activeTab st) a))"

datatype dash_event =
  UserRefresh | FetchResolves "string \<Rightarrow> fetch_outcome" nat | ClickTab tab | ChooseMetric metric
  | ChooseGroup string

fun enabled :: "dash_state \<Rightarrow> dash_event \<Rightarrow> bool" where
  "enabled st UserRefresh =
     (case render st of VError _ \<Rightarrow> True | VMain _ _ \<Rightarrow> True | _ \<Rightarrow> False)"
| "enabled st (FetchResolves f t) = (0 < pending st)"
| "enabled st (ClickTab t) = (case render st of VMain _ _ \<Rightarrow> True | _ \<Rightarrow> False)"
| "enabled st (ChooseMetric m) = (case render st of VMain TabDashboard _ \<Rightarrow> True | _ \<Rightarrow> False)"
| "enabled st (ChooseGroup g) =
     (case render st of
        VMain TabStandings a \<Rightarrow> g = ''all'' \<or> g \<in> set (map group_acc.group (groupStats a))
      | _ \<Rightarrow> False)"

fun dash_step :: "build_mode \<Rightarrow> dash_state \<Rightarrow> dash_event \<Rightarrow> dash_state" where
  "dash_step mode st UserRefresh = fetch_start st"
| "dash_step mode st (FetchResolves f t) = fetch_done (fetch_sales_data mode f) t st"
| "dash_step mode st (ClickTab t) = st\<lparr>activeTab := t\<rparr>"
| "dash_step mode st (ChooseMetric m) = st\<lparr>selectedMetric := m\<rparr>"
| "dash_step mode st (ChooseGroup g) = st\<lparr>standingsGroupFilter := g\<rparr>"

inductive dash_reach :: "build_mode \<Rightarrow> dash_state \<Rightarrow> bool" where
  mount: "dash_reach mode (fetch_start init_dash)"
| step: "dash_reach mode st \<Longrightarrow> enabled st e \<Longrightarrow> dash_reach mode (dash_step mode st e)"

definition dash_feed :: string where
  "dash_feed =
     ''Date,Group,No,Matches,Team1,Team2,Team1Sales,Team2Sales,Winner,Loser,Winner_1,Loser_2,TotalWinner,TotalLoser\<newline>''
     @ ''2025-11-28,Group 1,1,M1,Alpha,Beta,100,200,Beta,Alpha,200,100,200,100\<newline>''
     @ ''2025-11-28,Group 1,2,M2,Alpha,Gamma,300,50,Alpha,Gamma,300,50,300,50''"

definition dash_crash_feed :: string where
  "dash_crash_feed =
     ''Date,Group,No,Matches,Team1,Team2,Team1Sales,Team2Sales,Winner,Loser,Winner_1,Loser_2,TotalWinner,TotalLoser\<newline>''
     @ ''2025-11-28,Group 1,1,M1,Alpha,constructor,100,200,constructor,Alpha,200,100,200,100''"

definition dash_failed :: dash_state where
  "dash_failed = dash_step Production (fetch_start init_dash) (FetchResolves (\<lambda>_. NetworkError []) 3)"

definition dash_crashed :: dash_state where
  "dash_crashed = dash_step Production (fetch_start init_dash) (FetchResolves (\<lambda>_. Response 200 ''OK'' dash_crash_feed) 5)"

definition dash_loaded :: dash_state where
  "dash_loaded = dash_step Production (fetch_start init_dash) (FetchResolves (\<lambda>_. Response 200 ''OK'' dash_feed) 7)"

definition dash_inv :: "build_mode \<Rightarrow> dash_state \<Rightarrow> bool" where
  "dash_inv mode st \<longleftrightarrow>
     pending st \<le> 1 \<and> (loading st \<longleftrightarrow> pending st = 1) \<and> (loading st \<longrightarrow> error st = None)
     \<and> (rawData st \<noteq> [] \<longrightarrow> (\<exists>f. fetch_sales_data mode f = Inr (rawData st)) \<and> lastUpdated st \<noteq> None)
     \<and> (rawData st = [] \<longrightarrow> loading st \<or> error st \<noteq> None)"

lemma dash_inv_mount: "dash_inv mode (fetch_start init_dash)"
  by (simp add: dash_inv_def fetch_start_def init_dash_def)

lemma render_not_busy:
  "render st = VError e \<or> render st = VMain t a \<Longrightarrow> \<not> loading st"
  by (auto simp: render_def split: sum.splits if_splits)

lemma dash_inv_step:
  assumes "dash_inv mode st" and "enabled st e"
  shows "dash_inv mode (dash_step mode st e)"
proof (cases e)
  case UserRefresh
  with assms have "\<not> loading st"
    using render_not_busy by (auto split: view.splits)
  with assms UserRefresh show ?thesis by (auto simp: dash_inv_def fetch_start_def)
next
  case (FetchResolves f t)
  show ?thesis
  proof (cases "fetch_sales_data mode f")
    case (Inl msg)
    with assms FetchResolves show ?thesis by (auto simp: dash_inv_def fetch_done_def)
  next
    case (Inr rs)
    with assms FetchResolves fetch_sales_data_nonempty [OF Inr] show ?thesis
      by (auto simp: dash_inv_def fetch_done_def)
  qed
qed (use assms in \<open>auto simp: dash_inv_def\<close>)

lemma dash_reach_inv: "dash_reach mode st \<Longrightarrow> dash_inv mode st"
proof (induction rule: dash_reach.induct)
  case (mount mode)
  show ?case by (rule dash_inv_mount)
next
  case (step mode st e)
  then show ?case by (blast intro: dash_inv_step)
qed

lemma dash_feed_parse: "parse_csv_data dash_feed = Inr [spec_m1, spec_m2]"
  by (simp add: dash_feed_def spec_m1_def spec_m2_def model_defs js_eval)

lemma dash_loaded_eval:
  "dash_loaded = (fetch_start init_dash)\<lparr>rawData := [spec_m1, spec_m2], lastUpdated := Some 7, loading := False, pending := 0\<rparr>"
proof -
  have "fetch_sales_data Production (\<lambda>_. Response 200 ''OK'' dash_feed) = Inr [spec_m1, spec_m2]"
    using dash_feed_parse by (simp add: fetch_sales_data_def response_ok_def dash_feed_def js_eval)
  then show ?thesis by (simp add: dash_loaded_def fetch_done_def fetch_start_def init_dash_def)
qed

lemma render_dash_loaded: "render dash_loaded = VMain TabDashboard spec_bundle"
  by (simp add: render_def dash_loaded_eval spec_bundle_eval fetch_start_def init_dash_def)
lemma dash_reach_loaded: "dash_reach Production dash_loaded"
proof -
  have "enabled (fetch_start init_dash) (FetchResolves (\<lambda>_. Response 200 ''OK'' dash_feed) 7)"
    by (simp add: fetch_start_def init_dash_def)
  then show ?thesis unfolding dash_loaded_def by (rule dash_reach.step [OF dash_reach.mount])
qed

text \<open>
  C23. At most one fetch is ever outstanding, and Refresh or Retry is only offered when
  none is: the loading screen hides both buttons while a request is pending. (The
  specification expects overlapping refreshes to be possible.)
\<close>

theorem dash_single_fetch:
  assumes "dash_reach mode st"
  shows "pending st \<le> 1 \<and> (enabled st UserRefresh \<longrightarrow> pending st = 0)"
proof -
  have "dash_inv mode st" using assms by (rule dash_reach_inv)
  moreover have "enabled st UserRefresh \<Longrightarrow> \<not> loading st"
    using render_not_busy by (auto split: view.splits)
  ultimately show ?thesis by (auto simp: dash_inv_def)
qed

theorem dash_single_fetch_witness:
  "pending (fetch_start init_dash) = 1 \<and> \<not> enabled (fetch_start init_dash) UserRefresh"
  using dash_single_fetch [OF dash_reach.mount [of Production]]
  by (simp add: fetch_start_def init_dash_def)

text \<open>
  C24. The "No Data Available" screen is shown only before any data has arrived and after a
  failure whose message is the empty string (an empty \<open>error\<close> is falsy): a successful
  fetch never yields an empty list, and a failure with a message shows the error screen.
\<close>

theorem dash_no_data_view:
  assumes "dash_reach mode st" and "render st = VNoData"
  shows "rawData st = [] \<and> error st = Some []"
  using dash_reach_inv [OF assms(1)] assms(2)
  by (auto simp: dash_inv_def render_def split: sum.splits if_splits option.splits)

text \<open>
  C25. Whenever the dashboard itself is shown, its data is the result of a successful
  \<open>fetchSalesData\<close>, the analytics shown are \<open>processAnalytics\<close> of that data, the
  last-updated time is set, and the tab shown is the active tab.
\<close>

theorem dash_main_view:
  assumes "dash_reach mode st" and "render st = VMain t a"
  shows "(\<exists>f. fetch_sales_data mode f = Inr (rawData st)) \<and> process_analytics (rawData st) = Inr a
    \<and> lastUpdated st \<noteq> None \<and> t = activeTab st"
  using dash_reach_inv [OF assms(1)] assms(2)
  by (auto simp: dash_inv_def render_def split: sum.splits if_splits option.splits)

theorem dash_main_view_witness:
  "(\<exists>f. fetch_sales_data Production f = Inr (rawData dash_loaded)) \<and> process_analytics (rawData dash_loaded) = Inr spec_bundle
    \<and> lastUpdated dash_loaded \<noteq> None \<and> TabDashboard = activeTab dash_loaded"
  by (rule dash_main_view [OF dash_reach_loaded render_dash_loaded])

text \<open>
  C26. While the loading screen is shown a request is pending, so its resolution (whatever
  the network does) is always possible and ends the loading screen.
\<close>

theorem dash_progress:
  assumes "dash_reach mode st" and "render st = VLoading"
  shows "enabled st (FetchResolves f t) \<and> \<not> loading (dash_step mode st (FetchResolves f t))"
proof -
  have "loading st" using assms(2) by (auto simp: render_def split: sum.splits if_splits)
  with dash_reach_inv [OF assms(1)] show ?thesis
    by (auto simp: dash_inv_def fetch_done_def split: sum.splits)
qed

text \<open>
  C27. Rendering fails exactly when the loaded data holds a match whose group or store is
  named like an \<open>Object.prototype\<close> property, and then no button is left: only a pending
  request can still resolve.
\<close>

theorem dash_crash:
  "(render st = VCrashed \<longleftrightarrow> (\<exists>m \<in> set (rawData st). match_has_proto_key m))
   \<and> (render st = VCrashed \<longrightarrow> (\<forall>e. enabled st e \<longrightarrow> (\<exists>f t. e = FetchResolves f t)))"
proof -
  have "render st = VCrashed \<Longrightarrow> enabled st e \<Longrightarrow> \<exists>f t. e = FetchResolves f t" for e
    by (cases e) auto
  then show ?thesis using process_analytics_fails_iff [of "rawData st"]
    by (auto simp: render_def split: sum.splits)
qed
lemma dash_reach_failed: "dash_reach Production dash_failed"
  unfolding dash_failed_def
  by (rule dash_reach.step [OF dash_reach.mount]) (simp add: fetch_start_def init_dash_def)

lemma render_dash_failed: "render dash_failed = VNoData"
  by (simp add: dash_failed_def render_def fetch_done_def fetch_start_def init_dash_def fetch_sales_data_def
      fetch_error_message_def model_defs)

theorem dash_no_data_view_witness: "rawData dash_failed = [] \<and> error dash_failed = Some []"
  by (rule dash_no_data_view [OF dash_reach_failed render_dash_failed])

lemma render_mounted: "render (fetch_start init_dash) = VLoading"
  by (simp add: render_def fetch_start_def init_dash_def model_defs)

theorem dash_progress_witness:
  "enabled (fetch_start init_dash) (FetchResolves (\<lambda>_. NetworkError []) 3)
   \<and> \<not> loading (dash_step Production (fetch_start init_dash) (FetchResolves (\<lambda>_. NetworkError []) 3))"
  by (rule dash_progress [OF dash_reach.mount render_mounted])

lemma dash_crash_feed_parse:
  "fetch_sales_data Production (\<lambda>_. Response 200 ''OK'' dash_crash_feed) = Inr [spec_m1\<lparr>Team2 := ''constructor'', Winner := ''constructor'', Loser := ''Alpha''\<rparr>]"
  by (simp add: fetch_sales_data_def response_ok_def dash_crash_feed_def spec_m1_def model_defs js_eval)

lemma dash_reach_crashed: "dash_reach Production dash_crashed"
  unfolding dash_crashed_def
  by (rule dash_reach.step [OF dash_reach.mount]) (simp add: fetch_start_def init_dash_def)

lemma render_dash_crashed: "render dash_crashed = VCrashed"
  by (simp add: dash_crashed_def dash_crash_feed_parse render_def fetch_done_def fetch_start_def init_dash_def
      spec_m1_def model_defs js_eval Let_def)

theorem dash_crash_witness:
  "render dash_crashed = VCrashed \<and> (\<exists>m \<in> set (rawData dash_crashed). match_has_proto_key m)
   \<and> \<not> enabled dash_crashed UserRefresh"
  using dash_crash [of dash_crashed] render_dash_crashed by blast
end
