(* ===== verification/Dashboard_Tab.thy ===== *)
theory Dashboard_Tab
  imports Dashboard "HOL-Library.Sublist"
begin

text \<open>
  The dashboard tab (src/src/components/DashboardTab.jsx) and the search bar it renders
  (StoreSearchBar.jsx). Its React state (search query, selected store, dropdown flag) is the
  record \<open>tab_state\<close>, each handler a function on it; the memoised values (the search
  results, the top ten by the selected metric, the selected store's analytics) are functions of
  the analytics bundle and the state, and \<open>tab_render\<close> is the branch the component renders.
  The results: the selected store's detail view exists for every store of the bundle, with its
  rank in its group's standings and an overall rank in range; the top-ten list is the stable
  descending sort by the metric; the search results are a bounded, ordered selection of the
  matching stores that misses no match among the first ten.
\<close>

subsection \<open>DashboardTab state and memoised values (lines 5 to 23)\<close>

record tab_state =
  searchQuery :: string
  selectedStore :: "store_perf option"
  showDropdown :: bool

definition init_tab :: tab_state where
  "init_tab = \<lparr>searchQuery = [], selectedStore = None, showDropdown = False\<rparr>"

text \<open>\<open>filteredStores\<close>: empty for an empty query, else the first ten stores whose
  lower-cased name contains the lower-cased query.\<close>

definition filtered_stores :: "string \<Rightarrow> store_perf list \<Rightarrow> store_perf list" where
  "filtered_stores query sps =
     (if query = [] then []
      else take 10 (filter (\<lambda>s. js_includes (js_to_lower (store s)) (js_to_lower query)) sps))"

text \<open>\<open>b[selectedMetric] - a[selectedMetric]\<close>: the four metrics of the selector
  (DashboardOverview.jsx lines 43 to 51). \<open>winRate\<close> is a string, which the subtraction
  converts with StringToNumber.\<close>

fun metric_value :: "metric \<Rightarrow> store_perf \<Rightarrow> jsnum" where
  "metric_value MetricTotalSales s = store_acc.totalSales s"
| "metric_value MetricAvgSales s = avgSales s"
| "metric_value MetricPoints s = Num (real (points s))"
| "metric_value MetricWinRate s = js_to_number (winRate s)"

definition metric_cmp :: "metric \<Rightarrow> store_perf \<Rightarrow> store_perf \<Rightarrow> jsnum" where
  "metric_cmp m a b = js_sub (metric_value m b) (metric_value m a)"

definition top_stores :: "metric \<Rightarrow> store_perf list \<Rightarrow> store_perf list" where
  "top_stores m sps = take 10 (js_sort (metric_cmp m) sps)"

subsection \<open>Handlers (DashboardTab lines 26 to 36, StoreSearchBar lines 19 to 24)\<close>

definition handle_store_select :: "store_perf \<Rightarrow> tab_state \<Rightarrow> tab_state" where
  "handle_store_select s ts = ts\<lparr>selectedStore := Some s, searchQuery := store s, showDropdown := False\<rparr>"

definition handle_clear_store :: "tab_state \<Rightarrow> tab_state" where
  "handle_clear_store ts = ts\<lparr>selectedStore := None, searchQuery := [], showDropdown := False\<rparr>"

definition search_change :: "string \<Rightarrow> tab_state \<Rightarrow> tab_state" where
  "search_change v ts = ts\<lparr>searchQuery := v, showDropdown := True\<rparr>"

definition search_focus :: "tab_state \<Rightarrow> tab_state" where
  "search_focus ts = ts\<lparr>showDropdown := True\<rparr>"

definition search_blur_timeout :: "tab_state \<Rightarrow> tab_state" where
  "search_blur_timeout ts = ts\<lparr>showDropdown := False\<rparr>"

subsection \<open>The selected store's analytics (lines 39 to 57)\<close>

text \<open>
  \<open>analytics.groupStandings[g] || []\<close> then \<open>.findIndex\<close>: an own entry is an array,
  a missing one is replaced by \<open>[]\<close>, and a name inherited from \<open>Object.prototype\<close> is a
  function or object without \<open>findIndex\<close>, so the call throws a TypeError. A store whose group
  is missing from \<open>groupStats\<close> leaves \<open>groupInfo\<close> undefined and \<open>groupInfo.totalSales\<close>
  throws.
\<close>

datatype radar_value = RStr string | RNum jsnum

record store_analytics =
  groupInfo :: group_stats
  rankInGroup :: int
  overallRank :: int
  radarData :: "(string \<times> radar_value) list"
  groupStandings :: "standing list"

definition group_standings_of :: "analytics \<Rightarrow> string \<Rightarrow> js_error + standing list" where
  "group_standings_of a g =
     (case obj_get (analytics.groupStandings a) g of
        Own sts \<Rightarrow> Inr sts
      | Absent \<Rightarrow> Inr []
      | Inherited \<Rightarrow> Inl TypeError)"

definition radar_data :: "store_perf \<Rightarrow> group_stats \<Rightarrow> (string \<times> radar_value) list" where
  "radar_data s gi =
     [(''Sales'', RStr (to_fixed 0 (js_mul (js_div (store_acc.totalSales s) (group_acc.totalSales gi)) (Num 100)))),
      (''Win Rate'', RStr (winRate s)),
      (''Avg Sales'', RStr (to_fixed 0 (js_mul (js_div (avgSales s) (avgSalesPerMatch gi)) (Num 100)))),
      (''Consistency'', RNum (js_max (Num 0) (js_sub (Num 100) (parse_float (consistency s))))),
      (''Points'', RStr (to_fixed 0 (js_mul (js_div (Num (real (points s)))
                     (js_mul (Num (real (store_acc.matches s))) (Num 3))) (Num 100))))]"

definition sales_cmp :: "store_perf \<Rightarrow> store_perf \<Rightarrow> jsnum" where
  "sales_cmp a b = js_sub (store_acc.totalSales b) (store_acc.totalSales a)"

definition store_analytics_of :: "analytics \<Rightarrow> store_perf \<Rightarrow> js_error + store_analytics" where
  "store_analytics_of a s =
     (case group_standings_of a (store_acc.group s) of
        Inl e \<Rightarrow> Inl e
      | Inr sts \<Rightarrow>
          (case find (\<lambda>g. group_acc.group g = store_acc.group s) (groupStats a) of
             None \<Rightarrow> Inl TypeError
           | Some gi \<Rightarrow>
               Inr \<lparr>groupInfo = gi,
                    rankInGroup = js_find_index (\<lambda>x. store x = store s) sts + 1,
                    overallRank = js_find_index (\<lambda>x. store x = store s) (js_sort sales_cmp (storePerformance a)) + 1,
                    radarData = radar_data s gi,
                    groupStandings = sts\<rparr>))"

subsection \<open>Rendering (lines 60 to 89)\<close>

text \<open>A TypeError in the memo escapes the render, which has no error boundary.\<close>

datatype tab_view =
  StoreDetail store_perf store_analytics "store_perf list"
  | Overview "store_perf list" "store_perf list"
  | TabCrashed

definition tab_render :: "analytics \<Rightarrow> metric \<Rightarrow> tab_state \<Rightarrow> tab_view" where
  "tab_render a m ts =
     (let fs = filtered_stores (searchQuery ts) (storePerformance a);
          tops = top_stores m (storePerformance a)
      in case selectedStore ts of
           None \<Rightarrow> Overview fs tops
         | Some s \<Rightarrow>
             (case store_analytics_of a s of
                Inl _ \<Rightarrow> TabCrashed
              | Inr sa \<Rightarrow> StoreDetail s sa fs))"

subsection \<open>Lemmas\<close>

text \<open>The order the top-stores list promises: descending by the selected metric.\<close>

definition metric_key :: "metric \<Rightarrow> store_perf \<Rightarrow> int \<times> real" where
  "metric_key m s = (- fst (num_order_key (metric_value m s)), - snd (num_order_key (metric_value m s)))"

lemma cmp_by_key_metric:
  "\<forall>s \<in> A. metric_value m s \<noteq> NaN \<Longrightarrow> cmp_by_key (metric_cmp m) (metric_key m) A"
  unfolding cmp_by_key_def
proof (intro ballI)
  fix x y assume "\<forall>s \<in> A. metric_value m s \<noteq> NaN" "x \<in> A" "y \<in> A"
  then have "metric_value m x \<noteq> NaN" "metric_value m y \<noteq> NaN" by auto
  then have "js_less (Num 0) (metric_cmp m y x) \<longleftrightarrow> num_order_key (metric_value m y) < num_order_key (metric_value m x)"
    by (simp add: metric_cmp_def js_sub_pos_key)
  then show "js_less (Num 0) (metric_cmp m y x) \<longleftrightarrow> metric_key m x < metric_key m y"
    unfolding metric_key_def neg_pair_less .
qed

lemma take_mem: "length xs < n \<Longrightarrow> s \<in> set (take n (xs @ s # ys))"
  by (simp add: take_append take_Cons')

lemma map_of_keyed: "map_of (map (\<lambda>k. (k, f k)) ks) k = (if k \<in> set ks then Some (f k) else None)"
  by (induction ks) auto

lemma acc_group_fold:
  assumes "views_agree raw st" and "keys_distinct st" and "p \<in> set (acc_groups st)"
  shows "snd p = foldl (\<lambda>ga m. update_group m ga) (new_group (fst p)) (filter (\<lambda>m. Group m = fst p) raw)"
proof -
  from assms(2,3) have "map_of (acc_groups st) (fst p) = Some (snd p)" by (simp add: keys_distinct_def)
  with assms(1) have "group_view raw (fst p) = Some (snd p)" by (simp add: views_agree_def)
  then show ?thesis by (auto simp: group_view_def split: if_splits)
qed

lemma acc_group_entry:
  assumes "views_agree raw st" and "keys_distinct st" and "p \<in> set (acc_groups st)"
  shows "group_acc.group (snd p) = fst p" "group_acc.groupNumber (snd p) = group_number (fst p)"
  using acc_group_fold [OF assms] by (simp_all add: new_group_def)

lemma group_stats_names:
  assumes "process_analytics raw = Inr a"
  shows "group_acc.group ` set (groupStats a) = Group ` set raw"
proof (cases "raw = []")
  case True
  with assms show ?thesis by (auto simp: process_analytics_def empty_analytics_def)
next
  case False
  from assms False obtain st where v: "views_agree raw st" and d: "keys_distinct st"
    and gs: "groupStats a = js_sort group_cmp (map finalize_group (obj_values (acc_groups st)))"
    by (rule process_analytics_Inr)
  have "set (groupStats a) = set_mset (mset (groupStats a))" by simp
  also have "\<dots> = finalize_group ` snd ` set (acc_groups st)"
    by (simp add: gs obj_values_def image_image)
  finally have "set (groupStats a) = finalize_group ` snd ` set (acc_groups st)" .
  moreover have "group_acc.group (snd p) = fst p" if "p \<in> set (acc_groups st)" for p
    by (rule acc_group_entry(1) [OF v d that])
  ultimately have "group_acc.group ` set (groupStats a) = (\<lambda>p. group_acc.group (snd p)) ` set (acc_groups st)"
    by (simp add: image_image)
  also have "\<dots> = fst ` set (acc_groups st)"
    by (rule image_cong) (simp_all add: \<open>\<And>p. p \<in> set (acc_groups st) \<Longrightarrow> group_acc.group (snd p) = fst p\<close>)
  finally have "group_acc.group ` set (groupStats a) = fst ` set (acc_groups st)" .
  then show ?thesis using views_keys(1) [OF v] by simp
qed

lemma store_analytics_ok:
  assumes "process_analytics raw = Inr a" and "s \<in> set (storePerformance a)"
  shows "\<exists>r. store_analytics_of a s = Inr r \<and> group_acc.group (groupInfo r) = store_acc.group s
    \<and> store_analytics.groupStandings r = group_standing (storePerformance a) (store_acc.group s)
    \<and> rankInGroup r = js_find_index (\<lambda>x. store x = store s) (group_standing (storePerformance a) (store_acc.group s)) + 1
    \<and> overallRank r = js_find_index (\<lambda>x. store x = store s) (js_sort sales_cmp (storePerformance a)) + 1
    \<and> groupInfo r \<in> set (groupStats a)"
proof -
  let ?g = "store_acc.group s"
  from assms have ne: "raw \<noteq> []" by (auto simp: process_analytics_def empty_analytics_def)
  from assms(1) ne obtain st where v: "views_agree raw st"
    and gst: "analytics.groupStandings a = group_standings (obj_keys (acc_groups st)) (storePerformance a)"
    by (rule process_analytics_Inr)
  have g: "?g \<in> Group ` set raw" by (rule store_group_key [OF assms])
  then have gk: "?g \<in> set (obj_keys (acc_groups st))"
    using views_keys(1) [OF v] by (simp add: obj_keys_def)
  have own: "group_standings_of a ?g = Inr (group_standing (storePerformance a) ?g)"
    using gk by (simp add: group_standings_of_def gst group_standings_def obj_get_def map_of_keyed)
  from g group_stats_names [OF assms(1)] have "?g \<in> group_acc.group ` set (groupStats a)"
    by simp
  then have "\<exists>gi \<in> set (groupStats a). group_acc.group gi = ?g"
    by (metis imageE)
  then have "find (\<lambda>g. group_acc.group g = ?g) (groupStats a) \<noteq> None"
    by (auto simp: find_None_iff)
  then obtain gi' where "find (\<lambda>g. group_acc.group g = ?g) (groupStats a) = Some gi'"
    by blast
  moreover from this have "group_acc.group gi' = ?g" "gi' \<in> set (groupStats a)"
    by (auto simp: find_Some_iff)
  ultimately show ?thesis using own by (simp add: store_analytics_of_def)
qed

lemma group_standing_find:
  assumes "s \<in> set sps"
  defines "E \<equiv> group_standing sps (store_acc.group s)"
    and "i \<equiv> js_find_index (\<lambda>x. store x = store s) (group_standing sps (store_acc.group s))"
  shows "0 \<le> i" "nat i < length (filter (\<lambda>x. store_acc.group x = store_acc.group s) sps)"
    "E ! nat i \<in> set E" "store (E ! nat i) = store s" "position (E ! nat i) = Suc (nat i)"
proof -
  let ?L = "js_sort standing_cmp (filter (\<lambda>x. store_acc.group x = store_acc.group s) sps)"
  have E: "E = map (\<lambda>(i, x). add_position i x) (enumerate 0 ?L)" by (simp add: E_def group_standing_def)
  have len: "length E = length ?L" by (simp add: E)
  have "s \<in> set ?L" using assms(1) by simp
  then have "store s \<in> set (map store ?L)" by simp
  then have "store s \<in> set (map store E)" unfolding E by (simp only: positions_enumerate(1))
  then have "\<exists>x \<in> set E. store s = store x" by (simp only: set_map image_iff)
  then have ex: "\<exists>x \<in> set E. store x = store s" by (metis)
  have i: "0 \<le> i" "nat i < length E" "store (E ! nat i) = store s"
    using js_find_index_found [OF ex] unfolding i_def E_def by blast+
  then show "0 \<le> i" "store (E ! nat i) = store s" "E ! nat i \<in> set E" by simp_all
  from i(2) len show "nat i < length (filter (\<lambda>x. store_acc.group x = store_acc.group s) sps)" by simp
  have "E ! nat i = add_position (nat i) (?L ! nat i)"
    using i(2) len unfolding E by (simp add: nth_enumerate_eq)
  then show "position (E ! nat i) = Suc (nat i)" by simp
qed

text \<open>
  C28. Selecting any store of a successfully computed bundle yields its analytics without an
  error: the group information is the store's own group, the rank in the group is the
  position of the store's row in that group's standings, and the overall rank lies between 1
  and the number of stores.
\<close>

theorem store_detail_rank:
  assumes "process_analytics raw = Inr a" and "s \<in> set (storePerformance a)"
  shows "\<exists>r. store_analytics_of a s = Inr r \<and> group_acc.group (groupInfo r) = store_acc.group s
    \<and> (\<exists>st \<in> set (store_analytics.groupStandings r). store st = store s \<and> rankInGroup r = int (position st))
    \<and> 1 \<le> overallRank r \<and> overallRank r \<le> int (length (storePerformance a))"
proof -
  let ?sps = "storePerformance a" and ?g = "store_acc.group s"
  obtain r where r: "store_analytics_of a s = Inr r" "group_acc.group (groupInfo r) = ?g"
    "store_analytics.groupStandings r = group_standing ?sps ?g"
    "rankInGroup r = js_find_index (\<lambda>x. store x = store s) (group_standing ?sps ?g) + 1"
    "overallRank r = js_find_index (\<lambda>x. store x = store s) (js_sort sales_cmp ?sps) + 1"
    using store_analytics_ok [OF assms] by blast
  note f = group_standing_find [OF assms(2)]
  have "\<exists>st \<in> set (store_analytics.groupStandings r). store st = store s \<and> rankInGroup r = int (position st)"
    using r(3,4) f(1,3,4,5) by (intro bexI [of _ "group_standing ?sps ?g ! nat (js_find_index (\<lambda>x. store x = store s) (group_standing ?sps ?g))"]) simp_all
  moreover have "\<exists>x \<in> set (js_sort sales_cmp ?sps). store x = store s" using assms(2) by auto
  from js_find_index_found [OF this]
  have "1 \<le> overallRank r \<and> overallRank r \<le> int (length ?sps)"
    using r(5) by (auto simp: nat_less_iff)
  ultimately show ?thesis using r(1,2) by blast
qed

theorem store_detail_rank_witness:
  "\<exists>r. store_analytics_of spec_bundle spec_beta = Inr r \<and> 1 \<le> overallRank r \<and> overallRank r \<le> 3"
proof -
  have "spec_beta \<in> set (storePerformance spec_bundle)" by (simp add: spec_bundle_def)
  from store_detail_rank [OF spec_bundle_eval this] show ?thesis by (auto simp: spec_bundle_def)
qed

text \<open>
  C29. When no store's value of the selected metric is NaN, the top-stores list is the first
  ten stores of the stable sort descending by that metric (ties keep the bundle's order).
\<close>

theorem top_stores_sort_key:
  "\<forall>s \<in> set sps. metric_value m s \<noteq> NaN \<Longrightarrow> top_stores m sps = take 10 (sort_key (metric_key m) sps)"
  unfolding top_stores_def by (simp add: js_sort_eq_sort_key [OF cmp_by_key_metric])

theorem top_stores_sort_key_witness:
  "top_stores MetricTotalSales (storePerformance spec_bundle)
     = take 10 (sort_key (metric_key MetricTotalSales) (storePerformance spec_bundle))"
  by (rule top_stores_sort_key) (simp add: spec_bundle_def spec_alpha_def spec_beta_def spec_gamma_def)

text \<open>
  C30. The search results hold at most ten stores, in the order of the bundle, each of them
  matching the (non-empty) query case-insensitively.
\<close>

theorem filtered_stores_sound:
  "length (filtered_stores q sps) \<le> 10 \<and> subseq (filtered_stores q sps) sps
   \<and> set (filtered_stores q sps) \<subseteq> {s. q \<noteq> [] \<and> js_includes (js_to_lower (store s)) (js_to_lower q)}"
proof -
  have "subseq (take 10 (filter P sps)) sps" for P
    using subseq_order.trans [OF prefix_imp_subseq [OF take_is_prefix] subseq_filter_left] .
  then show ?thesis by (auto simp: filtered_stores_def dest: in_set_takeD)
qed

text \<open>
  C31. A store whose name contains the non-empty query (case-insensitively) is among the
  search results whenever fewer than ten matching stores precede it.
\<close>

theorem filtered_stores_complete:
  assumes "q \<noteq> []" and "js_includes (js_to_lower (store s)) (js_to_lower q)" and "sps = xs @ s # ys"
    and "length (filter (\<lambda>t. js_includes (js_to_lower (store t)) (js_to_lower q)) xs) < 10"
  shows "s \<in> set (filtered_stores q sps)"
proof -
  have f: "filter (\<lambda>t. js_includes (js_to_lower (store t)) (js_to_lower q)) sps
      = filter (\<lambda>t. js_includes (js_to_lower (store t)) (js_to_lower q)) xs
        @ s # filter (\<lambda>t. js_includes (js_to_lower (store t)) (js_to_lower q)) ys"
    using assms(2,3) by simp
  show ?thesis unfolding filtered_stores_def if_not_P [OF assms(1)] f by (rule take_mem [OF assms(4)])
qed

theorem filtered_stores_complete_witness:
  "spec_gamma \<in> set (filtered_stores ''MM'' (storePerformance spec_bundle))"
  by (rule filtered_stores_complete [of _ _ _ "[spec_alpha, spec_beta]" "[]"])
    (simp_all add: spec_bundle_def spec_alpha_def spec_beta_def spec_gamma_def js_eval)

text \<open>
  C32. Choosing a store of the bundle from the dropdown renders its detail view (the search
  box then holds the store's name), and clearing it renders the overview with an empty search
  and the top-ten list.
\<close>

theorem tab_select_clear:
  assumes "process_analytics raw = Inr a" and "s \<in> set (storePerformance a)"
  shows "(\<exists>sa. tab_render a m (handle_store_select s ts)
             = StoreDetail s sa (filtered_stores (store s) (storePerformance a))
           \<and> group_acc.group (groupInfo sa) = store_acc.group s)
    \<and> tab_render a m (handle_clear_store ts) = Overview [] (top_stores m (storePerformance a))"
proof -
  from store_analytics_ok [OF assms] obtain sa where
    "store_analytics_of a s = Inr sa" "group_acc.group (groupInfo sa) = store_acc.group s" by blast
  then show ?thesis
    by (simp add: tab_render_def handle_store_select_def handle_clear_store_def filtered_stores_def)
qed

theorem tab_select_clear_witness:
  "(\<exists>sa. tab_render spec_bundle MetricPoints (handle_store_select spec_alpha init_tab)
      = StoreDetail spec_alpha sa (filtered_stores (store spec_alpha) (storePerformance spec_bundle)))
   \<and> tab_render spec_bundle MetricPoints (handle_clear_store init_tab)
      = Overview [] (top_stores MetricPoints (storePerformance spec_bundle))"
  using tab_select_clear [OF spec_bundle_eval, of spec_alpha MetricPoints init_tab]
  by (auto simp: spec_bundle_def)

end
