(* ===== verification/Standings_Tab.thy ===== *)
theory Standings_Tab
  imports Dashboard_Tab
begin

text \<open>
  The standings tab (src/src/components/StandingsTab.jsx): the group filter buttons and the
  list of group tables, filtered by the dashboard's \<open>standingsGroupFilter\<close> and ordered by the
  number parsed from the group name. Its results: the tables of the \<open>'all'\<close> filter come in
  the order of the group buttons (the order of \<open>groupStats\<close>) whenever every group name carries
  a number, and a group filter shows that group's table alone, or nothing for a stale name.
\<close>

subsection \<open>StandingsTab (lines 4 to 56)\<close>

text \<open>\<open>parseInt(g.replace('Group ', ''))\<close>: NaN when no digits follow, unlike the
  aggregator's \<open>|| 0\<close>.\<close>

definition standings_num :: "string \<Rightarrow> jsnum" where
  "standings_num g =
     (case parse_int (js_replace_first ''Group '' [] g) of None \<Rightarrow> NaN | Some n \<Rightarrow> Num (real_of_int n))"

definition standings_cmp :: "string \<times> 'v \<Rightarrow> string \<times> 'v \<Rightarrow> jsnum" where
  "standings_cmp a b = js_sub (standings_num (fst a)) (standings_num (fst b))"

definition filtered_group_standings :: "string \<Rightarrow> analytics \<Rightarrow> (string \<times> standing list) list" where
  "filtered_group_standings f a =
     (if f = ''all'' then obj_entries (analytics.groupStandings a)
      else filter (\<lambda>(g, sts). g = f) (obj_entries (analytics.groupStandings a)))"

definition standings_tab :: "string \<Rightarrow> analytics \<Rightarrow> (string \<times> standing list \<times> group_stats option) list" where
  "standings_tab f a =
     map (\<lambda>(g, sts). (g, sts, find (\<lambda>gi. group_acc.group gi = g) (groupStats a)))
       (js_sort standings_cmp (filtered_group_standings f a))"

text \<open>The filter buttons: \<open>'all'\<close>, then one per group of \<open>groupStats\<close>, labelled with
  \<open>'Group '\<close> replaced by \<open>'G'\<close>.\<close>

definition standings_buttons :: "analytics \<Rightarrow> (string \<times> string) list" where
  "standings_buttons a =
     (''all'', ''All Groups'')
     # map (\<lambda>gi. (group_acc.group gi, js_replace_first ''Group '' ''G'' (group_acc.group gi))) (groupStats a)"

subsection \<open>Lemmas\<close>

definition numbered_group :: "string \<Rightarrow> bool" where
  "numbered_group g \<longleftrightarrow> parse_int (js_replace_first ''Group '' [] g) \<noteq> None"

lemma standings_num_numbered: "numbered_group g \<Longrightarrow> standings_num g = Num (real_of_int (group_number g))"
  by (auto simp: numbered_group_def standings_num_def group_number_def)

lemma cmp_by_key_standings:
  "\<forall>p \<in> A. numbered_group (fst p) \<Longrightarrow> cmp_by_key standings_cmp (\<lambda>p. group_number (fst p)) A"
  by (simp add: cmp_by_key_def standings_cmp_def standings_num_numbered js_sub_def)

lemma analytics_group_keys_nonempty:
  assumes "process_analytics raw = Inr a" and "raw \<noteq> []"
  obtains K where "distinct K" "set K = Group ` set raw"
    "map group_acc.group (groupStats a) = sort_key group_number K"
    "obj_entries (analytics.groupStandings a) = map (\<lambda>g. (g, group_standing (storePerformance a) g)) K"
proof -
  from assms obtain st where v: "views_agree raw st" and d: "keys_distinct st"
    and gs: "groupStats a = js_sort group_cmp (map finalize_group (obj_values (acc_groups st)))"
    and gst: "analytics.groupStandings a = group_standings (obj_keys (acc_groups st)) (storePerformance a)"
    by (rule process_analytics_Inr)
  let ?E = "obj_entries (acc_groups st)" and ?G = "group_standing (storePerformance a)"
  have ent: "p \<in> set (acc_groups st) \<Longrightarrow> group_acc.group (snd p) = fst p \<and> group_acc.groupNumber (snd p) = group_number (fst p)" for p
    using acc_group_entry [OF v d, of p] by simp
  have "groupStats a = sort_key group_acc.groupNumber (map finalize_group (obj_values (acc_groups st)))"
    by (simp add: gs js_sort_eq_sort_key)
  also have "\<dots> = sort_key (\<lambda>x. group_number (group_acc.group x)) (map finalize_group (obj_values (acc_groups st)))"
    by (rule sort_key_cong) (auto simp: obj_values_def dest!: ent)
  finally have "map group_acc.group (groupStats a) = sort_key group_number (map (\<lambda>p. group_acc.group (snd p)) ?E)"
    by (simp add: map_sort_key obj_values_def comp_def)
  also have "map (\<lambda>p. group_acc.group (snd p)) ?E = map fst ?E"
    by (rule map_cong) (simp_all add: ent)
  finally have 1: "map group_acc.group (groupStats a) = sort_key group_number (map fst ?E)" .
  have h: "analytics.groupStandings a = map (\<lambda>(k, v). (k, ?G k)) ?E"
    by (simp add: gst group_standings_def obj_keys_def split_def comp_def)
  have 2: "obj_entries (analytics.groupStandings a) = map (\<lambda>g. (g, ?G g)) (map fst ?E)"
    unfolding h obj_entries_keyed [of "\<lambda>k v. ?G k"] by (simp add: split_def comp_def)
  have "distinct (map fst ?E)" using d by (simp add: keys_distinct_def)
  moreover have "set (map fst ?E) = Group ` set raw"
    using views_keys(1) [OF v] by simp
  ultimately show ?thesis using that 1 2 by blast
qed

lemma analytics_group_keys:
  assumes "process_analytics raw = Inr a"
  obtains K where "distinct K" "set K = Group ` set raw"
    "map group_acc.group (groupStats a) = sort_key group_number K"
    "obj_entries (analytics.groupStandings a) = map (\<lambda>g. (g, group_standing (storePerformance a) g)) K"
proof (cases "raw = []")
  case True
  with assms have "a = empty_analytics" by (simp add: process_analytics_def)
  with True show ?thesis using that [of "[]"] by (simp add: empty_analytics_def obj_entries_def)
next
  case False
  with assms show ?thesis using that by (rule analytics_group_keys_nonempty)
qed

lemma find_distinct_key:
  "distinct (map f xs) \<Longrightarrow> map (\<lambda>x. find (\<lambda>y. f y = f x) xs) xs = map Some xs"
proof (induction xs)
  case (Cons x xs)
  then have "map (\<lambda>z. find (\<lambda>y. f y = f z) (x # xs)) xs = map (\<lambda>z. find (\<lambda>y. f y = f z) xs) xs"
    by (auto intro!: map_cong)
  with Cons show ?case by simp
qed simp

lemma filter_distinct_eq: "distinct K \<Longrightarrow> filter (\<lambda>g. g = f) K = (if f \<in> set K then [f] else [])"
  by (induction K) auto

text \<open>
  The standings order disagrees with the button order when a group name carries no number:
  \<open>parseInt\<close> gives NaN there, every comparison with it reads as a tie, and the
  insertion order decides, while \<open>groupStats\<close> sorts the same name as group 0.
\<close>

lemma standings_order_unnumbered:
  "map fst (js_sort standings_cmp [(''Group 2'', x), (''Group B'', y), (''Group 1'', z)])
     = [''Group 1'', ''Group 2'', ''Group B'']"
  "sort_key group_number [''Group 2'', ''Group B'', ''Group 1''] = [''Group B'', ''Group 1'', ''Group 2'']"
  by (simp_all add: standings_cmp_def standings_num_def group_number_def js_eval)

text \<open>
  C33. When every group name carries a number, the tables of the \<open>'all'\<close> filter come
  in the order of the group buttons (the order of \<open>groupStats\<close>), each with that group's
  \<open>groupInfo\<close> found.
\<close>

theorem standings_all_order:
  assumes "process_analytics raw = Inr a" and "\<forall>m \<in> set raw. numbered_group (Group m)"
  shows "map (\<lambda>(g, sts, gi). (g, gi)) (standings_tab ''all'' a)
    = map (\<lambda>gi. (group_acc.group gi, Some gi)) (groupStats a)"
proof -
  obtain K where K: "distinct K" "set K = Group ` set raw"
    "map group_acc.group (groupStats a) = sort_key group_number K"
    "obj_entries (analytics.groupStandings a) = map (\<lambda>g. (g, group_standing (storePerformance a) g)) K"
    by (rule analytics_group_keys [OF assms(1)])
  let ?P = "map (\<lambda>g. (g, group_standing (storePerformance a) g)) K"
  have "\<forall>p \<in> set ?P. numbered_group (fst p)" using K(2) assms(2) by auto
  then have "js_sort standings_cmp ?P = sort_key (\<lambda>p. group_number (fst p)) ?P"
    by (rule js_sort_eq_sort_key [OF cmp_by_key_standings])
  then have "map fst (js_sort standings_cmp ?P) = sort_key group_number K"
    by (simp add: map_sort_key comp_def)
  then have names: "map fst (js_sort standings_cmp ?P) = map group_acc.group (groupStats a)"
    using K(3) by simp
  have "distinct (map group_acc.group (groupStats a))" using K(1,3) by (simp add: distinct_sort)
  then have found: "map (\<lambda>g. find (\<lambda>gi. group_acc.group gi = g) (groupStats a)) (map group_acc.group (groupStats a))
      = map Some (groupStats a)"
    using find_distinct_key [of group_acc.group "groupStats a"] by (simp add: comp_def)
  have "map (\<lambda>(g, sts, gi). (g, gi)) (standings_tab ''all'' a)
      = map (\<lambda>g. (g, find (\<lambda>gi. group_acc.group gi = g) (groupStats a))) (map fst (js_sort standings_cmp ?P))"
    by (simp add: standings_tab_def filtered_group_standings_def K(4) comp_def split_def)
  also have "\<dots> = map (\<lambda>gi. (group_acc.group gi, Some gi)) (groupStats a)"
    using found unfolding names by (induction "groupStats a") auto
  finally show ?thesis .
qed

theorem standings_all_order_witness:
  "map (\<lambda>(g, sts, gi). (g, gi)) (standings_tab ''all'' spec_bundle)
     = map (\<lambda>gi. (group_acc.group gi, Some gi)) (groupStats spec_bundle)"
  by (rule standings_all_order [OF spec_bundle_eval])
    (simp add: spec_m1_def spec_m2_def numbered_group_def js_eval)

text \<open>
  C34. A filter other than \<open>'all'\<close> shows exactly the table of the group of that name,
  with the group's standings, or no table at all when no match of the data has that group
  (a filter left over from an earlier load).
\<close>

theorem standings_group_filter:
  assumes "process_analytics raw = Inr a" and "f \<noteq> ''all''"
  shows "map (\<lambda>(g, sts, gi). (g, sts)) (standings_tab f a)
    = (if f \<in> Group ` set raw then [(f, group_standing (storePerformance a) f)] else [])"
proof -
  obtain K where K: "distinct K" "set K = Group ` set raw"
    "obj_entries (analytics.groupStandings a) = map (\<lambda>g. (g, group_standing (storePerformance a) g)) K"
    by (rule analytics_group_keys [OF assms(1)])
  have "filtered_group_standings f a = map (\<lambda>g. (g, group_standing (storePerformance a) g)) (filter (\<lambda>g. g = f) K)"
    using assms(2) by (simp add: filtered_group_standings_def K(3) filter_map comp_def)
  then show ?thesis
    using K(1,2) by (simp add: standings_tab_def filter_distinct_eq js_sort_def)
qed

theorem standings_group_filter_witness:
  "map (\<lambda>(g, sts, gi). (g, sts)) (standings_tab ''Group 1'' spec_bundle)
     = [(''Group 1'', group_standing (storePerformance spec_bundle) ''Group 1'')]
   \<and> standings_tab ''Group 9'' spec_bundle = []"
  using standings_group_filter [OF spec_bundle_eval, of "''Group 1''"]
    standings_group_filter [OF spec_bundle_eval, of "''Group 9''"]
  by (simp add: spec_m1_def spec_m2_def)

end
