(* ===== verification/Display.thy ===== *)
theory Display
  imports Standings_Tab
begin

text \<open>
  The values the presentational components compute from the analytics bundle
  (src/src/components/GroupStandingsTable.jsx, StoreDetailView.jsx, DashboardOverview.jsx):
  each component's numbers and labels as a record or a list, with the markup left out. A
  missing \<open>groupInfo\<close> (\<open>groupInfo?.x\<close> is \<open>undefined\<close>) is NaN: \<open>undefined / 1000\<close> is
  NaN, and \<open>undefined || 0\<close> and \<open>NaN || 0\<close> are both 0.
\<close>

subsection \<open>GroupStandingsTable (lines 5 to 190)\<close>

definition opt_num :: "(group_stats \<Rightarrow> jsnum) \<Rightarrow> group_stats option \<Rightarrow> jsnum" where
  "opt_num f gi = (case gi of None \<Rightarrow> NaN | Some g \<Rightarrow> f g)"

record group_header =
  gh_matches :: nat
  gh_stores :: nat
  gh_total :: string
  gh_avg :: string
  gh_highest :: string
  gh_balance :: string

definition group_header :: "group_stats option \<Rightarrow> group_header" where
  "group_header gi =
     \<lparr>gh_matches = (case gi of None \<Rightarrow> 0 | Some g \<Rightarrow> group_acc.matches g),
      gh_stores = (case gi of None \<Rightarrow> 0 | Some g \<Rightarrow> storeCount g),
      gh_total = ''$'' @ to_fixed 0 (js_or0 (js_div (opt_num group_acc.totalSales gi) (Num 1000))) @ ''K'',
      gh_avg = ''$'' @ to_fixed 0 (js_or0 (opt_num avgSalesPerMatch gi)),
      gh_highest = ''$'' @ to_fixed 0 (js_or0 (opt_num highestMatch gi)),
      gh_balance = to_fixed 0 (js_sub (Num 100) (js_or0 (opt_num competitiveness gi))) @ ''%''\<rparr>"

text \<open>The three highlighted places: the row class and rank colour by \<open>position\<close>, the bar
  colour and the top-stores badge by list index.\<close>

datatype medal = Gold | Silver | Bronze

definition position_medal :: "nat \<Rightarrow> medal option" where
  "position_medal p =
     (if p = 1 then Some Gold else if p = 2 then Some Silver else if p = 3 then Some Bronze else None)"

definition index_medal :: "nat \<Rightarrow> medal option" where
  "index_medal i =
     (if i = 0 then Some Gold else if i = 1 then Some Silver else if i = 2 then Some Bronze else None)"

record table_row =
  tr_store :: string
  tr_medal :: "medal option"
  tr_crown :: bool
  tr_matches :: nat
  tr_wins :: nat
  tr_losses :: nat
  tr_sales :: string
  tr_avg :: string
  tr_form :: "(form \<times> string) list"
  tr_points :: nat

definition table_row :: "standing \<Rightarrow> table_row" where
  "table_row s =
     \<lparr>tr_store = store s, tr_medal = position_medal (position s), tr_crown = (position s = 1),
      tr_matches = store_acc.matches s, tr_wins = wins s, tr_losses = losses s,
      tr_sales = ''$'' @ to_fixed 1 (js_div (store_acc.totalSales s) (Num 1000)) @ ''K'',
      tr_avg = ''$'' @ to_fixed 0 (avgSales s) @ '' avg'',
      tr_form = map (\<lambda>r. (r, if r = W then ''Win'' else ''Loss'')) (recentForm s),
      tr_points = points s\<rparr>"

definition chart_bars :: "standing list \<Rightarrow> (string \<times> jsnum \<times> medal option) list" where
  "chart_bars sts = map (\<lambda>(i, s). (store s, store_acc.totalSales s, index_medal i)) (enumerate 0 sts)"

definition group_table :: "group_stats option \<Rightarrow> standing list
    \<Rightarrow> group_header \<times> table_row list \<times> (string \<times> jsnum \<times> medal option) list" where
  "group_table gi sts = (group_header gi, map table_row sts, chart_bars sts)"

subsection \<open>StoreDetailView (lines 8 to 187)\<close>

text \<open>Template literals print integers in decimal with a leading minus sign.\<close>

definition int_str :: "int \<Rightarrow> string" where
  "int_str i = (if i < 0 then ''-'' @ nat_str (nat (- i)) else nat_str (nat i))"

record detail_view =
  dv_overall :: string
  dv_group_rank :: string
  dv_sales :: string
  dv_win_rate :: string
  dv_details :: "(string \<times> string) list"
  dv_form :: "form list"
  dv_form_wins :: nat
  dv_form_losses :: nat
  dv_group_stores :: nat
  dv_group_total :: string
  dv_share :: string
  dv_above_avg :: bool
  dv_vs_avg :: string

definition detail_view :: "store_perf \<Rightarrow> store_analytics \<Rightarrow> detail_view" where
  "detail_view s sa =
     (let gi = groupInfo sa in
      \<lparr>dv_overall = ''#'' @ int_str (overallRank sa),
       dv_group_rank = ''#'' @ int_str (rankInGroup sa) @ '' of '' @ nat_str (storeCount gi),
       dv_sales = ''$'' @ to_fixed 1 (js_div (store_acc.totalSales s) (Num 1000)) @ ''K'',
       dv_win_rate = winRate s @ ''%'',
       dv_details =
         [(''Matches Played'', nat_str (store_acc.matches s)), (''Wins'', nat_str (wins s)),
          (''Losses'', nat_str (losses s)), (''Points'', nat_str (points s)),
          (''Average Sales'', ''$'' @ to_fixed 0 (avgSales s)),
          (''Best Performance'', ''$'' @ to_fixed 0 (bestPerformance s)),
          (''Worst Performance'', ''$'' @ to_fixed 0 (worstPerformance s))],
       dv_form = recentForm s,
       dv_form_wins = length (filter (\<lambda>r. r = W) (recentForm s)),
       dv_form_losses = length (filter (\<lambda>r. r = L) (recentForm s)),
       dv_group_stores = storeCount gi,
       dv_group_total = ''$'' @ to_fixed 0 (js_div (group_acc.totalSales gi) (Num 1000)) @ ''K'',
       dv_share = to_fixed 1 (js_mul (js_div (store_acc.totalSales s) (group_acc.totalSales gi)) (Num 100)) @ ''%'',
       dv_above_avg = js_less (avgSalesPerMatch gi) (avgSales s),
       dv_vs_avg = (if js_less (avgSalesPerMatch gi) (avgSales s) then ''+'' else [])
         @ to_fixed 1 (js_mul (js_div (js_sub (avgSales s) (avgSalesPerMatch gi)) (avgSalesPerMatch gi)) (Num 100)) @ ''%''\<rparr>)"

subsection \<open>DashboardOverview (lines 18 to 221)\<close>

record overview_cards =
  oc_total_sales :: string
  oc_total_matches :: nat
  oc_active_stores :: nat
  oc_groups :: nat
  oc_days :: nat

definition overview_cards :: "analytics \<Rightarrow> overview_cards" where
  "overview_cards a =
     \<lparr>oc_total_sales =
        ''$'' @ to_fixed 0 (js_div (foldl (\<lambda>sum g. js_add sum (group_acc.totalSales g)) (Num 0) (groupStats a)) (Num 1000)) @ ''K'',
      oc_total_matches = foldl (\<lambda>sum g. sum + group_acc.matches g) 0 (groupStats a),
      oc_active_stores = length (storePerformance a),
      oc_groups = length (groupStats a),
      oc_days = length (dailyPerformance a)\<rparr>"

text \<open>\<open>groupComparisonData\<close>: the chart rows per group; the competitiveness line is
  \<open>100 - competitiveness\<close> with no \<open>|| 0\<close>, so a NaN index stays NaN here.\<close>

definition group_comparison :: "analytics \<Rightarrow> (string \<times> jsnum \<times> jsnum \<times> nat \<times> jsnum) list" where
  "group_comparison a =
     map (\<lambda>g. (js_replace_first ''Group '' ''G'' (group_acc.group g), group_acc.totalSales g,
               avgSalesPerMatch g, storeCount g, js_sub (Num 100) (competitiveness g))) (groupStats a)"

text \<open>The top-stores cards: the badge by index, and the value of the selected metric.\<close>

definition metric_text :: "metric \<Rightarrow> store_perf \<Rightarrow> string" where
  "metric_text m s =
     (case m of
        MetricTotalSales \<Rightarrow> ''$'' @ to_fixed 1 (js_div (store_acc.totalSales s) (Num 1000)) @ ''K''
      | MetricAvgSales \<Rightarrow> ''$'' @ to_fixed 0 (avgSales s)
      | MetricPoints \<Rightarrow> nat_str (points s) @ '' pts''
      | MetricWinRate \<Rightarrow> winRate s @ ''%'')"

definition top_cards :: "metric \<Rightarrow> store_perf list \<Rightarrow> (medal option \<times> nat \<times> string \<times> string) list" where
  "top_cards m tops = map (\<lambda>(i, s). (index_medal i, Suc i, store s, metric_text m s)) (enumerate 0 tops)"

text \<open>Sales figures that are finite and not negative, the condition of the bounds below.\<close>

fun js_nonneg :: "jsnum \<Rightarrow> bool" where
  "js_nonneg (Num x) = (0 \<le> x)"
| "js_nonneg _ = False"

subsection \<open>Lemmas\<close>

lemma position_medal_Suc [simp]: "position_medal (Suc i) = index_medal i"
  by (simp add: position_medal_def index_medal_def)

lemma map_enumerate_fst: "map (\<lambda>x. f (fst x)) (enumerate n xs) = map f [n..<n + length xs]"
proof -
  have "map (\<lambda>x. f (fst x)) (enumerate n xs) = map f (map fst (enumerate n xs))"
    by (simp only: map_map comp_def)
  also have "map fst (enumerate n xs) = [n..<n + length xs]" by (rule map_fst_enumerate)
  finally show ?thesis .
qed

text \<open>
  C35. In every group table the row highlighted by position (the class and rank colour of
  GroupStandingsTable) and the bar of the chart coloured by index get the same medal: gold,
  silver and bronze fall on the same three stores, because the positions of a group standing
  are \<open>1, 2, ...\<close> in list order.
\<close>

theorem group_table_medals_agree:
  "map tr_medal (map table_row (group_standing sps g))
     = map (\<lambda>(s, v, m). m) (chart_bars (group_standing sps g))"
proof -
  let ?sts = "group_standing sps g"
  have "map tr_medal (map table_row ?sts) = map position_medal (map position ?sts)"
    by (simp add: table_row_def)
  also have "map position ?sts = map Suc [0..<length ?sts]"
    using positions_enumerate(2) [of 0 "js_sort standing_cmp (filter (\<lambda>s. store_acc.group s = g) sps)"]
    by (simp add: group_standing_def map_Suc_upt)
  finally have "map tr_medal (map table_row ?sts) = map index_medal [0..<length ?sts]"
    by simp
  moreover have "map (\<lambda>(s, v, m). m) (chart_bars ?sts) = map index_medal [0..<length ?sts]"
    unfolding chart_bars_def by (simp add: comp_def case_prod_beta map_enumerate_fst)
  ultimately show ?thesis by simp
qed

lemma group_fold_margin:
  assumes "\<forall>m \<in> set ms. js_nonneg (Team1Sales m) \<and> js_nonneg (Team2Sales m)"
    and "group_acc.totalSales ga = Num S" and "totalMargin ga = Num M" and "0 \<le> M" and "M \<le> S"
  shows "\<exists>S' M'. group_acc.totalSales (foldl (\<lambda>ga m. update_group m ga) ga ms) = Num S'
    \<and> totalMargin (foldl (\<lambda>ga m. update_group m ga) ga ms) = Num M' \<and> 0 \<le> M' \<and> M' \<le> S'"
  using assms
proof (induction ms arbitrary: ga S M)
  case (Cons m ms)
  from Cons.prems(1) obtain x y where xy: "Team1Sales m = Num x" "Team2Sales m = Num y" "0 \<le> x" "0 \<le> y"
    by (cases "Team1Sales m"; cases "Team2Sales m") auto
  have "\<bar>x - y\<bar> \<le> x + y" using xy(3,4) by arith
  then show ?case
    using Cons.IH [of "update_group m ga" "S + (x + y)" "M + \<bar>x - y\<bar>"] Cons.prems xy
    by (simp add: update_group_def match_total_def match_diff_def js_sub_def)
qed auto

lemma balance_bound:
  assumes "0 \<le> M" and "M \<le> S"
  shows "\<exists>b. js_sub (Num 100) (js_or0 (js_mul (js_div (js_div (Num M) (Num n)) (js_div (Num S) (Num n))) (Num 100)))
    = Num b \<and> 0 \<le> b \<and> b \<le> 100"
proof (cases "n = 0 \<or> S = 0")
  case True
  with assms show ?thesis by (auto simp: js_sub_def)
next
  case False
  then have q: "M / n / (S / n) * 100 = M / S * 100" by simp
  have "0 \<le> M / S" "M / S \<le> 1" using assms False by (simp_all add: divide_le_eq_1)
  then have "0 \<le> 100 - M / S * 100" "100 - M / S * 100 \<le> 100" by linarith+
  then show ?thesis using False q by (simp add: js_sub_def)
qed

lemma gh_balance_Some:
  "gh_balance (group_header (Some g)) = to_fixed 0 (js_sub (Num 100) (js_or0 (competitiveness g))) @ ''%''"
  by (simp add: group_header_def opt_num_def)

lemma finalize_group_competitiveness:
  "competitiveness (finalize_group ga) =
     js_mul (js_div (js_div (totalMargin ga) (Num (real (group_acc.matches ga))))
       (js_div (group_acc.totalSales ga) (Num (real (group_acc.matches ga))))) (Num 100)"
  by (simp add: finalize_group_def Let_def group_acc.extend_def group_stats.fields_def)

lemma group_stats_finalized:
  assumes "process_analytics raw = Inr a" and "gi \<in> set (groupStats a)"
  obtains st p where "views_agree raw st" "keys_distinct st" "p \<in> set (acc_groups st)"
    "gi = finalize_group (snd p)"
proof -
  from assms have ne: "raw \<noteq> []" by (auto simp: process_analytics_def empty_analytics_def)
  from assms(1) ne obtain st where v: "views_agree raw st" and d: "keys_distinct st"
    and gs: "groupStats a = js_sort group_cmp (map finalize_group (obj_values (acc_groups st)))"
    by (rule process_analytics_Inr)
  from assms(2) gs have "gi \<in> (\<lambda>x. finalize_group (snd x)) ` set (acc_groups st)"
    by (simp add: obj_values_def)
  then obtain p where "p \<in> set (acc_groups st)" "gi = finalize_group (snd p)"
    by blast
  with v d show ?thesis using that by blast
qed

text \<open>
  C36. When every match's sales figures are finite and not negative, the balance percentage
  every group table shows (\<open>100 - competitiveness\<close>, with \<open>|| 0\<close>) lies between 0 and 100:
  a match's margin never exceeds its total. A group whose sales are all zero has NaN as its
  index and shows 100.
\<close>

theorem group_balance_bounds:
  assumes "process_analytics raw = Inr a"
    and "\<forall>m \<in> set raw. js_nonneg (Team1Sales m) \<and> js_nonneg (Team2Sales m)"
    and "gi \<in> set (groupStats a)"
  shows "\<exists>b. gh_balance (group_header (Some gi)) = to_fixed 0 (Num b) @ ''%'' \<and> 0 \<le> b \<and> b \<le> 100"
proof -
  obtain st p where v: "views_agree raw st" and d: "keys_distinct st" and p: "p \<in> set (acc_groups st)"
    and gi: "gi = finalize_group (snd p)"
    by (rule group_stats_finalized [OF assms(1,3)])
  let ?ms = "filter (\<lambda>m. Group m = fst p) raw"
  have fold: "snd p = foldl (\<lambda>ga m. update_group m ga) (new_group (fst p)) ?ms"
    by (rule acc_group_fold [OF v d p])
  have "\<forall>m \<in> set ?ms. js_nonneg (Team1Sales m) \<and> js_nonneg (Team2Sales m)" using assms(2) by simp
  then have "\<exists>S M. group_acc.totalSales (snd p) = Num S \<and> totalMargin (snd p) = Num M \<and> 0 \<le> M \<and> M \<le> S"
    unfolding fold by (rule group_fold_margin [where S = 0 and M = 0]) (simp_all add: new_group_def)
  then obtain S M where SM: "group_acc.totalSales (snd p) = Num S" "totalMargin (snd p) = Num M"
    and "0 \<le> M" "M \<le> S"
    by blast
  from balance_bound [OF \<open>0 \<le> M\<close> \<open>M \<le> S\<close>, of "real (group_acc.matches (snd p))"]
  obtain b where b: "js_sub (Num 100) (js_or0 (js_mul (js_div (js_div (Num M) (Num (real (group_acc.matches (snd p)))))
      (js_div (Num S) (Num (real (group_acc.matches (snd p)))))) (Num 100))) = Num b" "0 \<le> b" "b \<le> 100"
    by blast
  have "gh_balance (group_header (Some gi)) = to_fixed 0 (Num b) @ ''%''"
    unfolding gi gh_balance_Some finalize_group_competitiveness SM b(1) ..
  with b(2,3) show ?thesis by blast
qed

theorem group_balance_bounds_witness:
  "\<exists>b. gh_balance (group_header (Some (hd (groupStats spec_bundle)))) = to_fixed 0 (Num b) @ ''%''
     \<and> 0 \<le> b \<and> b \<le> 100"
  by (rule group_balance_bounds [OF spec_bundle_eval]) (simp_all add: spec_m1_def spec_m2_def spec_bundle_def)

text \<open>
  The detail view compares a store's average per match it played (one team's sales) with the
  group's average per match (both teams' sales), so in the two-match example every store
  shows below the group average.
\<close>

lemma spec_stores_below_group_avg:
  "\<forall>s \<in> set (storePerformance spec_bundle). \<not> js_less (avgSalesPerMatch (hd (groupStats spec_bundle))) (avgSales s)"
  by (simp add: spec_bundle_def spec_alpha_def spec_beta_def spec_gamma_def)

lemma overview_card_counts:
  "oc_groups (overview_cards a) = length (groupStats a)"
  "oc_active_stores (overview_cards a) = length (storePerformance a)"
  "oc_days (overview_cards a) = length (dailyPerformance a)"
  by (simp_all add: overview_cards_def)

lemma length_keyed_card: "distinct (map fst al) \<Longrightarrow> length al = card (fst ` set al)"
  by (metis distinct_card length_map set_map)

text \<open>
  C37. The overview's count cards are the numbers of distinct groups, distinct stores (team
  names) and distinct dates of the data, the dates named like an \<open>Object.prototype\<close>
  property left out.
\<close>

theorem overview_counts:
  assumes "process_analytics raw = Inr a"
  shows "oc_groups (overview_cards a) = card (Group ` set raw)
    \<and> oc_active_stores (overview_cards a) = card {s. \<exists>m \<in> set raw. plays s m}
    \<and> oc_days (overview_cards a) = card (Date ` set (filter (\<lambda>m. \<not> is_proto_key (Date m)) raw))"
proof (cases "raw = []")
  case True
  with assms have "a = empty_analytics" by (simp add: process_analytics_def)
  with True show ?thesis by (simp add: empty_analytics_def overview_card_counts)
next
  case False
  from assms False obtain st where v: "views_agree raw st" and d: "keys_distinct st"
    and "storePerformance a = map finalize_store (obj_values (acc_stores st))"
    "groupStats a = js_sort group_cmp (map finalize_group (obj_values (acc_groups st)))"
    "dailyPerformance a = obj_values (acc_daily st)"
    by (rule process_analytics_Inr)
  with d show ?thesis
    by (simp add: overview_card_counts length_keyed_card keys_distinct_def views_keys [OF v])
qed

theorem overview_counts_witness:
  "oc_groups (overview_cards spec_bundle) = card (Group ` set [spec_m1, spec_m2])
    \<and> oc_active_stores (overview_cards spec_bundle) = card {s. \<exists>m \<in> set [spec_m1, spec_m2]. plays s m}
    \<and> oc_days (overview_cards spec_bundle)
      = card (Date ` set (filter (\<lambda>m. \<not> is_proto_key (Date m)) [spec_m1, spec_m2]))"
  by (rule overview_counts [OF spec_bundle_eval])

lemma finalize_group_storeCount [simp]: "storeCount (finalize_group ga) = length (stores ga)"
  by (simp add: finalize_group_def Let_def group_acc.extend_def group_stats.fields_def)

lemma store_plays_in_group:
  assumes "process_analytics raw = Inr a" and "sp \<in> set (storePerformance a)"
  shows "\<exists>m \<in> set raw. plays (store sp) m \<and> Group m = store_acc.group sp"
proof -
  from assms obtain s where p: "\<exists>m \<in> set raw. plays s m"
    and sp: "sp = finalize_store (store_fold (new_store s (first_group s raw)) (store_events s raw))"
    by (rule store_output)
  from p have "filter (plays s) raw \<noteq> []" by (simp add: filter_empty_conv)
  then have "hd (filter (plays s) raw) \<in> set (filter (plays s) raw)" by (rule hd_in_set)
  then show ?thesis by (auto simp: sp first_group_def)
qed

lemma group_store_count:
  assumes "process_analytics raw = Inr a" and "gi \<in> set (groupStats a)"
  shows "length (filter (\<lambda>s. store_acc.group s = group_acc.group gi) (storePerformance a)) \<le> storeCount gi"
proof -
  obtain st p where v: "views_agree raw st" and d: "keys_distinct st" and p: "p \<in> set (acc_groups st)"
    and gi: "gi = finalize_group (snd p)"
    by (rule group_stats_finalized [OF assms])
  let ?F = "filter (\<lambda>s. store_acc.group s = group_acc.group gi) (storePerformance a)"
  have g: "group_acc.group gi = fst p" using acc_group_entry(1) [OF v d p] gi by simp
  have fold: "snd p = foldl (\<lambda>ga m. update_group m ga) (new_group (fst p)) (filter (\<lambda>m. Group m = fst p) raw)"
    by (rule acc_group_fold [OF v d p])
  have "distinct (map store ?F)"
    using store_names_distinct [OF assms(1)] by (simp add: distinct_map_filter)
  then have "length ?F = card (store ` set ?F)" by (metis distinct_card length_map set_map)
  also have "\<dots> \<le> card (set (stores (snd p)))"
  proof (rule card_mono)
    show "store ` set ?F \<subseteq> set (stores (snd p))"
    proof
      fix x assume "x \<in> store ` set ?F"
      then obtain sp where sp: "sp \<in> set (storePerformance a)" "store_acc.group sp = fst p" "x = store sp"
        using g by auto
      from store_plays_in_group [OF assms(1) sp(1)] sp(2,3)
      show "x \<in> set (stores (snd p))"
        by (auto simp: fold group_fold_stores(1) plays_def)
    qed
  qed simp
  also have "\<dots> = storeCount gi"
    using group_fold_stores(2) [of "new_group (fst p)"] by (simp add: gi fold new_group_def distinct_card)
  finally show ?thesis .
qed

lemma finalize_group_stores [simp]: "stores (finalize_group ga) = stores ga"
  by (simp add: finalize_group_def Let_def group_acc.extend_def group_stats.fields_def)

text \<open>
  C7. The \<open>stores\<close> Set of every group of a computed bundle lists each team that played
  a match of the group exactly once, and no other, and \<open>storeCount\<close> is its size: the
  Set keeps a team once however many of the group's matches it plays.
\<close>

theorem group_stores_teams:
  assumes "process_analytics raw = Inr a" and "gi \<in> set (groupStats a)"
  shows "distinct (stores gi)
    \<and> set (stores gi) = {s. \<exists>m \<in> set raw. Group m = group_acc.group gi \<and> plays s m}
    \<and> storeCount gi = length (stores gi)"
proof -
  obtain st p where v: "views_agree raw st" and d: "keys_distinct st" and p: "p \<in> set (acc_groups st)"
    and gi: "gi = finalize_group (snd p)"
    by (rule group_stats_finalized [OF assms])
  have g: "group_acc.group gi = fst p" using acc_group_entry(1) [OF v d p] gi by simp
  have fold: "snd p = foldl (\<lambda>ga m. update_group m ga) (new_group (fst p)) (filter (\<lambda>m. Group m = fst p) raw)"
    by (rule acc_group_fold [OF v d p])
  have "distinct (stores (snd p))"
    unfolding fold by (rule group_fold_stores(2)) (simp add: new_group_def)
  moreover have "set (stores (snd p)) = {s. \<exists>m \<in> set raw. Group m = fst p \<and> plays s m}"
    unfolding fold group_fold_stores(1) by (auto simp: new_group_def plays_def)
  ultimately show ?thesis unfolding g by (simp add: gi)
qed

theorem group_stores_teams_witness:
  "distinct (stores (hd (groupStats spec_bundle)))
   \<and> set (stores (hd (groupStats spec_bundle)))
       = {s. \<exists>m \<in> set [spec_m1, spec_m2]. Group m = ''Group 1'' \<and> plays s m}"
proof -
  have "hd (groupStats spec_bundle) \<in> set (groupStats spec_bundle)" by (simp add: spec_bundle_def)
  from group_stores_teams [OF spec_bundle_eval this] show ?thesis by (simp add: spec_bundle_def)
qed

text \<open>
  C38. The detail view's "Group Rank #r of n" never shows a rank beyond the count: for every
  store of a computed bundle the rank in its group is at least 1 and at most the group's
  \<open>storeCount\<close>. The standings hold the stores whose first match is in the group, and each
  of them is among the teams the group counted.
\<close>

theorem detail_group_rank_bounds:
  assumes "process_analytics raw = Inr a" and "s \<in> set (storePerformance a)"
  shows "\<exists>r. store_analytics_of a s = Inr r \<and> 1 \<le> rankInGroup r
    \<and> rankInGroup r \<le> int (dv_group_stores (detail_view s r))"
proof -
  obtain r where r: "store_analytics_of a s = Inr r" "group_acc.group (groupInfo r) = store_acc.group s"
    "rankInGroup r = js_find_index (\<lambda>x. store x = store s) (group_standing (storePerformance a) (store_acc.group s)) + 1"
    "groupInfo r \<in> set (groupStats a)"
    using store_analytics_ok [OF assms] by blast
  note f = group_standing_find [OF assms(2)]
  have "length (filter (\<lambda>x. store_acc.group x = store_acc.group s) (storePerformance a)) \<le> storeCount (groupInfo r)"
    using group_store_count [OF assms(1) r(4)] r(2) by simp
  with f(1,2) r(3) have "1 \<le> rankInGroup r \<and> rankInGroup r \<le> int (storeCount (groupInfo r))"
    by linarith
  with r(1) show ?thesis by (auto simp: detail_view_def Let_def)
qed

theorem detail_group_rank_bounds_witness:
  "\<exists>r. store_analytics_of spec_bundle spec_gamma = Inr r \<and> 1 \<le> rankInGroup r
    \<and> rankInGroup r \<le> int (dv_group_stores (detail_view spec_gamma r))"
  by (rule detail_group_rank_bounds [OF spec_bundle_eval]) (simp add: spec_bundle_def)

end
