(* ===== verification/Constants.thy ===== *)
theory Constants
  imports Display
begin

text \<open>
  The application constants (src/src/utils/constants.js) and the places where the components
  repeat them instead of importing them. No source file imports constants.js; the lemmas
  below say where the repeated values agree with it and where the analytics' literal
  \<open>3\<close> is its \<open>POINTS_PER_WIN\<close>. The chart configuration object (lines 40 to 53) is
  pure styling and is not modelled.
\<close>

subsection \<open>constants.js\<close>

definition CHART_COLORS :: "string list" where
  "CHART_COLORS = [''#8B5CF6'', ''#EC4899'', ''#3B82F6'', ''#10B981'', ''#F59E0B'', ''#EF4444'',
     ''#6366F1'', ''#14B8A6'', ''#F97316'', ''#84CC16'']"

definition CARD_GRADIENTS :: "(string \<times> string) list" where
  "CARD_GRADIENTS = [(''purple'', ''from-purple-500 to-purple-700''), (''pink'', ''from-pink-500 to-pink-700''),
     (''blue'', ''from-blue-500 to-blue-700''), (''emerald'', ''from-emerald-500 to-emerald-700''),
     (''orange'', ''from-orange-500 to-orange-700'')]"

definition POINTS_PER_WIN :: nat where "POINTS_PER_WIN = 3"

definition POINTS_PER_LOSS :: nat where "POINTS_PER_LOSS = 0"

definition GROUP_TIERS :: "(string \<times> nat list) list" where
  "GROUP_TIERS = [(''premium'', [1, 2, 3]), (''midTier'', [4, 5, 6]), (''developing'', [7, 8, 9, 10])]"

definition METRIC_OPTIONS :: "(string \<times> string) list" where
  "METRIC_OPTIONS = [(''totalSales'', ''Total Sales''), (''avgSales'', ''Average Sales''),
     (''points'', ''Points''), (''winRate'', ''Win Rate'')]"

definition TOURNAMENT_DATES :: "string \<times> string \<times> nat" where
  "TOURNAMENT_DATES = (''28/11/2025'', ''30/11/2025'', 3)"

subsection \<open>The repeated values in DashboardOverview.jsx\<close>

text \<open>The local \<open>COLORS\<close> (line 19), the metric selector's options (lines 47 to 50), the
  stat cards' gradients (lines 59 to 87), and the pie slices coloured \<open>COLORS[index %
  COLORS.length]\<close> (lines 143 to 145).\<close>

definition overview_colors :: "string list" where
  "overview_colors = [''#8B5CF6'', ''#EC4899'', ''#3B82F6'', ''#10B981'', ''#F59E0B'', ''#EF4444'',
     ''#6366F1'', ''#14B8A6'', ''#F97316'', ''#84CC16'']"

fun metric_option :: "metric \<Rightarrow> string \<times> string" where
  "metric_option MetricTotalSales = (''totalSales'', ''Total Sales'')"
| "metric_option MetricAvgSales = (''avgSales'', ''Average Sales'')"
| "metric_option MetricPoints = (''points'', ''Points'')"
| "metric_option MetricWinRate = (''winRate'', ''Win Rate'')"

definition overview_gradients :: "string list" where
  "overview_gradients = [''from-purple-500 to-purple-700'', ''from-pink-500 to-pink-700'',
     ''from-blue-500 to-blue-700'', ''from-emerald-500 to-emerald-700'', ''from-orange-500 to-orange-700'']"

definition pie_colors :: "analytics \<Rightarrow> (string \<times> string) list" where
  "pie_colors a =
     map (\<lambda>(i, g). (group_acc.group g, overview_colors ! (i mod length overview_colors))) (enumerate 0 (groupStats a))"

subsection \<open>Lemmas\<close>

lemma overview_colors_chart_colors: "overview_colors = CHART_COLORS"
  by (simp add: overview_colors_def CHART_COLORS_def)

lemma metric_options_agree:
  "map metric_option [MetricTotalSales, MetricAvgSales, MetricPoints, MetricWinRate] = METRIC_OPTIONS"
  by (simp add: METRIC_OPTIONS_def)

lemma overview_gradients_agree: "overview_gradients = map snd CARD_GRADIENTS"
  by (simp add: overview_gradients_def CARD_GRADIENTS_def)

lemma group_tiers_partition: "concat (map snd GROUP_TIERS) = [1..<11]"
  by (simp add: GROUP_TIERS_def upt_rec)

text \<open>The analytics award \<open>3\<close> per win and nothing per loss, as the constants say.\<close>

lemma store_fold_points_constants:
  "points (store_fold sa evs) =
     points sa + POINTS_PER_WIN * length (filter snd evs) + POINTS_PER_LOSS * length (filter (\<lambda>e. \<not> snd e) evs)"
  by (simp add: POINTS_PER_WIN_def POINTS_PER_LOSS_def)

text \<open>
  The pie gives every group its own colour as long as there are at most ten groups; the
  eleventh group gets the first group's colour again.
\<close>

lemma pie_colors_distinct:
  "distinct (map snd (pie_colors a)) \<longleftrightarrow> length (groupStats a) \<le> 10"
proof -
  have len: "length overview_colors = 10" by (simp add: overview_colors_def)
  have dist: "distinct overview_colors" by (simp add: overview_colors_def)
  have "map snd (pie_colors a) = map (\<lambda>i. overview_colors ! (i mod 10)) [0..<length (groupStats a)]"
    unfolding pie_colors_def len using map_enumerate_fst [of "\<lambda>i. overview_colors ! (i mod 10)" 0 "groupStats a"]
    by (simp add: comp_def case_prod_beta)
  moreover have "distinct (map (\<lambda>i. overview_colors ! (i mod 10)) [0..<n]) \<longleftrightarrow> n \<le> 10" for n
  proof
    assume d: "distinct (map (\<lambda>i. overview_colors ! (i mod 10)) [0..<n])"
    show "n \<le> 10"
    proof (rule ccontr)
      assume "\<not> n \<le> 10"
      then have "0 \<in> set [0..<n]" "10 \<in> set [0..<n]" by simp_all
      with d have "overview_colors ! (0 mod 10) \<noteq> overview_colors ! (10 mod 10)"
        using inj_on_contraD [OF distinct_map [THEN iffD1, OF d, THEN conjunct2], of 0 10] by simp
      then show False by simp
    qed
  next
    assume "n \<le> 10"
    then have "inj_on (\<lambda>i. overview_colors ! (i mod 10)) {0..<n}"
      using dist len by (auto simp: inj_on_def nth_eq_iff_index_eq)
    then show "distinct (map (\<lambda>i. overview_colors ! (i mod 10)) [0..<n])"
      by (simp add: distinct_map)
  qed
  ultimately show ?thesis by simp
qed

end
