(* ===== verification/Overview_Charts.thy ===== *)
theory Overview_Charts
  imports Constants
begin

text \<open>
  The chart data and tooltip formatters of DashboardOverview.jsx and GroupStandingsTable.jsx.
  The charts themselves are drawn by recharts; the model keeps what the repository computes:
  the rows handed to each chart and the strings its formatters return. A tooltip
  \<open>formatter(value, name)\<close> receives as \<open>name\<close> the series' \<open>name\<close> property when the
  series sets one, and its \<open>dataKey\<close> otherwise (recharts' documented behaviour, which
  \<open>tooltip_series_name\<close> states; recharts is not part of the repository).
\<close>

subsection \<open>Group comparison chart (DashboardOverview lines 89 to 125)\<close>

datatype tip_value = TipText string | TipRaw jsnum

definition comparison_formatter :: "jsnum \<Rightarrow> string \<Rightarrow> tip_value \<times> string" where
  "comparison_formatter value name =
     (if name = ''totalSales'' then (TipText (''$'' @ to_fixed 0 value), ''Total Sales'')
      else if name = ''avgMatch'' then (TipText (''$'' @ to_fixed 0 value), ''Avg Match'')
      else if name = ''competitiveness'' then (TipText (to_fixed 1 value @ ''%''), ''Competitive Index'')
      else (TipRaw value, name))"

text \<open>The three series: \<open>dataKey\<close> and \<open>name\<close> property.\<close>

definition comparison_series :: "(string \<times> string option) list" where
  "comparison_series =
     [(''totalSales'', Some ''Total Sales''), (''avgMatch'', Some ''Avg Match Sales''),
      (''competitiveness'', Some ''Competitive Index'')]"

definition tooltip_series_name :: "string \<times> string option \<Rightarrow> string" where
  "tooltip_series_name s = (case snd s of Some n \<Rightarrow> n | None \<Rightarrow> fst s)"

definition comparison_value :: "string \<Rightarrow> string \<times> jsnum \<times> jsnum \<times> nat \<times> jsnum \<Rightarrow> jsnum" where
  "comparison_value k r =
     (case r of (g, ts, am, st, c) \<Rightarrow> if k = ''totalSales'' then ts else if k = ''avgMatch'' then am else c)"

definition comparison_tooltip :: "string \<times> jsnum \<times> jsnum \<times> nat \<times> jsnum \<Rightarrow> (tip_value \<times> string) list" where
  "comparison_tooltip r =
     map (\<lambda>s. comparison_formatter (comparison_value (fst s) r) (tooltip_series_name s)) comparison_series"

subsection \<open>Sales distribution and daily trend (lines 129 to 176)\<close>

definition pie_data :: "analytics \<Rightarrow> (string \<times> jsnum) list" where
  "pie_data a = map (\<lambda>g. (group_acc.group g, group_acc.totalSales g)) (groupStats a)"

text \<open>The slice label; \<open>percent\<close> is the share recharts computes for the slice.\<close>

definition pie_label :: "string \<Rightarrow> jsnum \<Rightarrow> string" where
  "pie_label g percent = js_replace_first ''Group '' ''G'' g @ '': '' @ to_fixed 0 (js_mul percent (Num 100)) @ ''%''"

definition money_tooltip :: "jsnum \<Rightarrow> string" where
  "money_tooltip v = ''$'' @ to_fixed 0 v"

definition daily_chart :: "analytics \<Rightarrow> (string \<times> jsnum) list" where
  "daily_chart a = map (\<lambda>d. (date d, daily.totalSales d)) (dailyPerformance a)"

subsection \<open>Store comparison chart of GroupStandingsTable (lines 127 to 185)\<close>

definition standings_chart_tooltip :: "jsnum \<Rightarrow> string \<times> string" where
  "standings_chart_tooltip v = (''$'' @ to_fixed 0 v, ''Total Sales'')"

definition standings_chart :: "standing list \<Rightarrow> (string \<times> jsnum) list" where
  "standings_chart sts = map (\<lambda>s. (store s, store_acc.totalSales s)) sts"

subsection \<open>Lemmas\<close>

text \<open>
  The comparison formatter tests the data keys, but every series sets a \<open>name\<close>, so the
  tooltip is called with the display names and none of its branches is taken: all three
  values are shown raw, unformatted, under the series names.
\<close>

lemma comparison_tooltip_unformatted:
  "comparison_tooltip r =
     [(TipRaw (comparison_value ''totalSales'' r), ''Total Sales''),
      (TipRaw (comparison_value ''avgMatch'' r), ''Avg Match Sales''),
      (TipRaw (comparison_value ''competitiveness'' r), ''Competitive Index'')]"
  by (simp add: comparison_tooltip_def comparison_series_def tooltip_series_name_def comparison_formatter_def)

lemma daily_fold_date [simp]:
  "date (foldl (\<lambda>dr m. update_daily (match_total m) dr) dr ms) = date dr"
  by (induction ms arbitrary: dr) (simp_all add: update_daily_def)

text \<open>The daily trend has one point per date of the data, dates named like an
  \<open>Object.prototype\<close> property left out, and no date twice.\<close>

lemma daily_chart_dates:
  assumes "process_analytics raw = Inr a"
  shows "distinct (map fst (daily_chart a))
    \<and> set (map fst (daily_chart a)) = Date ` set (filter (\<lambda>m. \<not> is_proto_key (Date m)) raw)"
proof (cases "raw = []")
  case True
  with assms have "a = empty_analytics" by (simp add: process_analytics_def)
  with True show ?thesis by (simp add: empty_analytics_def daily_chart_def)
next
  case False
  from assms False obtain st where v: "views_agree raw st" and d: "keys_distinct st"
    and dp: "dailyPerformance a = obj_values (acc_daily st)"
    by (rule process_analytics_Inr)
  have key: "date (snd p) = fst p" if "p \<in> set (acc_daily st)" for p
  proof -
    from that d have "map_of (acc_daily st) (fst p) = Some (snd p)" by (simp add: keys_distinct_def)
    with v have "daily_view raw (fst p) = Some (snd p)" by (simp add: views_agree_def)
    then have "snd p = foldl (\<lambda>dr m. update_daily (match_total m) dr) (new_daily (fst p))
        (filter (\<lambda>m. Date m = fst p) raw)"
      by (auto simp: daily_view_def split: if_splits)
    then show ?thesis by (simp add: new_daily_def)
  qed
  have "map fst (daily_chart a) = map (\<lambda>p. date (snd p)) (obj_entries (acc_daily st))"
    by (simp add: daily_chart_def dp obj_values_def comp_def)
  also have "\<dots> = map fst (obj_entries (acc_daily st))"
    by (rule map_cong) (simp_all add: key)
  finally have m: "map fst (daily_chart a) = map fst (obj_entries (acc_daily st))" .
  show ?thesis
    using d views_keys(3) [OF v] by (simp add: m keys_distinct_def)
qed

end
