(* ===== verification/App.thy ===== *)
theory App
  imports Overview_Charts
begin

text \<open>
  The page as a whole (src/src/components/Dashboard.jsx lines 86 to 172, Footer.jsx and
  StoreSearchBar.jsx): the Dashboard's own state together with the state of the
  DashboardTab it renders. React keeps DashboardTab's state only while the component stays
  mounted; it is mounted exactly while the Dashboard shows its main view on the dashboard
  tab, so every Dashboard step that leaves that view (a tab click, the loading screen of a
  refresh) discards it, and the next mount starts from \<open>init_tab\<close>.
\<close>

subsection \<open>The page\<close>

record app_state =
  dash :: dash_state
  tab :: tab_state

definition tab_mounted :: "dash_state \<Rightarrow> bool" where
  "tab_mounted st = (case render st of VMain TabDashboard _ \<Rightarrow> True | _ \<Rightarrow> False)"

definition app_dash_step :: "build_mode \<Rightarrow> app_state \<Rightarrow> dash_event \<Rightarrow> app_state" where
  "app_dash_step mode s e =
     (let st' = dash_step mode (dash s) e in
      \<lparr>dash = st', tab = (if tab_mounted (dash s) \<and> tab_mounted st' then tab s else init_tab)\<rparr>)"

datatype tab_event =
  SelectStore store_perf | ClearStore | SearchChange string | SearchFocus | SearchBlurTimeout

fun tab_step :: "tab_event \<Rightarrow> tab_state \<Rightarrow> tab_state" where
  "tab_step (SelectStore s) ts = handle_store_select s ts"
| "tab_step ClearStore ts = handle_clear_store ts"
| "tab_step (SearchChange v) ts = search_change v ts"
| "tab_step SearchFocus ts = search_focus ts"
| "tab_step SearchBlurTimeout ts = search_blur_timeout ts"

definition app_tab_step :: "app_state \<Rightarrow> tab_event \<Rightarrow> app_state" where
  "app_tab_step s e = (if tab_mounted (dash s) then s\<lparr>tab := tab_step e (tab s)\<rparr> else s)"

text \<open>StoreSearchBar's dropdown (lines 39 to 71): shown only while \<open>showDropdown\<close> is set
  and there are results; each entry shows the name, group, sales and record.\<close>

definition dropdown_items :: "tab_state \<Rightarrow> store_perf list \<Rightarrow> (string \<times> string \<times> string \<times> string) list" where
  "dropdown_items ts fs =
     (if showDropdown ts \<and> fs \<noteq> [] then
        map (\<lambda>s. (store s, store_acc.group s,
                   ''$'' @ to_fixed 1 (js_div (store_acc.totalSales s) (Num 1000)) @ ''K'',
                   nat_str (wins s) @ ''W-'' @ nat_str (losses s) @ ''L'')) fs
      else [])"

text \<open>Footer.jsx line 13: the time of the last fetch, or \<open>N/A\<close>. The locale's
  \<open>toLocaleTimeString\<close> is a parameter.\<close>

definition footer_last_fetch :: "(nat \<Rightarrow> string) \<Rightarrow> nat option \<Rightarrow> string" where
  "footer_last_fetch fmt t = (case t of None \<Rightarrow> ''N/A'' | Some x \<Rightarrow> fmt x)"

text \<open>Dashboard.jsx lines 107 to 111: the header line shown once data has been loaded;
  \<open>toLocaleString\<close> is a parameter.\<close>

definition header_last_updated :: "(nat \<Rightarrow> string) \<Rightarrow> nat option \<Rightarrow> string option" where
  "header_last_updated fmt t = map_option (\<lambda>x. ''Last updated: '' @ fmt x) t"

datatype page =
  PageDashboard tab_view
  | PageStandings "(string \<times> string) list" "(string \<times> standing list \<times> group_stats option) list"
  | PageOther view

definition app_view :: "app_state \<Rightarrow> page" where
  "app_view s =
     (case render (dash s) of
        VMain TabDashboard a \<Rightarrow> PageDashboard (tab_render a (selectedMetric (dash s)) (tab s))
      | VMain TabStandings a \<Rightarrow> PageStandings (standings_buttons a) (standings_tab (standingsGroupFilter (dash s)) a)
      | v \<Rightarrow> PageOther v)"

subsection \<open>Lemmas\<close>

text \<open>A refresh shows the loading screen, which unmounts DashboardTab: the search and the
  selected store are gone when the data comes back.\<close>

lemma app_refresh_resets_tab: "tab (app_dash_step mode s UserRefresh) = init_tab"
proof -
  have "\<not> tab_mounted (fetch_start (dash s))"
    by (simp add: tab_mounted_def render_def fetch_start_def split: sum.split)
  then show ?thesis by (simp add: app_dash_step_def Let_def)
qed

text \<open>Choosing a store from the dropdown or the top-ten cards of a shown dashboard opens its
  detail view: the composition of Dashboard, DashboardOverview and DashboardTab never
  crashes on a store it offered.\<close>

lemma app_select_offered_store:
  assumes "render (dash s) = VMain TabDashboard a"
    and "st \<in> set (top_stores (selectedMetric (dash s)) (storePerformance a))
         \<union> set (filtered_stores (searchQuery (tab s)) (storePerformance a))"
  shows "\<exists>sa. app_view (app_tab_step s (SelectStore st))
    = PageDashboard (StoreDetail st sa (filtered_stores (store st) (storePerformance a)))"
proof -
  from assms(1) have pa: "process_analytics (rawData (dash s)) = Inr a"
    by (auto simp: render_def split: sum.splits if_splits)
  from assms(2) have "st \<in> set (storePerformance a)"
    by (auto simp: top_stores_def filtered_stores_def dest: in_set_takeD split: if_splits)
  from store_analytics_ok [OF pa this] obtain sa where "store_analytics_of a st = Inr sa" by blast
  with assms(1) show ?thesis
    by (simp add: app_view_def app_tab_step_def tab_mounted_def tab_render_def handle_store_select_def
        filtered_stores_def)
qed

lemma dropdown_after_select: "dropdown_items (handle_store_select s ts) fs = []"
  by (simp add: dropdown_items_def handle_store_select_def)

text \<open>Well-formed records stay well formed through the aggregator: the store and group
  names the page displays and searches carry no surrounding white space when the records'
  text fields carry none, as the parser guarantees.\<close>

lemma process_analytics_trimmed_names:
  assumes "list_all match_record_wf raw" and "process_analytics raw = Inr a"
    and "sp \<in> set (storePerformance a)"
  shows "js_trim (store sp) = store sp \<and> js_trim (store_acc.group sp) = store_acc.group sp"
proof -
  from store_plays_in_group [OF assms(2,3)]
  obtain m where "m \<in> set raw" "plays (store sp) m" "Group m = store_acc.group sp" by blast
  with assms(1) show ?thesis
    by (auto simp: list_all_iff match_record_wf_def plays_def)
qed

end
