(* ===== verification/Spec2Isabelle.thy ===== *)
theory Spec2Isabelle
  imports Legacy Legacy_Parse Proxy App
begin

text \<open>
  Verification development for the retail-performance dashboard (thesaugat/retail-performance).

  \<^bold>\<open>The program.\<close> A React dashboard fetches a CSV feed of sales-tournament matches
  (\<open>src/src/api/salesApi.js\<close>, \<open>fetchSalesData\<close>), parses it into match records
  (\<open>parseCSVData\<close>), and derives group statistics, store performance, daily totals and
  per-group standings (\<open>src/src/utils/analytics.js\<close>, \<open>processAnalytics\<close>). The
  \<open>Dashboard\<close> component owns the loading state and the tabs; \<open>DashboardTab\<close> adds a
  store search, a top-ten list and a store detail view; \<open>StandingsTab\<close> filters and orders
  the group tables; \<open>GroupStandingsTable\<close>, \<open>StoreDetailView\<close> and
  \<open>DashboardOverview\<close> display numbers computed from the bundle. Three serverless relays
  (\<open>src/src/api/matches.js\<close>, \<open>proxy.js\<close>, \<open>fetch-matches.js\<close>) forward the upstream
  CSV. \<open>src/src/utils/dataHelpers.js\<close> is an older reader and aggregator, and
  \<open>constants.js\<close> holds constants no file imports.

  \<^bold>\<open>Theories, in import order.\<close>
  \<^item> \<open>Prelude\<close>: the rule collections \<open>js_eval\<close> (evaluation of the JavaScript built-ins on
    literals) and \<open>model_defs\<close>, decimal digits, and list, alist and sorting lemmas.
  \<^item> \<open>JS_String\<close>, \<open>JS_Number\<close>, \<open>JS_Object\<close>: the built-ins the code calls.
    Numbers are \<open>jsnum\<close> (exact reals, NaN and the infinities) with the IEEE rules for
    \<open>+ - * /\<close>, \<open>parseFloat\<close>, \<open>parseInt\<close>, \<open>Number(string)\<close>, \<open>toFixed\<close> and
    \<open>x || 0\<close>; strings are character lists (\<open>trim\<close>, \<open>split\<close>, \<open>replace\<close>,
    \<open>includes\<close>, \<open>toLowerCase\<close>); objects are association lists whose reads see the
    names of \<open>Object.prototype\<close>, with the own-key order of \<open>Object.values\<close>; the stable
    \<open>Array.prototype.sort\<close> (insertion sort, NaN read as 0), \<open>slice\<close> and \<open>findIndex\<close>.
  \<^item> \<open>CSV_Parser\<close>: \<open>parseCSVLine\<close> as a recursion over the characters and as the
    source's index loop (\<open>csv_line_at\<close>), and \<open>parseCSVData\<close> with its two errors as
    \<open>Inl\<close> values. Claims C1 to C3, C39 (the number of fields is one more than the
    commas outside quotes, \<open>unquoted_commas\<close>), C40.
  \<^item> \<open>Analytics_Pass\<close>, \<open>Analytics\<close>: the single pass of \<open>processAnalytics\<close> over the
    matches as explicit state passing on three dictionaries and a margin list, each dictionary
    related to a declarative view (\<open>views_agree\<close>, \<open>keys_distinct\<close>, \<open>keys_order\<close> are
    invariants of the pass), then the derived metrics and the standings. A prototype-named
    key makes the code throw, modelled as \<open>Inl TypeError\<close>. Claims C4 to C6, C8 to C14.
  \<^item> \<open>Legacy_Parse\<close>, \<open>Legacy\<close>: dataHelpers.js. Its reader agrees with
    \<open>parseCSVData\<close> on clean feeds (C15, C16), and its \<open>calculateGroupStats\<close> and
    \<open>calculateStorePerformance\<close> refine \<open>processAnalytics\<close> through abstraction functions
    that forget the fields the legacy code does not compute (C17, C18).
  \<^item> \<open>Fetch\<close>: \<open>fetchSalesData\<close>, the network a parameter from URL to outcome (C19, C20).
  \<^item> \<open>Proxy\<close>: each relay handler as a function from the upstream outcome to the status,
    headers and body it writes (C21, C22).
  \<^item> \<open>Dashboard\<close>: the component's state as a record, \<open>fetchData\<close> split at its
    \<open>await\<close> into a start and a completion step, the user's buttons as events guarded by what
    the render offers, and the reachable states as an inductive relation. The invariants are
    proved by rule induction (C23 to C27).
  \<^item> \<open>Dashboard_Tab\<close>: DashboardTab.jsx and the search bar's handlers: search results, top
    ten, the selected store's analytics and the rendered branch (C28 to C32).
  \<^item> \<open>Standings_Tab\<close>: StandingsTab.jsx, the group filter and the \<open>parseInt\<close>-keyed sort
    (C33, C34).
  \<^item> \<open>Display\<close>: the values GroupStandingsTable, StoreDetailView and DashboardOverview
    compute, with the markup left out (C35 to C38), and the store Set of each group (C7).
  \<^item> \<open>Constants\<close>: constants.js and the places the components repeat its values.
  \<^item> \<open>Overview_Charts\<close>: the rows handed to each recharts chart and the strings the
    tooltip formatters and labels return; recharts passes a series' \<open>name\<close> to the
    formatter, which the comparison chart's formatter does not expect.
  \<^item> \<open>App\<close>: the page as a whole, the Dashboard's state paired with the state of the
    DashboardTab it mounts, which React discards whenever the main view or the dashboard tab
    is left (a refresh clears the search and the selected store), the search dropdown, the
    header and footer time lines, and the page each state shows; well-formed records keep
    the displayed store and group names trimmed through the aggregator.

  \<^bold>\<open>What the lemma groups show.\<close> Parser: the quoted-field round trip, the exact set of
  records, the error conditions, the field count of a line and the shape of every record.
  Aggregator: the TypeError condition, recent form, the wins, losses and points identities,
  the match accounting of the group, daily and store tables, first-seen orders, sorted and
  partitioned standings. Legacy: equivalence and refinement. Fetch and relays: success and
  every error message. Dashboard: at most one request in flight, which screen shows when,
  progress of a pending request, and when rendering crashes. Tabs and displays: rank bounds,
  the search and top-ten contracts, the order of the standings tables, agreement of the three
  medal colourings, balance bounds and the count cards. Charts and page: the comparison
  tooltip never formats, the daily trend has one point per date, a refresh resets the
  dashboard tab, a store the page offers opens without a crash, and the parser's trimmed
  names survive the aggregator.

  \<^bold>\<open>Model choices.\<close> Numbers are exact reals, so rounding of binary64 is not modelled;
  \<open>toFixed\<close> rounds the exact value and prints values of \<open>10^21\<close> and more with its digit
  algorithm rather than \<open>Number::toString\<close>. \<open>toLowerCase\<close> is exact for code units
  below 256. Asynchrony is a counter of pending requests in the dashboard state: each start
  step adds one, each completion removes one, and the order of completions is free. The loop
  of \<open>parseCSVLine\<close> is modelled twice, structurally and as the index loop in the option
  monad; a lemma shows the latter always returns what the former does, so no fuel or bound
  is needed.
  Every other loop of the code is a \<open>forEach\<close> or \<open>map\<close> over a list and is a structural
  recursion or a fold.

  \<^bold>\<open>Not modelled.\<close> JSX markup, class names and the recharts configuration (layout,
  margins, drawing; only its documented rule for a formatter's \<open>name\<close> is used); StatCard (a markup wrapper); the static text of Footer, and the locale's
  \<open>toLocaleString\<close> and \<open>toLocaleTimeString\<close>, which are parameters; the \<open>CHART_CONFIG\<close> styling object of
  constants.js; \<open>console\<close> logging; the platform's own response headers and a failing
  \<open>response.text()\<close> in the relays; the browser's event loop beyond the pending counter.
\<close>

end
